(* ===== verification/Prelude.thy ===== *)
theory Prelude imports Main "HOL-Library.Word"
begin

text \<open>
  Shared vocabulary of the development: the integer and byte types of the C++ code, C strings and
  the searches the HTTP code performs on them, and generic list lemmas. Nothing here is specific to
  one component.
\<close>

unbundle bit_operations_syntax

named_theorems bytes_simps \<open>closed byte-string constants, unfolded for evaluation\<close>

section \<open>Machine types\<close>

type_synonym u8 = "8 word"
type_synonym u32 = "32 word"

text \<open>
  A \<^verbatim>\<open>std::string\<close> is a list of 8-bit characters; \<open>bytes_of\<close> is the view
  \<^verbatim>\<open>(const byte* )str.c_str()\<close>, and \<open>utf8\<close> writes a literal that is not ASCII
  by its UTF-8 bytes.
\<close>

definition bytes_of :: "string \<Rightarrow> u8 list" where
  "bytes_of s = map of_char s"

definition utf8 :: "nat list \<Rightarrow> string" where
  "utf8 ns = map char_of ns"

lemma length_bytes_of [simp]: "length (bytes_of s) = length s"
  by (simp add: bytes_of_def)

section \<open>Strings in memory\<close>

abbreviation NUL :: char where "NUL \<equiv> CHR 0x00"
abbreviation CR :: char where "CR \<equiv> CHR 0x0D"
abbreviation LF :: char where "LF \<equiv> CHR 0x0A"
abbreviation TAB :: char where "TAB \<equiv> CHR 0x09"
abbreviation SP :: char where "SP \<equiv> CHR 0x20"

text \<open>White space of the C library.\<close>

definition is_space :: "char \<Rightarrow> bool" where
  "is_space c \<longleftrightarrow> c = SP \<or> c = TAB \<or> c = LF \<or> c = CHR 0x0B \<or> c = CHR 0x0C \<or> c = CR"

text \<open>The C string that starts at a block of memory: everything before the first NUL.\<close>

definition cstr :: "string \<Rightarrow> string" where
  "cstr mem = takeWhile (\<lambda>c. c \<noteq> NUL) mem"

text \<open>Index of the first occurrence of a pattern.\<close>

fun find_sub :: "string \<Rightarrow> string \<Rightarrow> nat option" where
  "find_sub pat [] = (if pat = [] then Some 0 else None)"
| "find_sub pat (c # cs) =
     (if take (length pat) (c # cs) = pat then Some 0
      else map_option Suc (find_sub pat cs))"

text \<open>
  \<^verbatim>\<open>strstr\<close> on a block of memory. It stops at the first match or at the first NUL; when
  the block holds neither, the call runs past its end, which has no defined result.
\<close>

datatype strstr_result = Found nat | Absent | Overrun

definition strstr :: "string \<Rightarrow> string \<Rightarrow> strstr_result" where
  "strstr mem pat =
     (case find_sub pat (cstr mem) of
        Some k \<Rightarrow> Found k
      | None \<Rightarrow> if NUL \<in> set mem then Absent else Overrun)"

text \<open>The loop \<^verbatim>\<open>while (i < len && P(line[i])) i++\<close> over a buffer of length \<open>len\<close>.\<close>

definition scan :: "(char \<Rightarrow> bool) \<Rightarrow> string \<Rightarrow> nat \<Rightarrow> nat" where
  "scan P line i = i + length (takeWhile P (drop i line))"

text \<open>The character \<^verbatim>\<open>s.c_str()[i]\<close>: the terminating NUL when \<open>i\<close> is the length.\<close>

definition char_at :: "string \<Rightarrow> nat \<Rightarrow> char" where
  "char_at s i = (if i < length s then s ! i else NUL)"

section \<open>Facts about searching\<close>

lemma find_sub_Some_iff:
  "find_sub pat s = Some k \<longleftrightarrow>
     k \<le> length s \<and> take (length pat) (drop k s) = pat \<and>
     (\<forall>j < k. take (length pat) (drop j s) \<noteq> pat)"
proof (induction s arbitrary: k)
  case Nil
  show ?case by auto
next
  case (Cons c cs)
  show ?case
  proof (cases "take (length pat) (c # cs) = pat")
    case True
    then show ?thesis by auto
  next
    case False
    show ?thesis
    proof (cases k)
      case 0
      with False show ?thesis by auto
    next
      case (Suc m)
      with False Cons.IH[of m] show ?thesis
        by (auto simp: less_Suc_eq_0_disj)
    qed
  qed
qed

lemma find_sub_None_iff:
  "find_sub pat s = None \<longleftrightarrow> (\<forall>k \<le> length s. take (length pat) (drop k s) \<noteq> pat)"
proof (induction s)
  case Nil
  show ?case by auto
next
  case (Cons c cs)
  have "(\<forall>k \<le> length (c # cs). P k) \<longleftrightarrow> P 0 \<and> (\<forall>k \<le> length cs. P (Suc k))" for P
    by (metis Suc_le_mono bot_nat_0.extremum length_Cons not0_implies_Suc)
  then show ?case using Cons.IH by auto
qed

lemma find_sub_bound:
  assumes "find_sub pat s = Some k"
  shows "k + length pat \<le> length s"
proof -
  from assms have "k \<le> length s" "take (length pat) (drop k s) = pat"
    by (simp_all add: find_sub_Some_iff)
  then have "length pat \<le> length (drop k s)"
    by (metis length_take min.cobounded1)
  with \<open>k \<le> length s\<close> show ?thesis by simp
qed

lemma take_drop_append_inside:
  assumes "j + n \<le> length s"
  shows "take n (drop j (s @ t)) = take n (drop j s)"
  using assms by simp

lemma find_sub_append:
  assumes "find_sub pat s = Some k"
  shows "find_sub pat (s @ t) = Some k"
proof -
  have bound: "k + length pat \<le> length s" using assms by (rule find_sub_bound)
  have here: "take (length pat) (drop k (s @ t)) = pat"
    using assms bound by (simp add: find_sub_Some_iff take_drop_append_inside)
  have before: "take (length pat) (drop j (s @ t)) \<noteq> pat" if "j < k" for j
  proof -
    have "j + length pat \<le> length s" using that bound by simp
    then have eq: "take (length pat) (drop j (s @ t)) = take (length pat) (drop j s)"
      by (rule take_drop_append_inside)
    show ?thesis unfolding eq using assms that by (simp add: find_sub_Some_iff)
  qed
  have "k \<le> length (s @ t)" using bound by simp
  with here before show ?thesis unfolding find_sub_Some_iff by blast
qed

lemma find_sub_prefix:
  assumes "find_sub pat (s @ t) = Some k" and "k + length pat \<le> length s"
  shows "find_sub pat s = Some k"
proof -
  have before: "take (length pat) (drop j s) \<noteq> pat" if "j < k" for j
  proof -
    have "j + length pat \<le> length s" using that assms(2) by simp
    then have eq: "take (length pat) (drop j (s @ t)) = take (length pat) (drop j s)"
      by (rule take_drop_append_inside)
    have "take (length pat) (drop j (s @ t)) \<noteq> pat"
      using assms(1) that unfolding find_sub_Some_iff by blast
    then show ?thesis unfolding eq .
  qed
  have "take (length pat) (drop k s) = pat"
    using assms by (simp add: find_sub_Some_iff)
  with before assms(2) show ?thesis by (simp add: find_sub_Some_iff)
qed

lemma find_sub_None_take:
  assumes "find_sub pat s = Some k" and "n < k + length pat" and "pat \<noteq> []"
  shows "find_sub pat (take n s) = None"
proof (rule ccontr)
  assume "find_sub pat (take n s) \<noteq> None"
  then obtain j where j: "find_sub pat (take n s) = Some j" by auto
  then have "j + length pat \<le> length (take n s)" by (rule find_sub_bound)
  then have "j + length pat \<le> n" by simp
  moreover have "find_sub pat (take n s @ drop n s) = Some j"
    using j by (rule find_sub_append)
  ultimately show False using assms by simp
qed

lemma cstr_append_NUL [simp]: "NUL \<notin> set s \<Longrightarrow> cstr (s @ NUL # t) = s"
  by (simp add: cstr_def takeWhile_append)

lemma cstr_no_NUL [simp]: "NUL \<notin> set s \<Longrightarrow> cstr s = s"
  unfolding cstr_def by (rule takeWhile_eq_all_conv[THEN iffD2]) auto

lemma cstr_append: "NUL \<notin> set s \<Longrightarrow> cstr (s @ t) = s @ cstr t"
  unfolding cstr_def by (rule takeWhile_append2) auto

lemma strstr_inside:
  assumes "NUL \<notin> set s" and "find_sub pat s = Some k"
  shows "strstr (s @ t) pat = Found k"
  using assms by (simp add: strstr_def cstr_append find_sub_append)

lemma strstr_terminated:
  assumes "NUL \<notin> set s"
  shows "strstr (s @ NUL # t) pat = (case find_sub pat s of Some k \<Rightarrow> Found k | None \<Rightarrow> Absent)"
  using assms by (simp add: strstr_def split: option.split)

lemma scan_bounds: "i \<le> length line \<Longrightarrow> i \<le> scan P line i \<and> scan P line i \<le> length line"
  by (simp add: scan_def) (metis length_drop length_takeWhile_le le_diff_conv2 add.commute)

lemma drop_takeWhile_length: "drop (length (takeWhile P xs)) xs = dropWhile P xs"
  by (metis dropWhile_eq_drop)

lemma dropWhile_all_append:
  assumes "\<forall>x \<in> set xs. P x"
  shows "dropWhile P (xs @ ys) = dropWhile P ys"
  using assms by (induction xs) simp_all

lemma find_sub_here:
  assumes "pat \<noteq> []" and "hd pat \<notin> set s"
  shows "find_sub pat (s @ pat @ t) = Some (length s)"
  using assms(2)
proof (induction s)
  case Nil
  then show ?case using assms(1) by (cases pat) simp_all
next
  case (Cons c cs)
  then have "take (length pat) (c # cs @ pat @ t) \<noteq> pat"
    using assms(1) by (cases pat) auto
  with Cons show ?case by simp
qed

lemma find_sub_absent:
  assumes "pat \<noteq> []" and "hd pat \<notin> set s"
  shows "find_sub pat s = None"
  using assms by (induction s) (cases pat; auto)+

section \<open>Decimal numerals\<close>

text \<open>The decimal text of an integer, as an output stream or \<^verbatim>\<open>lexical_cast\<close> writes it.\<close>

definition digit_char :: "nat \<Rightarrow> char" where
  "digit_char d = char_of (48 + d)"

fun decimal :: "nat \<Rightarrow> string" where
  "decimal n = (if n < 10 then [digit_char n] else decimal (n div 10) @ [digit_char (n mod 10)])"

declare decimal.simps [simp del]

definition decimal_int :: "int \<Rightarrow> string" where
  "decimal_int i = (if i < 0 then CHR ''-'' # decimal (nat (- i)) else decimal (nat i))"

text \<open>Reading digits back, the first digit weighing most.\<close>

definition is_decimal :: "char \<Rightarrow> bool" where
  "is_decimal c \<longleftrightarrow> 48 \<le> (of_char c :: nat) \<and> (of_char c :: nat) \<le> 57"

definition decimal_value :: "string \<Rightarrow> nat" where
  "decimal_value s = foldl (\<lambda>v c. v * 10 + (of_char c - 48)) 0 s"

lemma of_char_digit [simp]: "d < 10 \<Longrightarrow> (of_char (digit_char d) :: nat) = 48 + d"
  by (simp add: digit_char_def)

lemma is_decimal_digit [simp]: "d < 10 \<Longrightarrow> is_decimal (digit_char d)"
  by (simp add: is_decimal_def)

lemma decimal_value_snoc [simp]: "decimal_value (s @ [c]) = decimal_value s * 10 + (of_char c - 48)"
  by (simp add: decimal_value_def)

lemma decimal_value_decimal [simp]: "decimal_value (decimal n) = n"
proof (induction n rule: decimal.induct)
  case (1 n)
  show ?case
  proof (cases "n < 10")
    case True
    then show ?thesis using decimal_value_snoc[of "[]"] by (simp add: decimal.simps[of n] decimal_value_def)
  next
    case False
    then show ?thesis using 1 by (simp add: decimal.simps[of n])
  qed
qed

lemma decimal_not_Nil [simp]: "decimal n \<noteq> []"
  by (subst decimal.simps) simp

lemma decimal_digits: "c \<in> set (decimal n) \<Longrightarrow> is_decimal c"
  by (induction n rule: decimal.induct) (subst (asm) (2) decimal.simps, auto split: if_splits)

lemma decimal_inject [simp]: "decimal m = decimal n \<longleftrightarrow> m = n"
  by (metis decimal_value_decimal)

lemma is_decimal_not_special:
  "is_decimal c \<Longrightarrow> c \<noteq> CR \<and> c \<noteq> LF \<and> c \<noteq> SP \<and> c \<noteq> TAB \<and> c \<noteq> NUL \<and> c \<noteq> CHR '':'' \<and> c \<noteq> CHR ''-''"
  by (auto simp: is_decimal_def)

end
