(* ===== verification/Md5.thy ===== *)
theory Md5 imports Prelude
begin

text \<open>
  The MD5 class of \<^verbatim>\<open>common/md5.h\<close> and \<^verbatim>\<open>common/md5.cc\<close>: its state as a record, one
  definition per member function, the macros and the four unrolled rounds as written. The words are
  \<^typ>\<open>32 word\<close>, so every addition wraps as \<^verbatim>\<open>uint32\<close> does. A member function returns
  \<open>None\<close> when the code has no defined result: the block loop never ends, or reads or copies
  outside a buffer.
\<close>

section \<open>Constants and macros\<close>

definition S11 :: nat where "S11 = 7"
definition S12 :: nat where "S12 = 12"
definition S13 :: nat where "S13 = 17"
definition S14 :: nat where "S14 = 22"
definition S21 :: nat where "S21 = 5"
definition S22 :: nat where "S22 = 9"
definition S23 :: nat where "S23 = 14"
definition S24 :: nat where "S24 = 20"
definition S31 :: nat where "S31 = 4"
definition S32 :: nat where "S32 = 11"
definition S33 :: nat where "S33 = 16"
definition S34 :: nat where "S34 = 23"
definition S41 :: nat where "S41 = 6"
definition S42 :: nat where "S42 = 10"
definition S43 :: nat where "S43 = 15"
definition S44 :: nat where "S44 = 21"

lemmas shift_defs =
  S11_def S12_def S13_def S14_def S21_def S22_def S23_def S24_def
  S31_def S32_def S33_def S34_def S41_def S42_def S43_def S44_def

definition md5_F :: "u32 \<Rightarrow> u32 \<Rightarrow> u32 \<Rightarrow> u32" where
  "md5_F x y z = (x AND y) OR (NOT x AND z)"

definition md5_G :: "u32 \<Rightarrow> u32 \<Rightarrow> u32 \<Rightarrow> u32" where
  "md5_G x y z = (x AND z) OR (y AND NOT z)"

definition md5_H :: "u32 \<Rightarrow> u32 \<Rightarrow> u32 \<Rightarrow> u32" where
  "md5_H x y z = x XOR y XOR z"

definition md5_I :: "u32 \<Rightarrow> u32 \<Rightarrow> u32 \<Rightarrow> u32" where
  "md5_I x y z = y XOR (x OR NOT z)"

definition ROTATE_LEFT :: "u32 \<Rightarrow> nat \<Rightarrow> u32" where
  "ROTATE_LEFT x n = push_bit n x OR drop_bit (32 - n) x"

text \<open>
  The local variables a, b, c, d of \<^verbatim>\<open>transform\<close>. A macro names the variable it assigns and
  those it reads, so it is a function on the four of them.
\<close>

datatype md5_reg = Ra | Rb | Rc | Rd

type_synonym md5_regs = "u32 \<times> u32 \<times> u32 \<times> u32"

fun reg_get :: "md5_reg \<Rightarrow> md5_regs \<Rightarrow> u32" where
  "reg_get Ra (a, b, c, d) = a"
| "reg_get Rb (a, b, c, d) = b"
| "reg_get Rc (a, b, c, d) = c"
| "reg_get Rd (a, b, c, d) = d"

fun reg_set :: "md5_reg \<Rightarrow> u32 \<Rightarrow> md5_regs \<Rightarrow> md5_regs" where
  "reg_set Ra v (a, b, c, d) = (v, b, c, d)"
| "reg_set Rb v (a, b, c, d) = (a, v, c, d)"
| "reg_set Rc v (a, b, c, d) = (a, b, v, d)"
| "reg_set Rd v (a, b, c, d) = (a, b, c, v)"

definition md5_FF :: "md5_reg \<Rightarrow> md5_reg \<Rightarrow> md5_reg \<Rightarrow> md5_reg \<Rightarrow> u32 \<Rightarrow> nat \<Rightarrow> u32 \<Rightarrow> md5_regs \<Rightarrow> md5_regs" where
  "md5_FF a b c d x s ac r =
     (let r1 = reg_set a (reg_get a r + (md5_F (reg_get b r) (reg_get c r) (reg_get d r) + x + ac)) r;
          r2 = reg_set a (ROTATE_LEFT (reg_get a r1) s) r1
      in reg_set a (reg_get a r2 + reg_get b r2) r2)"

definition md5_GG :: "md5_reg \<Rightarrow> md5_reg \<Rightarrow> md5_reg \<Rightarrow> md5_reg \<Rightarrow> u32 \<Rightarrow> nat \<Rightarrow> u32 \<Rightarrow> md5_regs \<Rightarrow> md5_regs" where
  "md5_GG a b c d x s ac r =
     (let r1 = reg_set a (reg_get a r + (md5_G (reg_get b r) (reg_get c r) (reg_get d r) + x + ac)) r;
          r2 = reg_set a (ROTATE_LEFT (reg_get a r1) s) r1
      in reg_set a (reg_get a r2 + reg_get b r2) r2)"

definition md5_HH :: "md5_reg \<Rightarrow> md5_reg \<Rightarrow> md5_reg \<Rightarrow> md5_reg \<Rightarrow> u32 \<Rightarrow> nat \<Rightarrow> u32 \<Rightarrow> md5_regs \<Rightarrow> md5_regs" where
  "md5_HH a b c d x s ac r =
     (let r1 = reg_set a (reg_get a r + (md5_H (reg_get b r) (reg_get c r) (reg_get d r) + x + ac)) r;
          r2 = reg_set a (ROTATE_LEFT (reg_get a r1) s) r1
      in reg_set a (reg_get a r2 + reg_get b r2) r2)"

definition md5_II :: "md5_reg \<Rightarrow> md5_reg \<Rightarrow> md5_reg \<Rightarrow> md5_reg \<Rightarrow> u32 \<Rightarrow> nat \<Rightarrow> u32 \<Rightarrow> md5_regs \<Rightarrow> md5_regs" where
  "md5_II a b c d x s ac r =
     (let r1 = reg_set a (reg_get a r + (md5_I (reg_get b r) (reg_get c r) (reg_get d r) + x + ac)) r;
          r2 = reg_set a (ROTATE_LEFT (reg_get a r1) s) r1
      in reg_set a (reg_get a r2 + reg_get b r2) r2)"

definition PADDING :: "u8 list" where
  "PADDING = 0x80 # replicate 63 0"

definition HEX :: "string" where
  "HEX = ''0123456789abcdef''"

section \<open>Encoding\<close>

fun encode :: "u32 list \<Rightarrow> u8 list" where
  "encode [] = []"
| "encode (w # ws) =
     ucast (w AND 0xff) # ucast (drop_bit 8 w AND 0xff) #
     ucast (drop_bit 16 w AND 0xff) # ucast (drop_bit 24 w AND 0xff) # encode ws"

text \<open>The length is a multiple of 4, as the comment of \<^verbatim>\<open>decode\<close> asks; its only caller passes 64.\<close>

fun decode :: "u8 list \<Rightarrow> u32 list" where
  "decode (b0 # b1 # b2 # b3 # bs) =
     (ucast b0 OR push_bit 8 (ucast b1) OR push_bit 16 (ucast b2) OR push_bit 24 (ucast b3)) # decode bs"
| "decode _ = []"

fun bytesToHexString :: "u8 list \<Rightarrow> string" where
  "bytesToHexString [] = []"
| "bytesToHexString (t # bs) =
     HEX ! (unat t div 16) # HEX ! (unat t mod 16) # bytesToHexString bs"

section \<open>The block transformation\<close>

definition round1 :: "u32 list \<Rightarrow> (md5_regs \<Rightarrow> md5_regs) list" where
  "round1 x = [
     md5_FF Ra Rb Rc Rd (x ! 0) S11 0xd76aa478,
     md5_FF Rd Ra Rb Rc (x ! 1) S12 0xe8c7b756,
     md5_FF Rc Rd Ra Rb (x ! 2) S13 0x242070db,
     md5_FF Rb Rc Rd Ra (x ! 3) S14 0xc1bdceee,
     md5_FF Ra Rb Rc Rd (x ! 4) S11 0xf57c0faf,
     md5_FF Rd Ra Rb Rc (x ! 5) S12 0x4787c62a,
     md5_FF Rc Rd Ra Rb (x ! 6) S13 0xa8304613,
     md5_FF Rb Rc Rd Ra (x ! 7) S14 0xfd469501,
     md5_FF Ra Rb Rc Rd (x ! 8) S11 0x698098d8,
     md5_FF Rd Ra Rb Rc (x ! 9) S12 0x8b44f7af,
     md5_FF Rc Rd Ra Rb (x ! 10) S13 0xffff5bb1,
     md5_FF Rb Rc Rd Ra (x ! 11) S14 0x895cd7be,
     md5_FF Ra Rb Rc Rd (x ! 12) S11 0x6b901122,
     md5_FF Rd Ra Rb Rc (x ! 13) S12 0xfd987193,
     md5_FF Rc Rd Ra Rb (x ! 14) S13 0xa679438e,
     md5_FF Rb Rc Rd Ra (x ! 15) S14 0x49b40821]"

definition round2 :: "u32 list \<Rightarrow> (md5_regs \<Rightarrow> md5_regs) list" where
  "round2 x = [
     md5_GG Ra Rb Rc Rd (x ! 1) S21 0xf61e2562,
     md5_GG Rd Ra Rb Rc (x ! 6) S22 0xc040b340,
     md5_GG Rc Rd Ra Rb (x ! 11) S23 0x265e5a51,
     md5_GG Rb Rc Rd Ra (x ! 0) S24 0xe9b6c7aa,
     md5_GG Ra Rb Rc Rd (x ! 5) S21 0xd62f105d,
     md5_GG Rd Ra Rb Rc (x ! 10) S22 0x2441453,
     md5_GG Rc Rd Ra Rb (x ! 15) S23 0xd8a1e681,
     md5_GG Rb Rc Rd Ra (x ! 4) S24 0xe7d3fbc8,
     md5_GG Ra Rb Rc Rd (x ! 9) S21 0x21e1cde6,
     md5_GG Rd Ra Rb Rc (x ! 14) S22 0xc33707d6,
     md5_GG Rc Rd Ra Rb (x ! 3) S23 0xf4d50d87,
     md5_GG Rb Rc Rd Ra (x ! 8) S24 0x455a14ed,
     md5_GG Ra Rb Rc Rd (x ! 13) S21 0xa9e3e905,
     md5_GG Rd Ra Rb Rc (x ! 2) S22 0xfcefa3f8,
     md5_GG Rc Rd Ra Rb (x ! 7) S23 0x676f02d9,
     md5_GG Rb Rc Rd Ra (x ! 12) S24 0x8d2a4c8a]"

definition round3 :: "u32 list \<Rightarrow> (md5_regs \<Rightarrow> md5_regs) list" where
  "round3 x = [
     md5_HH Ra Rb Rc Rd (x ! 5) S31 0xfffa3942,
     md5_HH Rd Ra Rb Rc (x ! 8) S32 0x8771f681,
     md5_HH Rc Rd Ra Rb (x ! 11) S33 0x6d9d6122,
     md5_HH Rb Rc Rd Ra (x ! 14) S34 0xfde5380c,
     md5_HH Ra Rb Rc Rd (x ! 1) S31 0xa4beea44,
     md5_HH Rd Ra Rb Rc (x ! 4) S32 0x4bdecfa9,
     md5_HH Rc Rd Ra Rb (x ! 7) S33 0xf6bb4b60,
     md5_HH Rb Rc Rd Ra (x ! 10) S34 0xbebfbc70,
     md5_HH Ra Rb Rc Rd (x ! 13) S31 0x289b7ec6,
     md5_HH Rd Ra Rb Rc (x ! 0) S32 0xeaa127fa,
     md5_HH Rc Rd Ra Rb (x ! 3) S33 0xd4ef3085,
     md5_HH Rb Rc Rd Ra (x ! 6) S34 0x4881d05,
     md5_HH Ra Rb Rc Rd (x ! 9) S31 0xd9d4d039,
     md5_HH Rd Ra Rb Rc (x ! 12) S32 0xe6db99e5,
     md5_HH Rc Rd Ra Rb (x ! 15) S33 0x1fa27cf8,
     md5_HH Rb Rc Rd Ra (x ! 2) S34 0xc4ac5665]"

definition round4 :: "u32 list \<Rightarrow> (md5_regs \<Rightarrow> md5_regs) list" where
  "round4 x = [
     md5_II Ra Rb Rc Rd (x ! 0) S41 0xf4292244,
     md5_II Rd Ra Rb Rc (x ! 7) S42 0x432aff97,
     md5_II Rc Rd Ra Rb (x ! 14) S43 0xab9423a7,
     md5_II Rb Rc Rd Ra (x ! 5) S44 0xfc93a039,
     md5_II Ra Rb Rc Rd (x ! 12) S41 0x655b59c3,
     md5_II Rd Ra Rb Rc (x ! 3) S42 0x8f0ccc92,
     md5_II Rc Rd Ra Rb (x ! 10) S43 0xffeff47d,
     md5_II Rb Rc Rd Ra (x ! 1) S44 0x85845dd1,
     md5_II Ra Rb Rc Rd (x ! 8) S41 0x6fa87e4f,
     md5_II Rd Ra Rb Rc (x ! 15) S42 0xfe2ce6e0,
     md5_II Rc Rd Ra Rb (x ! 6) S43 0xa3014314,
     md5_II Rb Rc Rd Ra (x ! 13) S44 0x4e0811a1,
     md5_II Ra Rb Rc Rd (x ! 4) S41 0xf7537e82,
     md5_II Rd Ra Rb Rc (x ! 11) S42 0xbd3af235,
     md5_II Rc Rd Ra Rb (x ! 2) S43 0x2ad7d2bb,
     md5_II Rb Rc Rd Ra (x ! 9) S44 0xeb86d391]"

definition transform :: "u32 list \<Rightarrow> u8 list \<Rightarrow> u32 list" where
  "transform st block =
     (let x = decode block;
          r = fold (\<lambda>op r. op r) (round1 x @ round2 x @ round3 x @ round4 x) (st ! 0, st ! 1, st ! 2, st ! 3)
      in [st ! 0 + reg_get Ra r, st ! 1 + reg_get Rb r, st ! 2 + reg_get Rc r, st ! 3 + reg_get Rd r])"

section \<open>The object and its member functions\<close>

record md5 =
  md5_state :: "u32 list"
  md5_count :: "u32 list"
  md5_buffer :: "u8 list"
  md5_digest :: "u8 list"
  md5_finished :: bool

definition md5_reset :: "md5 \<Rightarrow> md5" where
  "md5_reset m = m\<lparr>md5_finished := False, md5_count := [0, 0],
     md5_state := [0x67452301, 0xefcdab89, 0x98badcfe, 0x10325476]\<rparr>"

text \<open>\<^verbatim>\<open>memcpy(&buf[off], src, |src|)\<close>; \<open>None\<close> when it writes past the end of \<open>buf\<close>.\<close>

definition memcpy :: "u8 list \<Rightarrow> nat \<Rightarrow> u8 list \<Rightarrow> u8 list option" where
  "memcpy buf off src =
     (if off + length src \<le> length buf
      then Some (take off buf @ src @ drop (off + length src) buf) else None)"

text \<open>
  The loop \<^verbatim>\<open>for (i = partLen; i + 63 < length; i += 64) transform(&input[i])\<close>. The index is a
  \<^verbatim>\<open>uint32\<close> and wraps; \<open>length\<close> is a \<^verbatim>\<open>size_t\<close> and does not.
\<close>

partial_function (option) block_loop :: "u8 list \<Rightarrow> u32 \<Rightarrow> u32 list \<Rightarrow> (u32 \<times> u32 list) option" where
  "block_loop input i st =
     (if unat (i + 63) < length input
      then if unat i + 64 \<le> length input
           then block_loop input (i + 64) (transform st (take 64 (drop (unat i) input)))
           else None
      else Some (i, st))"

declare block_loop.simps [code]

definition md5_index :: "md5 \<Rightarrow> u32" where
  "md5_index m = drop_bit 3 (md5_count m ! 0) AND 0x3f"

definition update_count :: "u32 list \<Rightarrow> nat \<Rightarrow> u32 list" where
  "update_count cnt len =
     (let l3 = push_bit 3 (word_of_nat len :: u32);
          c0 = cnt ! 0 + l3;
          c1 = (if c0 < l3 then cnt ! 1 + 1 else cnt ! 1)
      in [c0, c1 + drop_bit 29 (word_of_nat len :: u32)])"

text \<open>\<^verbatim>\<open>update(const byte* input, size_t length)\<close>\<close>

definition update_bytes :: "md5 \<Rightarrow> u8 list \<Rightarrow> md5 option" where
  "update_bytes m input =
     (let index = md5_index m;
          m1 = m\<lparr>md5_finished := False, md5_count := update_count (md5_count m) (length input)\<rparr>;
          partLen = 64 - index
      in if unat partLen \<le> length input then
           Option.bind (memcpy (md5_buffer m1) (unat index) (take (unat partLen) input)) (\<lambda>buf.
           Option.bind (block_loop input partLen (transform (md5_state m1) buf)) (\<lambda>(i, st).
           Option.bind (memcpy buf 0 (drop (unat i) input)) (\<lambda>buf'.
           Some (m1\<lparr>md5_state := st, md5_buffer := buf'\<rparr>))))
         else
           Option.bind (memcpy (md5_buffer m1) (unat index) input) (\<lambda>buf.
           Some (m1\<lparr>md5_buffer := buf\<rparr>)))"

text \<open>\<^verbatim>\<open>update(const void* , size_t)\<close> and \<^verbatim>\<open>update(const string&)\<close>: both reset first.\<close>

definition update_void :: "md5 \<Rightarrow> u8 list \<Rightarrow> md5 option" where
  "update_void m input = update_bytes (md5_reset m) input"

definition update_string :: "md5 \<Rightarrow> string \<Rightarrow> md5 option" where
  "update_string m str = update_bytes (md5_reset m) (bytes_of str)"

definition md5_final :: "md5 \<Rightarrow> md5 option" where
  "md5_final m =
     (let oldState = md5_state m;
          oldCount = md5_count m;
          bits = encode (md5_count m);
          index = md5_index m;
          padLen = (if index < 56 then 56 - index else 120 - index)
      in Option.bind (update_bytes m (take (unat padLen) PADDING)) (\<lambda>m1.
         Option.bind (update_bytes m1 bits) (\<lambda>m2.
         Some (m2\<lparr>md5_digest := encode (md5_state m2), md5_state := oldState, md5_count := oldCount\<rparr>))))"

text \<open>\<open>digest_bytes\<close> is \<^verbatim>\<open>digest()\<close>: the object after the call and the bytes returned.\<close>

definition digest_bytes :: "md5 \<Rightarrow> (md5 \<times> u8 list) option" where
  "digest_bytes m =
     (if \<not> md5_finished m
      then Option.bind (md5_final (m\<lparr>md5_finished := True\<rparr>)) (\<lambda>m'. Some (m', md5_digest m'))
      else Some (m, md5_digest m))"

definition md5_toString :: "md5 \<Rightarrow> (md5 \<times> string) option" where
  "md5_toString m = map_option (\<lambda>(m', d). (m', bytesToHexString d)) (digest_bytes m)"

text \<open>
  The constructors. The members they do not set, \<^verbatim>\<open>_buffer\<close> and \<^verbatim>\<open>_digest\<close>, hold what
  the memory of the new object held: the argument \<open>mem\<close>.
\<close>

definition MD5_default :: "md5 \<Rightarrow> md5" where
  "MD5_default mem = md5_reset mem"

definition MD5_void :: "md5 \<Rightarrow> u8 list \<Rightarrow> md5 option" where
  "MD5_void mem input = update_void (md5_reset mem) input"

definition MD5_string :: "md5 \<Rightarrow> string \<Rightarrow> md5 option" where
  "MD5_string mem str = update_string (md5_reset mem) str"

text \<open>
  \<^verbatim>\<open>update(ifstream&)\<close>. The stream is whether it is good and the bytes still to read; a read of
  fewer than \<^verbatim>\<open>BUFFER_SIZE\<close> bytes sets the end-of-file flag that ends the loop.
\<close>

definition BUFFER_SIZE :: nat where "BUFFER_SIZE = 1024"

function update_file_loop :: "md5 \<Rightarrow> u8 list \<Rightarrow> md5 option" where
  "update_file_loop m bs =
     (let chunk = take BUFFER_SIZE bs;
          r = (if 0 < length chunk then update_void m chunk else Some m)
      in if length chunk < BUFFER_SIZE then r
         else Option.bind r (\<lambda>m'. update_file_loop m' (drop BUFFER_SIZE bs)))"
  by pat_completeness auto
termination
  by (relation "measure (\<lambda>(m, bs). length bs)") (auto simp: BUFFER_SIZE_def)

declare update_file_loop.simps [simp del]

definition update_file :: "md5 \<Rightarrow> bool \<Rightarrow> u8 list \<Rightarrow> md5 option" where
  "update_file m good bs = (if \<not> good then Some m else update_file_loop m bs)"

definition MD5_file :: "md5 \<Rightarrow> bool \<Rightarrow> u8 list \<Rightarrow> md5 option" where
  "MD5_file mem good bs = update_file (md5_reset mem) good bs"

text \<open>The array sizes the class declares.\<close>

definition md5_wf :: "md5 \<Rightarrow> bool" where
  "md5_wf m \<longleftrightarrow> length (md5_state m) = 4 \<and> length (md5_count m) = 2 \<and> length (md5_buffer m) = 64"

text \<open>\<^verbatim>\<open>MD5(str).toString()\<close>, as the trade handler uses it.\<close>

definition md5_hex :: "md5 \<Rightarrow> string \<Rightarrow> string option" where
  "md5_hex mem str = Option.bind (MD5_string mem str) (\<lambda>m. map_option snd (md5_toString m))"

end
