(* ===== verification/Md5_Spec.thy ===== *)
theory Md5_Spec imports Md5
begin

text \<open>
  The specification of MD5 (RFC 1321) and the proof that the class meets it: the table-driven
  compression function over 64 steps, the padding, and the digest of a whole message, then the
  equivalence of the unrolled rounds with the table, the invariant of the streaming state, and the
  functional correctness of \<open>md5_hex\<close>.
\<close>

section \<open>The reference algorithm\<close>

text \<open>The sine table of the RFC: entry \<open>i\<close> is the integer part of 4294967296 times |sin(i + 1)|.\<close>

definition sine_table :: "u32 list" where
  "sine_table = [
     0xd76aa478, 0xe8c7b756, 0x242070db, 0xc1bdceee,
     0xf57c0faf, 0x4787c62a, 0xa8304613, 0xfd469501,
     0x698098d8, 0x8b44f7af, 0xffff5bb1, 0x895cd7be,
     0x6b901122, 0xfd987193, 0xa679438e, 0x49b40821,
     0xf61e2562, 0xc040b340, 0x265e5a51, 0xe9b6c7aa,
     0xd62f105d, 0x02441453, 0xd8a1e681, 0xe7d3fbc8,
     0x21e1cde6, 0xc33707d6, 0xf4d50d87, 0x455a14ed,
     0xa9e3e905, 0xfcefa3f8, 0x676f02d9, 0x8d2a4c8a,
     0xfffa3942, 0x8771f681, 0x6d9d6122, 0xfde5380c,
     0xa4beea44, 0x4bdecfa9, 0xf6bb4b60, 0xbebfbc70,
     0x289b7ec6, 0xeaa127fa, 0xd4ef3085, 0x04881d05,
     0xd9d4d039, 0xe6db99e5, 0x1fa27cf8, 0xc4ac5665,
     0xf4292244, 0x432aff97, 0xab9423a7, 0xfc93a039,
     0x655b59c3, 0x8f0ccc92, 0xffeff47d, 0x85845dd1,
     0x6fa87e4f, 0xfe2ce6e0, 0xa3014314, 0x4e0811a1,
     0xf7537e82, 0xbd3af235, 0x2ad7d2bb, 0xeb86d391]"

definition shift_table :: "nat list list" where
  "shift_table = [[7, 12, 17, 22], [5, 9, 14, 20], [4, 11, 16, 23], [6, 10, 15, 21]]"

definition shift_of :: "nat \<Rightarrow> nat" where
  "shift_of i = shift_table ! (i div 16) ! (i mod 4)"

definition word_of_step :: "nat \<Rightarrow> nat" where
  "word_of_step i =
     (if i < 16 then i else if i < 32 then (5 * i + 1) mod 16
      else if i < 48 then (3 * i + 5) mod 16 else (7 * i) mod 16)"

definition mix_of :: "nat \<Rightarrow> u32 \<Rightarrow> u32 \<Rightarrow> u32 \<Rightarrow> u32" where
  "mix_of i b c d =
     (if i < 16 then (b AND c) OR (NOT b AND d)
      else if i < 32 then (d AND b) OR (NOT d AND c)
      else if i < 48 then b XOR c XOR d
      else c XOR (b OR NOT d))"

fun ref_step :: "u32 list \<Rightarrow> nat \<Rightarrow> md5_regs \<Rightarrow> md5_regs" where
  "ref_step x i (a, b, c, d) =
     (d, b + word_rotl (shift_of i) (a + mix_of i b c d + sine_table ! i + x ! word_of_step i), b, c)"

definition le_word :: "u8 list \<Rightarrow> u32" where
  "le_word bs = word_of_nat (foldr (\<lambda>b n. unat b + 256 * n) bs 0)"

fun le_words :: "u8 list \<Rightarrow> u32 list" where
  "le_words (b0 # b1 # b2 # b3 # bs) = le_word [b0, b1, b2, b3] # le_words bs"
| "le_words _ = []"

definition ref_compress :: "u32 list \<Rightarrow> u8 list \<Rightarrow> u32 list" where
  "ref_compress st block =
     (case fold (ref_step (le_words block)) [0..<64] (st ! 0, st ! 1, st ! 2, st ! 3) of
        (a, b, c, d) \<Rightarrow> map2 (+) st [a, b, c, d])"

text \<open>All whole blocks of a byte string, one after the other; a partial block at the end is left.\<close>

function ref_blocks :: "u32 list \<Rightarrow> u8 list \<Rightarrow> u32 list" where
  "ref_blocks st bs =
     (if length bs < 64 then st else ref_blocks (ref_compress st (take 64 bs)) (drop 64 bs))"
  by pat_completeness auto
termination
  by (relation "measure (\<lambda>(st, bs). length bs)") auto

declare ref_blocks.simps [simp del]

definition le_bytes :: "nat \<Rightarrow> nat \<Rightarrow> u8 list" where
  "le_bytes n v = map (\<lambda>k. word_of_nat (v div 256 ^ k mod 256)) [0..<n]"

definition ref_pad :: "u8 list \<Rightarrow> u8 list" where
  "ref_pad bs =
     bs @ 0x80 # replicate ((119 - length bs mod 64) mod 64) 0 @ le_bytes 8 (8 * length bs)"

definition ref_init :: "u32 list" where
  "ref_init = [0x67452301, 0xefcdab89, 0x98badcfe, 0x10325476]"

definition ref_digest :: "u8 list \<Rightarrow> u8 list" where
  "ref_digest bs = concat (map (\<lambda>w. le_bytes 4 (unat w)) (ref_blocks ref_init (ref_pad bs)))"

section \<open>Words, shifts and rotations\<close>

lemma unat_less_u32: "unat (w :: u32) < 4294967296"
proof -
  have "(unsigned w :: nat) < 2 ^ LENGTH(32)" by (rule unsigned_less)
  then show ?thesis by simp
qed

lemma ROTATE_LEFT_eq_rotl:
  assumes "s < 32"
  shows "ROTATE_LEFT w s = word_rotl s w"
proof (rule bit_word_eqI)
  fix n assume "n < LENGTH(32)"
  then have n: "n < 32" by simp
  show "bit (ROTATE_LEFT w s) n = bit (word_rotl s w) n"
  proof (cases "s \<le> n")
    case True
    then have "(n + (32 - s)) mod 32 = n - s" using n assms
      by (metis Nat.add_diff_assoc2 add.commute diff_less_mono le_add_diff_inverse2 less_imp_le_nat
          less_imp_diff_less mod_add_self2 mod_less Nat.add_diff_assoc)
    with True n assms show ?thesis
      by (auto simp: ROTATE_LEFT_def bit_simps dest: bit_imp_le_length)
  next
    case False
    then have "(n + (32 - s)) mod 32 = n + (32 - s)" "n + (32 - s) = 32 - s + n"
      using assms by simp_all
    then have "bit (word_rotl s w) n = bit w (32 - s + n)"
      using n assms by (simp add: bit_simps)
    with False n assms show ?thesis
      by (simp add: ROTATE_LEFT_def bit_simps)
  qed
qed

section \<open>The unrolled rounds are the table-driven loop\<close>

text \<open>
  The code rotates the roles of a, b, c, d from one line to the next, the reference moves the values:
  \<open>view i\<close> reads the code's registers in the roles they have before step \<open>i\<close>.
\<close>

definition view :: "nat \<Rightarrow> md5_regs \<Rightarrow> md5_regs" where
  "view i r =
     (if i mod 4 = 0 then (reg_get Ra r, reg_get Rb r, reg_get Rc r, reg_get Rd r)
      else if i mod 4 = 1 then (reg_get Rd r, reg_get Ra r, reg_get Rb r, reg_get Rc r)
      else if i mod 4 = 2 then (reg_get Rc r, reg_get Rd r, reg_get Ra r, reg_get Rb r)
      else (reg_get Rb r, reg_get Rc r, reg_get Rd r, reg_get Ra r))"

definition simulates :: "u32 list \<Rightarrow> (md5_regs \<Rightarrow> md5_regs) \<Rightarrow> nat \<Rightarrow> bool" where
  "simulates x op i \<longleftrightarrow> (\<forall>r. view (Suc i) (op r) = ref_step x i (view i r))"

lemma fold_simulates:
  assumes "list_all2 (simulates x) ops [m..<n]" and "m \<le> n"
  shows "view n (fold (\<lambda>op r. op r) ops r) = fold (ref_step x) [m..<n] (view m r)"
  using assms
proof (induction ops arbitrary: m r)
  case Nil
  then have "m = n" by auto
  then show ?case by simp
next
  case (Cons op ops)
  from Cons.prems have "m < n" by (cases "m < n") auto
  then have upt: "[m..<n] = m # [Suc m..<n]" by (simp add: upt_conv_Cons)
  with Cons.prems have "simulates x op m" "list_all2 (simulates x) ops [Suc m..<n]" by auto
  then have "view n (fold (\<lambda>op r. op r) ops (op r)) = fold (ref_step x) [Suc m..<n] (view (Suc m) (op r))"
    using \<open>m < n\<close> by (intro Cons.IH) auto
  also have "view (Suc m) (op r) = ref_step x m (view m r)"
    using \<open>simulates x op m\<close> unfolding simulates_def by blast
  finally show ?case unfolding upt by simp
qed

lemmas step_simps = simulates_def view_def mix_of_def word_of_step_def shift_of_def shift_table_def
  sine_table_def shift_defs ROTATE_LEFT_eq_rotl

lemma step_indices:
  "[0..<16] = [0, 1, 2, 3, 4, 5, 6, 7, 8, 9, 10, 11, 12, 13, 14, 15]"
  "[16..<32] = [16, 17, 18, 19, 20, 21, 22, 23, 24, 25, 26, 27, 28, 29, 30, 31]"
  "[32..<48] = [32, 33, 34, 35, 36, 37, 38, 39, 40, 41, 42, 43, 44, 45, 46, 47]"
  "[48..<64] = [48, 49, 50, 51, 52, 53, 54, 55, 56, 57, 58, 59, 60, 61, 62, 63]"
  by code_simp+

lemma round1_simulates: "list_all2 (simulates x) (round1 x) [0..<16]"
  unfolding step_indices round1_def
  by (simp only: list_all2_Cons list.rel_inject list_all2_Nil, intro conjI TrueI;
      simp add: step_simps md5_FF_def md5_F_def Let_def; simp add: ac_simps)

lemma round2_simulates: "list_all2 (simulates x) (round2 x) [16..<32]"
  unfolding step_indices round2_def
  by (simp only: list_all2_Cons list.rel_inject list_all2_Nil, intro conjI TrueI;
      simp add: step_simps md5_GG_def md5_G_def Let_def; simp add: ac_simps)

lemma round3_simulates: "list_all2 (simulates x) (round3 x) [32..<48]"
  unfolding step_indices round3_def
  by (simp only: list_all2_Cons list.rel_inject list_all2_Nil, intro conjI TrueI;
      simp add: step_simps md5_HH_def md5_H_def Let_def; simp add: ac_simps)

lemma round4_simulates: "list_all2 (simulates x) (round4 x) [48..<64]"
  unfolding step_indices round4_def
  by (simp only: list_all2_Cons list.rel_inject list_all2_Nil, intro conjI TrueI;
      simp add: step_simps md5_II_def md5_I_def Let_def; simp add: ac_simps)

section \<open>Bytes and words\<close>

lemma decode_word_eq_le_word:
  "(ucast b0 OR push_bit 8 (ucast b1) OR push_bit 16 (ucast b2) OR push_bit 24 (ucast b3) :: u32)
   = le_word [b0, b1, b2, b3]"
proof -
  have "(ucast b0 OR push_bit 8 (ucast b1) OR push_bit 16 (ucast b2) OR push_bit 24 (ucast b3) :: u32)
      = ucast b0 + (push_bit 8 (ucast b1) + (push_bit 16 (ucast b2) + push_bit 24 (ucast b3)))"
    by (subst disjunctive_add_eq_or, (rule bit_eqI, auto simp: bit_simps dest: bit_imp_le_length)[1])+
      (simp add: ac_simps)
  also have "\<dots> = le_word [b0, b1, b2, b3]"
    by (simp add: le_word_def push_bit_eq_mult algebra_simps flip: unsigned_of_nat)
  finally show ?thesis .
qed

lemma decode_eq_le_words: "decode bs = le_words bs"
  by (induction bs rule: decode.induct) (simp_all add: decode_word_eq_le_word)

lemma byte_of_word: "(ucast (drop_bit k w AND 0xff) :: u8) = word_of_nat (unat w div 2 ^ k mod 256)" for w :: u32
proof -
  have "(0xff :: u32) = mask 8" by (simp add: mask_eq_exp_minus_1)
  then have low: "drop_bit k w AND 0xff = take_bit 8 (drop_bit k w)" by (simp only: take_bit_eq_mask)
  have "unat (drop_bit k w AND 0xff) = unat w div 2 ^ k mod 256"
    unfolding low unsigned_take_bit_eq unsigned_drop_bit_eq
    using unat_less_u32[of w] by (simp add: take_bit_eq_mod drop_bit_eq_div)
  then show ?thesis by (metis of_nat_unat)
qed

lemma encode_eq_le_bytes: "encode ws = concat (map (\<lambda>w. le_bytes 4 (unat w)) ws)"
proof (induction ws)
  case (Cons w ws)
  have "[0..<4] = [0, 1, 2, 3]" by code_simp
  then show ?case using Cons byte_of_word[of 0 w] byte_of_word[of 8 w]
      byte_of_word[of 16 w] byte_of_word[of 24 w]
    by (simp add: le_bytes_def)
qed simp

lemma length_encode [simp]: "length (encode ws) = 4 * length ws"
  by (induction ws) simp_all

lemma length_le_bytes [simp]: "length (le_bytes n v) = n"
  by (simp add: le_bytes_def)

text \<open>The code's block transformation is the reference compression.\<close>

lemma transform_eq_ref_compress:
  assumes "length st = 4"
  shows "transform st block = ref_compress st block"
proof -
  define x where "x = le_words block"
  have st: "st = [st ! 0, st ! 1, st ! 2, st ! 3]"
    using assms by (auto simp: list_eq_iff_nth_eq less_Suc_eq numeral_eq_Suc)
  have "[0..<64] = [0..<16] @ [16..<32] @ [32..<48] @ [48..<(64::nat)]" by code_simp
  then have "list_all2 (simulates x) (round1 x @ round2 x @ round3 x @ round4 x) [0..<64]"
    by (simp only:) (intro list_all2_appendI round1_simulates round2_simulates
        round3_simulates round4_simulates)
  from fold_simulates[OF this, of "(st ! 0, st ! 1, st ! 2, st ! 3)"]
  have *: "fold (\<lambda>op r. op r) (round1 x @ round2 x @ round3 x @ round4 x) (st ! 0, st ! 1, st ! 2, st ! 3)
      = fold (ref_step x) [0..<64] (st ! 0, st ! 1, st ! 2, st ! 3)"
    by (simp add: view_def del: fold_append split: prod.splits)
      (metis prod.collapse reg_get.simps)
  show ?thesis
    unfolding transform_def ref_compress_def decode_eq_le_words x_def[symmetric] Let_def *
    by (subst (10) st) (simp split: prod.split)
qed

section \<open>Whole blocks\<close>

lemma ref_blocks_short: "length bs < 64 \<Longrightarrow> ref_blocks st bs = st"
  by (simp add: ref_blocks.simps)

lemma ref_blocks_step: "64 \<le> length bs \<Longrightarrow>
    ref_blocks st bs = ref_blocks (ref_compress st (take 64 bs)) (drop 64 bs)"
  by (subst ref_blocks.simps) simp

lemma length_ref_compress [simp]: "length st = 4 \<Longrightarrow> length (ref_compress st block) = 4"
  by (simp add: ref_compress_def split: prod.split)

lemma length_ref_blocks [simp]: "length st = 4 \<Longrightarrow> length (ref_blocks st bs) = 4"
proof (induction st bs rule: ref_blocks.induct)
  case (1 st bs)
  then show ?case by (cases "length bs < 64") (simp_all add: ref_blocks_short ref_blocks_step)
qed

lemma ref_blocks_append:
  assumes "64 dvd length xs"
  shows "ref_blocks st (xs @ ys) = ref_blocks (ref_blocks st xs) ys"
  using assms
proof (induction st xs rule: ref_blocks.induct)
  case (1 st xs)
  show ?case
  proof (cases "length xs < 64")
    case True
    with "1.prems" have "xs = []" by (auto dest: dvd_imp_le)
    then show ?thesis by (simp add: ref_blocks_short)
  next
    case False
    then have "64 dvd length (drop 64 xs)" using "1.prems" by (simp add: dvd_diff_nat)
    with "1.IH"[OF False] False show ?thesis
      by (simp add: ref_blocks_step[of "xs @ ys"] ref_blocks_step[of xs])
  qed
qed

text \<open>What is left after all whole blocks.\<close>

definition block_rest :: "u8 list \<Rightarrow> u8 list" where
  "block_rest bs = drop (64 * (length bs div 64)) bs"

lemma length_block_rest [simp]: "length (block_rest bs) = length bs mod 64"
  by (simp add: block_rest_def minus_mult_div_eq_mod)

lemma block_split: "\<exists>front. bs = front @ block_rest bs \<and> 64 dvd length front"
proof -
  have "bs = take (64 * (length bs div 64)) bs @ block_rest bs"
    by (simp add: block_rest_def)
  moreover have "length (take (64 * (length bs div 64)) bs) = 64 * (length bs div 64)"
    by simp
  then have "64 dvd length (take (64 * (length bs div 64)) bs)" by (metis dvd_triv_left)
  ultimately show ?thesis by blast
qed

lemma ref_blocks_absorb: "ref_blocks st (bs @ xs) = ref_blocks (ref_blocks st bs) (block_rest bs @ xs)"
proof -
  obtain front where front: "bs = front @ block_rest bs" "64 dvd length front"
    using block_split by blast
  have "ref_blocks st bs = ref_blocks st front"
    by (subst front(1)) (simp add: ref_blocks_append[OF front(2)] ref_blocks_short)
  moreover have "ref_blocks st (bs @ xs) = ref_blocks (ref_blocks st front) (block_rest bs @ xs)"
    by (subst front(1)) (simp add: ref_blocks_append[OF front(2)])
  ultimately show ?thesis by simp
qed

lemma block_rest_absorb: "block_rest (bs @ xs) = block_rest (block_rest bs @ xs)"
proof -
  obtain front where front: "bs = front @ block_rest bs" "64 dvd length front"
    using block_split by blast
  obtain k where k: "length front = 64 * k" using front(2) by (auto elim: dvdE)
  have "block_rest (front @ ys) = block_rest ys" for ys
    using k by (simp add: block_rest_def)
  then show ?thesis by (metis append_assoc front(1))
qed

lemma block_rest_short [simp]: "length bs < 64 \<Longrightarrow> block_rest bs = bs"
  by (simp add: block_rest_def)

lemma block_rest_drop: "64 \<le> length bs \<Longrightarrow> block_rest bs = block_rest (drop 64 bs)"
  by (simp add: block_rest_def le_div_geq add.commute)

section \<open>The block loop\<close>

text \<open>
  While the index cannot wrap, the loop runs the whole blocks from its index on, and stops at the
  rest. Beyond 4 GiB it never stops with a result.
\<close>

lemma block_loop_whole:
  assumes "length input + 63 < 2 ^ 32" and "unat i \<le> length input" and "length st = 4"
  shows "\<exists>j. block_loop input i st = Some (j, ref_blocks st (drop (unat i) input)) \<and>
    drop (unat j) input = block_rest (drop (unat i) input)"
  using assms
proof (induction "length input - unat i" arbitrary: i st rule: less_induct)
  case less
  have i63: "unat (i + 63) = unat i + 63"
    using less.prems by (simp add: unat_word_ariths)
  show ?case
  proof (cases "unat i + 63 < length input")
    case False
    then show ?thesis using i63 less.prems
      by (simp add: block_loop.simps ref_blocks_short)
  next
    case True
    have i64: "unat (i + 64) = unat i + 64"
      using True less.prems by (simp add: unat_word_ariths)
    have "block_loop input i st = block_loop input (i + 64) (transform st (take 64 (drop (unat i) input)))"
      using True i63 by (subst block_loop.simps) simp
    moreover have "\<exists>j. block_loop input (i + 64) (transform st (take 64 (drop (unat i) input))) =
        Some (j, ref_blocks (transform st (take 64 (drop (unat i) input))) (drop (unat (i + 64)) input)) \<and>
        drop (unat j) input = block_rest (drop (unat (i + 64)) input)"
      using True i64 less.prems
      by (intro less.hyps) (simp_all add: transform_eq_ref_compress)
    ultimately show ?thesis using True i64 less.prems
      by (simp add: transform_eq_ref_compress ref_blocks_step[of "drop (unat i) input"]
          block_rest_drop[of "drop (unat i) input"] add.commute)
  qed
qed

lemma block_loop_huge:
  assumes "2 ^ 32 \<le> length input"
  shows "block_loop input i st = None"
proof (rule ccontr)
  assume "block_loop input i st \<noteq> None"
  then obtain r where r: "block_loop input i st = Some r" by auto
  have "2 ^ 32 \<le> length input \<longrightarrow> False"
  proof (rule block_loop.raw_induct[where P = "\<lambda>input i st r. 2 ^ 32 \<le> length input \<longrightarrow> False", OF _ r])
    fix f :: "u8 list \<Rightarrow> u32 \<Rightarrow> u32 list \<Rightarrow> (u32 \<times> u32 list) option" and input i st r
    assume IH: "\<And>input i st r. f input i st = Some r \<Longrightarrow> 2 ^ 32 \<le> length input \<longrightarrow> False"
      and eq: "(if unat (i + 63) < length input
          then if unat i + 64 \<le> length input
               then f input (i + 64) (transform st (take 64 (drop (unat i) input))) else None
          else Some (i, st)) = Some r"
    show "2 ^ 32 \<le> length input \<longrightarrow> False"
    proof
      assume len: "2 ^ 32 \<le> length input"
      have "unat (i + 63) < 2 ^ 32" using unsigned_less[of "i + 63"] by simp
      with len eq IH show False by (auto split: if_splits)
    qed
  qed
  with assms show False by blast
qed

section \<open>The bit count\<close>

definition count_value :: "u32 list \<Rightarrow> nat" where
  "count_value cnt = unat (cnt ! 0) + 2 ^ 32 * unat (cnt ! 1)"

lemma add_with_carry:
  fixes a b :: u32
  shows "unat (a + b) + 4294967296 * (if a + b < b then 1 else 0) = unat a + unat b"
proof -
  have "unat (a + b) = (unat a + unat b) mod 4294967296" by (simp add: unat_word_ariths)
  moreover have "(a + b < b) = (unat (a + b) < unat b)" by (simp add: word_less_nat_alt)
  ultimately show ?thesis using unat_less_u32[of a] unat_less_u32[of b]
    by (auto simp: mod_if split: if_splits)
qed

lemma update_count_value:
  assumes "len < 2 ^ 32"
  shows "count_value (update_count cnt len) mod 2 ^ 64 = (count_value cnt + 8 * len) mod 2 ^ 64"
proof -
  define a b l3 carry hi where defs: "a = cnt ! 0" "b = cnt ! 1" "l3 = (push_bit 3 (word_of_nat len) :: u32)"
    "carry = (if a + l3 < l3 then 1 else 0 :: nat)" "hi = (drop_bit 29 (word_of_nat len) :: u32)"
  have ulen: "unat (word_of_nat len :: u32) = len"
    using assms by (simp add: unat_of_nat)
  have l3: "unat l3 = 8 * len mod 4294967296"
    unfolding defs push_bit_eq_mult by (simp add: unat_word_ariths ulen mult.commute)
  have hi: "unat hi = len div 536870912"
    unfolding defs unsigned_drop_bit_eq ulen
    using assms by (simp add: drop_bit_eq_div take_bit_eq_mod)
  have len8: "unat l3 + 4294967296 * unat hi = 8 * len"
  proof -
    have "8 * len mod 4294967296 = 8 * (len mod 536870912)"
      using mult_mod_right[of 8 len 536870912] by simp
    then show ?thesis unfolding l3 hi using div_mult_mod_eq[of len 536870912] by linarith
  qed
  have c1: "unat (b + word_of_nat carry + hi) = (unat b + carry + unat hi) mod 4294967296"
    by (simp add: unat_word_ariths unat_of_nat mod_simps)
  have upd: "update_count cnt len = [a + l3, b + word_of_nat carry + hi]"
    by (simp add: update_count_def Let_def defs)
  have "count_value (update_count cnt len) mod 2 ^ 64
      = (unat (a + l3) + 4294967296 * ((unat b + carry + unat hi) mod 4294967296)) mod 2 ^ 64"
    unfolding upd count_value_def by (simp add: c1)
  also have "\<dots> = (unat (a + l3) + 4294967296 * (unat b + carry + unat hi)) mod 2 ^ 64"
  proof -
    have "4294967296 * (x mod 4294967296) = (4294967296 * x) mod 2 ^ 64" for x :: nat
      by (simp add: mult_mod_right)
    then show ?thesis by (simp only: mod_add_right_eq)
  qed
  also have "unat (a + l3) + 4294967296 * (unat b + carry + unat hi)
      = unat a + 4294967296 * unat b + (unat l3 + 4294967296 * unat hi)"
    using add_with_carry[of a l3] unfolding defs(4) by (simp add: algebra_simps)
  also have "\<dots> = count_value cnt + 8 * len"
    unfolding len8 by (simp add: count_value_def defs(1,2))
  finally show ?thesis .
qed

lemma count_value_bound: "count_value cnt < 2 ^ 64"
  using unat_less_u32[of "cnt ! 0"] unat_less_u32[of "cnt ! 1"] by (simp add: count_value_def)

lemma md5_index_value: "unat (md5_index m) = count_value (md5_count m) div 8 mod 64"
proof -
  define c where "c = md5_count m ! 0"
  have "(0x3f :: u32) = mask 6" by (simp add: mask_eq_exp_minus_1)
  then have low: "drop_bit 3 c AND 0x3f = take_bit 6 (drop_bit 3 c)" by (simp only: take_bit_eq_mask)
  have "unat (md5_index m) = unat c div 8 mod 64"
    unfolding md5_index_def c_def[symmetric] low unsigned_take_bit_eq unsigned_drop_bit_eq
    using unat_less_u32[of c] by (simp add: take_bit_eq_mod drop_bit_eq_div)
  also have "\<dots> = (unat c + 8 * (64 * (8388608 * unat (md5_count m ! 1)))) div 8 mod 64"
  proof -
    have "(a + 8 * (64 * y)) div 8 = a div 8 + 64 * y" for a y :: nat by simp
    then show ?thesis by (simp only: mod_mult_self2)
  qed
  finally show ?thesis by (simp add: count_value_def c_def)
qed

section \<open>The invariant of the streaming state\<close>

text \<open>
  \<open>absorbed m bs\<close>: the object has been reset and then fed the bytes \<open>bs\<close>. It is the abstraction
  relation of the class: its abstract state is the byte string fed so far.
\<close>

definition absorbed :: "md5 \<Rightarrow> u8 list \<Rightarrow> bool" where
  "absorbed m bs \<longleftrightarrow> md5_wf m \<and> md5_state m = ref_blocks ref_init bs \<and>
     take (length bs mod 64) (md5_buffer m) = block_rest bs \<and>
     count_value (md5_count m) = 8 * length bs mod 2 ^ 64"

lemma absorbed_index:
  assumes "absorbed m bs"
  shows "unat (md5_index m) = length bs mod 64"
proof -
  have "8 * n mod 2 ^ 64 div 8 mod 64 = n mod 64" for n :: nat
  proof -
    have "8 * n mod 2 ^ 64 = 8 * (n mod 2 ^ 61)"
      using mult_mod_right[of 8 n "2 ^ 61"] by simp
    then have "8 * n mod 2 ^ 64 div 8 = n mod 2 ^ 61" by simp
    moreover have "n mod 2 ^ 61 mod 64 = n mod 64" by (simp add: mod_mod_cancel)
    ultimately show ?thesis by simp
  qed
  with assms show ?thesis by (simp add: md5_index_value absorbed_def)
qed

lemma absorbed_reset:
  assumes "length (md5_buffer m) = 64"
  shows "absorbed (md5_reset m) []"
  using assms by (simp add: absorbed_def md5_reset_def md5_wf_def ref_blocks_short ref_init_def count_value_def)

lemma memcpy_Some: "off + length src \<le> length buf \<Longrightarrow>
    memcpy buf off src = Some (take off buf @ src @ drop (off + length src) buf)"
  by (simp add: memcpy_def)

lemma update_bytes_absorbs:
  assumes "absorbed m bs" and "length input + 63 < 2 ^ 32"
  shows "\<exists>m'. update_bytes m input = Some m' \<and> absorbed m' (bs @ input) \<and>
    \<not> md5_finished m' \<and> md5_digest m' = md5_digest m"
proof -
  define idx where "idx = length bs mod 64"
  have idx: "unat (md5_index m) = idx" "idx < 64"
    using absorbed_index[OF assms(1)] by (simp_all add: idx_def)
  have part: "unat (64 - md5_index m) = 64 - idx"
    using idx by (simp add: unat_sub word_le_nat_alt)
  have wf: "length (md5_state m) = 4" "length (md5_buffer m) = 64"
    and st: "md5_state m = ref_blocks ref_init bs"
    and rest: "take idx (md5_buffer m) = block_rest bs"
    and cnt: "count_value (md5_count m) = 8 * length bs mod 2 ^ 64"
    using assms(1) by (auto simp: absorbed_def md5_wf_def idx_def)
  have cnt': "count_value (update_count (md5_count m) (length input)) = 8 * length (bs @ input) mod 2 ^ 64"
  proof -
    have "count_value (update_count (md5_count m) (length input)) mod 2 ^ 64
        = (8 * length bs mod 2 ^ 64 + 8 * length input) mod 2 ^ 64"
      using update_count_value[of "length input" "md5_count m"] assms(2) cnt by simp
    then show ?thesis using count_value_bound[of "update_count (md5_count m) (length input)"]
      by (simp only: mod_less mod_add_left_eq length_append distrib_left)
  qed
  have len2: "length (update_count (md5_count m) (length input)) = 2"
    by (simp add: update_count_def Let_def)
  show ?thesis
  proof (cases "64 - idx \<le> length input")
    case False
    define buf where "buf = take idx (md5_buffer m) @ input @ drop (idx + length input) (md5_buffer m)"
    have copy: "memcpy (md5_buffer m) idx input = Some buf"
      using False wf idx by (simp add: memcpy_Some buf_def)
    have short: "idx + length input < 64" using False by simp
    have all: "block_rest (bs @ input) = block_rest bs @ input"
      using short by (simp add: block_rest_absorb[of bs input] idx_def)
    have "ref_blocks ref_init (bs @ input) = ref_blocks ref_init bs"
      using short by (subst ref_blocks_absorb) (simp add: ref_blocks_short idx_def)
    moreover have "length (bs @ input) mod 64 = idx + length input"
      using arg_cong[OF all, of length] by (simp add: idx_def)
    moreover have "take (idx + length input) buf = block_rest bs @ input"
    proof -
      have "length (block_rest bs) = idx" by (simp add: idx_def)
      then show ?thesis unfolding buf_def rest by simp
    qed
    moreover have "length buf = 64" using wf idx short by (simp add: buf_def)
    ultimately show ?thesis
      using False copy cnt' len2 wf st
      by (simp add: update_bytes_def Let_def idx part absorbed_def md5_wf_def all)
  next
    case True
    define front where "front = take (64 - idx) input"
    define buf where "buf = block_rest bs @ front"
    have len_buf: "length buf = 64" using True idx by (simp add: buf_def front_def idx_def)
    have copy: "memcpy (md5_buffer m) idx front = Some buf"
      using True wf idx rest by (simp add: memcpy_Some buf_def front_def)
    define st1 where "st1 = ref_compress (md5_state m) buf"
    have st1: "transform (md5_state m) buf = st1" "length st1 = 4"
      using wf by (simp_all add: st1_def transform_eq_ref_compress)
    obtain j where loop: "block_loop input (64 - md5_index m) st1
        = Some (j, ref_blocks st1 (drop (64 - idx) input))"
      and tail: "drop (unat j) input = block_rest (drop (64 - idx) input)"
      using block_loop_whole[OF assms(2), of "64 - md5_index m" st1] True part st1 by auto
    define tl where "tl = block_rest (drop (64 - idx) input)"
    have tl: "length tl < 64" by (simp add: tl_def)
    have whole: "block_rest bs @ input = buf @ drop (64 - idx) input"
      by (simp add: buf_def front_def)
    have state: "ref_blocks ref_init (bs @ input) = ref_blocks st1 (drop (64 - idx) input)"
      unfolding ref_blocks_absorb[of ref_init bs] whole
      using len_buf by (simp add: ref_blocks_step st1_def st)
    have rest': "block_rest (bs @ input) = tl"
      unfolding block_rest_absorb[of bs] whole
      using len_buf by (simp add: block_rest_drop tl_def)
    then have "length (bs @ input) mod 64 = length tl" by (metis length_block_rest)
    moreover have "memcpy buf 0 tl = Some (tl @ drop (length tl) buf)"
      using tl len_buf by (simp add: memcpy_Some)
    ultimately show ?thesis
      using True copy cnt' len2 wf st1 loop tail tl len_buf state rest'
      by (simp add: update_bytes_def Let_def idx part absorbed_def md5_wf_def
          flip: front_def tl_def)
  qed
qed

text \<open>An input that fits in the buffer is copied to its place and nothing else moves.\<close>

lemma update_bytes_buffer:
  assumes "update_bytes m input = Some m'" and "unat (md5_index m) + length input \<le> 64"
    and "length (md5_buffer m) = 64" and "unat (md5_index m) < 64"
  shows "md5_buffer m' = take (unat (md5_index m)) (md5_buffer m) @ input @
    drop (unat (md5_index m) + length input) (md5_buffer m)"
proof (cases "unat (64 - md5_index m) \<le> length input")
  case False
  then show ?thesis using assms by (auto simp: update_bytes_def Let_def memcpy_Some)
next
  case True
  have part: "unat (64 - md5_index m) = 64 - unat (md5_index m)"
    using assms(4) by (simp add: unat_sub word_le_nat_alt)
  with True assms(2) have len: "length input = unat (64 - md5_index m)" by simp
  have stop: "block_loop input (64 - md5_index m) st = Some (64 - md5_index m, st)" for st
  proof -
    have "unat (64 - md5_index m + 63) = (unat (64 - md5_index m) + 63) mod 4294967296"
      by (simp only: unat_word_ariths) simp
    then have "unat (64 - md5_index m + 63) = unat (64 - md5_index m) + 63"
      unfolding part by simp
    then show ?thesis using len by (simp add: block_loop.simps)
  qed
  have copy: "memcpy (md5_buffer m) (unat (md5_index m)) input = Some (take (unat (md5_index m)) (md5_buffer m) @ input)"
    using assms len part by (simp add: memcpy_Some)
  have none: "memcpy buf 0 [] = Some buf" for buf by (simp add: memcpy_def)
  show ?thesis using assms len part
    by (auto simp: update_bytes_def Let_def copy stop none split: if_splits)
qed

section \<open>Finalization\<close>

lemma le_bytes_mod: "le_bytes n (v mod 256 ^ n) = le_bytes n v"
proof -
  have "v mod 256 ^ n div 256 ^ k mod 256 = v div 256 ^ k mod 256" if "k < n" for k
  proof -
    define j where "j = n - Suc k"
    have n: "(256 :: nat) ^ n = 256 ^ k * (256 * 256 ^ j)"
      using that by (simp add: j_def flip: power_add power_Suc)
    have "v mod (256 ^ k * q) div 256 ^ k = v div 256 ^ k mod q" for q :: nat
      by (simp add: mod_mult2_eq)
    then have "v mod 256 ^ n div 256 ^ k = v div 256 ^ k mod (256 * 256 ^ j)" unfolding n by blast
    then show ?thesis by (simp add: mod_mod_cancel)
  qed
  then show ?thesis by (simp add: le_bytes_def)
qed

lemma le_bytes_8_split: "a < 256 ^ 4 \<Longrightarrow> le_bytes 8 (a + 256 ^ 4 * b) = le_bytes 4 a @ le_bytes 4 b"
proof -
  assume a: "a < 256 ^ 4"
  have lists: "[0..<8] = [0, 1, 2, 3, 4, 5, 6, 7]" "[0..<4] = [0, 1, 2, 3]" by code_simp+
  have "(a + 256 ^ 4 * b) div 256 ^ (k + 4) = b div 256 ^ k" for k
  proof -
    have "(a + 256 ^ 4 * b) div 256 ^ (k + 4) = (a + 256 ^ 4 * b) div 256 ^ 4 div 256 ^ k"
      by (simp only: power_add div_mult2_eq mult.commute[of "256 ^ k"])
    then show ?thesis using a by simp
  qed
  from this[of 0] this[of 1] this[of 2] this[of 3]
  have hi: "(a + 256 ^ 4 * b) div 256 ^ 4 = b" "(a + 256 ^ 4 * b) div 256 ^ 5 = b div 256"
    "(a + 256 ^ 4 * b) div 256 ^ 6 = b div 256 ^ 2" "(a + 256 ^ 4 * b) div 256 ^ 7 = b div 256 ^ 3"
    by simp_all
  have "le_bytes 4 (a + 256 ^ 4 * b) = le_bytes 4 a"
    using a by (subst le_bytes_mod[of 4 "a + 256 ^ 4 * b", symmetric]) simp
  then show ?thesis unfolding le_bytes_def lists list.map append.simps list.inject hi by simp
qed

lemma encode_count:
  assumes "length cnt = 2" and "count_value cnt = v mod 2 ^ 64"
  shows "encode cnt = le_bytes 8 v"
proof -
  obtain c0 c1 where cnt: "cnt = [c0, c1]"
    using assms(1) by (auto simp: numeral_2_eq_2 length_Suc_conv)
  have "le_bytes 8 v = le_bytes 8 (v mod 256 ^ 8)" by (rule le_bytes_mod[symmetric])
  also have "v mod 256 ^ 8 = unat c0 + 256 ^ 4 * unat c1"
    using assms(2) by (simp add: cnt count_value_def)
  also have "le_bytes 8 (unat c0 + 256 ^ 4 * unat c1) = le_bytes 4 (unat c0) @ le_bytes 4 (unat c1)"
    using unat_less_u32[of c0] by (intro le_bytes_8_split) simp
  finally show ?thesis by (simp add: cnt encode_eq_le_bytes)
qed

definition pad_length :: "nat \<Rightarrow> nat" where
  "pad_length n = (if n mod 64 < 56 then 56 - n mod 64 else 120 - n mod 64)"

lemma ref_pad_eq: "ref_pad bs = (bs @ take (pad_length (length bs)) PADDING) @ le_bytes 8 (8 * length bs)"
proof -
  define r where "r = length bs mod 64"
  have "r < 64" by (simp add: r_def)
  have zeros: "(119 - r) mod 64 = pad_length (length bs) - 1"
  proof (cases "r < 56")
    case True
    then have "119 - r = 64 + (55 - r)" by simp
    then have "(119 - r) mod 64 = 55 - r" using True by (simp only: mod_add_self1) simp
    then show ?thesis using True unfolding pad_length_def r_def[symmetric] by simp
  next
    case False
    then have "(119 - r) mod 64 = 119 - r" by simp
    then show ?thesis using False unfolding pad_length_def r_def[symmetric] by simp
  qed
  have "0 < pad_length (length bs)" "pad_length (length bs) - 1 \<le> 63"
    using \<open>r < 64\<close> unfolding pad_length_def r_def[symmetric] by auto
  then have "take (pad_length (length bs)) PADDING = 0x80 # replicate (pad_length (length bs) - 1) 0"
    unfolding PADDING_def by (cases "pad_length (length bs)") simp_all
  then show ?thesis unfolding ref_pad_def r_def[symmetric] zeros by simp
qed

lemma final_absorbed:
  assumes "absorbed m bs"
  shows "\<exists>m'. md5_final m = Some m' \<and> md5_digest m' = ref_digest bs \<and> \<not> md5_finished m' \<and>
    md5_state m' = md5_state m \<and> md5_count m' = md5_count m \<and> length (md5_buffer m') = 64 \<and>
    (length bs mod 64 < 56 \<longrightarrow> absorbed m' bs)"
proof -
  define p where "p = take (pad_length (length bs)) PADDING"
  define idx where "idx = length bs mod 64"
  have index: "unat (md5_index m) = idx" "idx < 64"
    using absorbed_index[OF assms] by (simp_all add: idx_def)
  have pad: "unat (if md5_index m < 56 then 56 - md5_index m else 120 - md5_index m) = pad_length (length bs)"
    using index by (simp add: pad_length_def word_less_nat_alt unat_sub word_le_nat_alt flip: idx_def)
  have plen: "length p = pad_length (length bs)" "length p \<le> 64"
    by (auto simp: p_def pad_length_def PADDING_def)
  have wf: "length (md5_count m) = 2" "count_value (md5_count m) = 8 * length bs mod 2 ^ 64"
    using assms by (simp_all add: absorbed_def md5_wf_def)
  have bits: "encode (md5_count m) = le_bytes 8 (8 * length bs)" by (rule encode_count[OF wf])
  obtain m1 where m1: "update_bytes m p = Some m1" "absorbed m1 (bs @ p)"
    using update_bytes_absorbs[OF assms, of p] plen(2) by auto
  obtain m2 where m2: "update_bytes m1 (encode (md5_count m)) = Some m2"
      "absorbed m2 ((bs @ p) @ encode (md5_count m))" "\<not> md5_finished m2"
    using update_bytes_absorbs[OF m1(2), of "encode (md5_count m)"] wf by auto
  have "md5_state m2 = ref_blocks ref_init (ref_pad bs)"
    using m2(2) by (simp add: absorbed_def ref_pad_eq bits p_def)
  then have dig: "encode (md5_state m2) = ref_digest bs"
    by (simp add: encode_eq_le_bytes ref_digest_def)
  have fin: "md5_final m = Some (m2\<lparr>md5_digest := encode (md5_state m2),
      md5_state := md5_state m, md5_count := md5_count m\<rparr>)"
    using m1(1) m2(1) by (simp add: md5_final_def Let_def pad p_def)
  have again: "take idx (md5_buffer m2) = block_rest bs" if "idx < 56"
  proof -
    have lp: "length p = 56 - idx" using that plen(1) by (simp add: pad_length_def flip: idx_def)
    have b1: "md5_buffer m1 = take idx (md5_buffer m) @ p @ drop (idx + length p) (md5_buffer m)"
      using update_bytes_buffer[OF m1(1)] index lp that assms
      by (simp add: absorbed_def md5_wf_def)
    have "(length bs + length p) mod 64 = (idx + length p) mod 64"
      unfolding idx_def by (rule mod_add_left_eq[symmetric])
    then have i1: "unat (md5_index m1) = 56"
      using absorbed_index[OF m1(2)] lp that by simp
    have "md5_buffer m2 = take 56 (md5_buffer m1) @ encode (md5_count m) @
        drop (56 + length (encode (md5_count m))) (md5_buffer m1)"
      using update_bytes_buffer[OF m2(1)] i1 wf m1(2) by (simp add: absorbed_def md5_wf_def)
    then have "take idx (md5_buffer m2) = take idx (md5_buffer m)"
      using b1 that assms by (simp add: absorbed_def md5_wf_def)
    then show ?thesis using assms by (simp add: absorbed_def idx_def)
  qed
  show ?thesis
    using fin dig again m2(2,3) assms
    by (auto simp: absorbed_def md5_wf_def idx_def)
qed

section \<open>Results for whole objects\<close>

lemma absorbed_digest:
  assumes "absorbed m bs" and "\<not> md5_finished m"
  shows "\<exists>m'. digest_bytes m = Some (m', ref_digest bs) \<and> \<not> md5_finished m' \<and>
    length (md5_buffer m') = 64 \<and> (length bs mod 64 < 56 \<longrightarrow> absorbed m' bs)"
proof -
  have "absorbed (m\<lparr>md5_finished := True\<rparr>) bs"
    using assms(1) by (auto simp: absorbed_def md5_wf_def)
  from final_absorbed[OF this] show ?thesis
    using assms(2) by (auto simp: digest_bytes_def)
qed

lemma update_void_absorbs:
  assumes "length (md5_buffer m) = 64" and "length bs + 63 < 2 ^ 32"
  shows "\<exists>m'. update_void m bs = Some m' \<and> absorbed m' bs \<and> \<not> md5_finished m'"
  using update_bytes_absorbs[OF absorbed_reset[OF assms(1)] assms(2)] by (auto simp: update_void_def)

lemma MD5_string_absorbs:
  assumes "length (md5_buffer mem) = 64" and "length s + 63 < 2 ^ 32"
  shows "\<exists>m. MD5_string mem s = Some m \<and> absorbed m (bytes_of s) \<and> \<not> md5_finished m"
  using update_void_absorbs[of "md5_reset mem" "bytes_of s"] assms
  by (simp add: MD5_string_def update_string_def update_void_def) (simp add: md5_reset_def)

lemma md5_hex_eq:
  assumes "length (md5_buffer mem) = 64" and "length s + 63 < 2 ^ 32"
  shows "md5_hex mem s = Some (bytesToHexString (ref_digest (bytes_of s)))"
proof -
  obtain m where m: "MD5_string mem s = Some m" "absorbed m (bytes_of s)" "\<not> md5_finished m"
    using MD5_string_absorbs[OF assms] by blast
  obtain m' where "digest_bytes m = Some (m', ref_digest (bytes_of s))"
    using absorbed_digest[OF m(2,3)] by blast
  with m(1) show ?thesis by (simp add: md5_hex_def md5_toString_def)
qed

lemma length_ref_digest [simp]: "length (ref_digest bs) = 16"
proof -
  have "length (ref_blocks ref_init (ref_pad bs)) = 4" by (simp add: ref_init_def)
  then show ?thesis
    unfolding ref_digest_def by (simp add: length_concat o_def sum_list_triv)
qed

lemma length_bytesToHexString [simp]: "length (bytesToHexString bs) = 2 * length bs"
  by (induction bs rule: bytesToHexString.induct) simp_all

lemma update_bytes_huge:
  assumes "md5_wf m" and "md5_count m ! 0 = 0" and "2 ^ 32 \<le> length input"
  shows "update_bytes m input = None"
proof -
  have "md5_index m = 0" using assms(2) by (simp add: md5_index_def)
  moreover have "64 \<le> length input" using assms(3) by simp
  ultimately show ?thesis using block_loop_huge[OF assms(3)] assms(1)
    by (simp add: update_bytes_def Let_def memcpy_Some md5_wf_def)
qed

section \<open>Byte order round trip\<close>

lemma bit_255: "bit (255 :: int) n \<longleftrightarrow> n < 8"
proof -
  have *: "(255 :: int) = mask 8" by (simp add: mask_eq_exp_minus_1)
  show ?thesis unfolding * by (simp only: bit_mask_iff) auto
qed

lemma word_of_bytes: "ucast (ucast (w AND 0xff) :: u8) OR push_bit 8 (ucast (ucast (drop_bit 8 w AND 0xff) :: u8)) OR
     push_bit 16 (ucast (ucast (drop_bit 16 w AND 0xff) :: u8)) OR push_bit 24 (ucast (ucast (drop_bit 24 w AND 0xff) :: u8)) = w" for w :: u32
proof (rule bit_word_eqI)
  fix n assume "n < LENGTH(32)"
  then consider "n < 8" | "8 \<le> n" "n < 16" | "16 \<le> n" "n < 24" | "24 \<le> n" "n < 32" by fastforce
  then show "bit ((ucast (ucast (w AND 0xff) :: u8) :: u32) OR push_bit 8 (ucast (ucast (drop_bit 8 w AND 0xff) :: u8)) OR
     push_bit 16 (ucast (ucast (drop_bit 16 w AND 0xff) :: u8)) OR push_bit 24 (ucast (ucast (drop_bit 24 w AND 0xff) :: u8))) n = bit w n"
    by cases (auto simp: bit_simps bit_255)
qed

lemma decode_encode: "decode (encode ws) = ws"
  by (induction ws) (simp_all add: word_of_bytes)

lemma bytes_of_word:
  fixes b0 b1 b2 b3 :: u8
  defines "w \<equiv> ucast b0 OR push_bit 8 (ucast b1) OR push_bit 16 (ucast b2) OR push_bit 24 (ucast b3) :: u32"
  shows "ucast (w AND 0xff) = b0" "ucast (drop_bit 8 w AND 0xff) = b1"
    "ucast (drop_bit 16 w AND 0xff) = b2" "ucast (drop_bit 24 w AND 0xff) = b3"
  unfolding w_def
  subgoal by (rule bit_word_eqI) (auto simp: bit_simps bit_255)
  subgoal by (rule bit_word_eqI) (auto simp: bit_simps bit_255 simp del: drop_bit_or dest: bit_imp_le_length)
  subgoal by (rule bit_word_eqI) (auto simp: bit_simps bit_255 simp del: drop_bit_or dest: bit_imp_le_length)
  subgoal by (rule bit_word_eqI) (auto simp: bit_simps bit_255 simp del: drop_bit_or dest: bit_imp_le_length)
  done

lemma encode_word: "encode ((ucast b0 OR push_bit 8 (ucast b1) OR push_bit 16 (ucast b2) OR push_bit 24 (ucast b3)) # ws)
    = b0 # b1 # b2 # b3 # encode ws"
  by (simp only: encode.simps bytes_of_word)

lemma encode_decode: "length bs mod 4 = 0 \<Longrightarrow> encode (decode bs) = bs"
  by (induction bs rule: decode.induct) (simp_all add: encode_word del: encode.simps(2))

section \<open>Files\<close>

text \<open>The last of the chunks \<^verbatim>\<open>update(ifstream&)\<close> reads that is not empty.\<close>

definition last_chunk :: "u8 list \<Rightarrow> u8 list" where
  "last_chunk bs = drop (1024 * ((length bs - 1) div 1024)) bs"
lemma last_chunk_step: "1024 < length bs \<Longrightarrow> last_chunk (drop 1024 bs) = last_chunk bs"
proof -
  assume "1024 < length bs"
  then have "(length bs - 1) div 1024 = Suc ((length bs - 1024 - 1) div 1024)"
    by (subst div_if) (simp add: algebra_simps)
  then show ?thesis by (simp add: last_chunk_def algebra_simps)
qed

lemma update_file_loop_last:
  assumes "length (md5_buffer m) = 64" and "bs \<noteq> []"
  shows "\<exists>m'. update_file_loop m bs = Some m' \<and> absorbed m' (last_chunk bs) \<and> \<not> md5_finished m'"
  using assms
proof (induction "length bs" arbitrary: m bs rule: less_induct)
  case less
  have chunk: "length (take BUFFER_SIZE bs) + 63 < 2 ^ 32" by (simp add: BUFFER_SIZE_def)
  obtain m1 where m1: "update_void m (take BUFFER_SIZE bs) = Some m1" "absorbed m1 (take BUFFER_SIZE bs)"
      "\<not> md5_finished m1"
    using update_void_absorbs[OF less.prems(1) chunk] by blast
  then have len1: "length (md5_buffer m1) = 64" by (simp add: absorbed_def md5_wf_def)
  have loop: "update_file_loop m bs = (if length bs < BUFFER_SIZE then Some m1
      else update_file_loop m1 (drop BUFFER_SIZE bs))"
    using less.prems(2) m1(1) by (subst update_file_loop.simps) (auto simp: Let_def BUFFER_SIZE_def)
  consider (short) "length bs < BUFFER_SIZE" | (exact) "length bs = BUFFER_SIZE" | (more) "BUFFER_SIZE < length bs"
    by linarith
  then show ?case
  proof cases
    case short
    then show ?thesis using loop m1 less.prems(2)
      by (simp add: last_chunk_def BUFFER_SIZE_def)
  next
    case exact
    then have "update_file_loop m1 (drop BUFFER_SIZE bs) = Some m1"
      by (subst update_file_loop.simps) (simp add: BUFFER_SIZE_def)
    then show ?thesis using loop m1 exact by (simp add: last_chunk_def BUFFER_SIZE_def)
  next
    case more
    then have "last_chunk (drop BUFFER_SIZE bs) = last_chunk bs"
      unfolding BUFFER_SIZE_def by (rule last_chunk_step)
    with less.hyps[of "drop BUFFER_SIZE bs" m1] show ?thesis
      using loop more len1 by (simp add: BUFFER_SIZE_def)
  qed
qed

section \<open>A second digest\<close>

text \<open>The buffer after the digest of 56 bytes, and what \<^verbatim>\<open>final\<close> does with such a count.\<close>

definition final_block :: "u8 list" where
  "final_block = replicate 56 0 @ [0xC0, 1, 0, 0, 0, 0, 0, 0]"

lemma update_56:
  assumes "md5_index m = 56" and "length (md5_buffer m) = 64"
  and "8 \<le> length input" and "length input \<le> 71"
  shows "update_bytes m input = Some (m\<lparr>md5_finished := False,
    md5_count := update_count (md5_count m) (length input),
    md5_buffer := drop 8 input @ drop (length input - 8) (take 56 (md5_buffer m) @ take 8 input),
    md5_state := transform (md5_state m) (take 56 (md5_buffer m) @ take 8 input)\<rparr>)"
  using assms
  by (simp add: update_bytes_def Let_def memcpy_def block_loop.simps)

lemma final_56:
  assumes "md5_count m = [448, 0]" and "length (md5_buffer m) = 64"
  shows "md5_final m = Some (m\<lparr>md5_finished := False, md5_buffer := final_block,
    md5_digest := encode (transform (transform (md5_state m) (take 56 (md5_buffer m) @ 0x80 # replicate 7 0)) final_block)\<rparr>)"
proof -
  have pad: "take 64 PADDING = (0x80 # replicate 7 0) @ replicate 56 0" by (simp add: PADDING_def numeral_eq_Suc)
  have i: "md5_index m = 56" using assms by (simp add: md5_index_def)
  have b: "encode [448, 0] = [0xC0, 1, 0, 0, 0, 0, 0, 0]" by simp
  define m1 where "m1 = m\<lparr>md5_finished := False, md5_count := [960, 0],
    md5_buffer := replicate 56 0 @ 0x80 # replicate 7 0,
    md5_state := transform (md5_state m) (take 56 (md5_buffer m) @ 0x80 # replicate 7 0)\<rparr>"
  have u1: "update_bytes m (take 64 PADDING) = Some m1"
    using assms(2) by (simp add: update_56 i pad m1_def update_count_def assms(1) Let_def)
  have i1: "md5_index m1 = 56" by (simp add: md5_index_def m1_def)
  have u2: "update_bytes m1 [0xC0, 1, 0, 0, 0, 0, 0, 0] = Some (m1\<lparr>md5_finished := False, 
    md5_count := [1024, 0], md5_buffer := final_block, md5_state := transform (md5_state m1) final_block\<rparr>)"
    by (subst update_56) (simp_all add: i1, simp_all add: m1_def final_block_def update_count_def)
  show ?thesis
    using assms(1) by (simp add: md5_final_def i Let_def b u1 u2) (simp add: m1_def)
qed
end
