(* ===== verification/Md5_Props.thy ===== *)
theory Md5_Props imports Md5_Spec
begin

text \<open>
  What the MD5 class of \<^verbatim>\<open>common/md5.cc\<close> guarantees, over the model of \<^verbatim>\<open>Md5\<close> and the
  reference of \<^verbatim>\<open>Md5_Spec\<close>: the digest is the MD5 of the string, streaming appends, the block
  transformation and the byte order are the reference ones; and where it does not: a second
  \<^verbatim>\<open>digest()\<close>, a file of more than one chunk, an input of 4 GiB or more.
\<close>

section \<open>An object to start from\<close>

definition blank_md5 :: md5 where
  "blank_md5 = \<lparr>md5_state = [0, 0, 0, 0], md5_count = [0, 0], md5_buffer = replicate 64 0xAA,
     md5_digest = replicate 16 0, md5_finished = True\<rparr>"

section \<open>Evaluated blocks\<close>

lemma abc_block: "transform ref_init ([97, 98, 99, 128] @ replicate 52 0 @ [24, 0, 0, 0, 0, 0, 0, 0])
    = [0x98500190, 0xb04fd23c, 0x7d3f96d6, 0x727fe128]"
  by code_simp

lemma abc_pad: "ref_pad (bytes_of ''abc'') = [97, 98, 99, 128] @ replicate 52 0 @ [24, 0, 0, 0, 0, 0, 0, 0]"
proof -
  have "[0..<8] = [0, 1, 2, 3, 4, 5, 6, 7 :: nat]" by code_simp
  then show ?thesis by (simp add: ref_pad_def le_bytes_def bytes_of_def)
qed

lemma abc_digest: "bytesToHexString (ref_digest (bytes_of ''abc'')) = ''900150983cd24fb0d6963f7d28e17f72''"
proof -
  have "ref_blocks ref_init (ref_pad (bytes_of ''abc'')) = [0x98500190, 0xb04fd23c, 0x7d3f96d6, 0x727fe128]"
    using abc_block
    by (simp add: abc_pad ref_blocks_step ref_blocks_short transform_eq_ref_compress ref_init_def)
  then have "ref_digest (bytes_of ''abc'') = encode [0x98500190, 0xb04fd23c, 0x7d3f96d6, 0x727fe128]"
    unfolding ref_digest_def encode_eq_le_bytes by simp
  then show ?thesis by (simp add: HEX_def)
qed

lemma a56_block: "transform ref_init (replicate 56 97 @ 0x80 # replicate 7 0)
    = [0x3bf7335f, 0x122cdb68, 0xb14e7896, 0xf4455e95]"
  by code_simp

lemma a56_final_block: "transform [0x3bf7335f, 0x122cdb68, 0xb14e7896, 0xf4455e95] final_block
    = [0xc78a0c3b, 0xb028f803, 0x70196c4c, 0x1872d106]"
  by code_simp

lemma zero56_block: "transform ref_init (replicate 56 0 @ 0x80 # replicate 7 0)
    = [0xcb9d194c, 0xef9d89e3, 0xd1a34cef, 0xac24b04a]"
  by code_simp

lemma zero56_final_block: "transform [0xcb9d194c, 0xef9d89e3, 0xd1a34cef, 0xac24b04a] final_block
    = [0x21ddc4e3, 0xd31f17a9, 0xfa8e209d, 0x8378bf09]"
  by code_simp

lemma take_final_block: "take 56 final_block = replicate 56 0" "length final_block = 64"
  by (simp_all add: final_block_def)

section \<open>Properties\<close>

text \<open>C38: \<^verbatim>\<open>MD5(str).toString()\<close> is the lower-case hexadecimal MD5 (the reference digest of
  RFC 1321, padding, little-endian length and 64 table-driven steps per block) of the string, whatever
  the uninitialised members of the new object held, for every string the 32-bit block index can
  address.\<close>

theorem md5_hex_correct:
  assumes "length (md5_buffer mem) = 64" and "length s + 63 < 2 ^ 32"
  shows "md5_hex mem s = Some (bytesToHexString (ref_digest (bytes_of s)))"
  using assms by (rule md5_hex_eq)

lemma md5_hex_correct_witness:
  "md5_hex blank_md5 ''abc'' = Some ''900150983cd24fb0d6963f7d28e17f72''"
proof -
  have "md5_hex blank_md5 ''abc'' = Some (bytesToHexString (ref_digest (bytes_of ''abc'')))"
    by (rule md5_hex_correct) (simp_all add: blank_md5_def)
  with abc_digest show ?thesis by simp
qed

text \<open>C39: one call of \<^verbatim>\<open>update(const byte* , size_t)\<close> on an object that has absorbed \<open>bs\<close> leaves
  it having absorbed \<open>bs @ input\<close>: however the caller cuts the message, the object's state is the one
  of the whole message (a functional refinement with the byte string fed so far as abstract state),
  and the digest computed next is that of the whole message.\<close>

theorem update_refines_append:
  assumes "absorbed m bs" and "length input + 63 < 2 ^ 32"
  shows "\<exists>m' m''. update_bytes m input = Some m' \<and> absorbed m' (bs @ input) \<and>
    digest_bytes m' = Some (m'', ref_digest (bs @ input))"
  using update_bytes_absorbs[OF assms] absorbed_digest by blast

lemma update_refines_append_witness:
  "\<exists>m' m''. update_bytes (md5_reset blank_md5) [1, 2, 3] = Some m' \<and> absorbed m' [1, 2, 3] \<and>
    digest_bytes m' = Some (m'', ref_digest [1, 2, 3])"
proof -
  have "absorbed (md5_reset blank_md5) []"
    by (rule absorbed_reset) (simp add: blank_md5_def)
  from update_refines_append[OF this, of "[1, 2, 3]"] show ?thesis by simp
qed

text \<open> the sixty-four unrolled macro calls of \<^verbatim>\<open>transform\<close>, with their in-place register
  rotation, compute the reference compression function, which takes the step number and reads its
  shift, word index and constant from tables.\<close>

lemma transform_is_compression:
  assumes "length st = 4"
  shows "transform st block = ref_compress st block"
  using assms by (rule transform_eq_ref_compress)

lemma transform_is_compression_witness:
  "transform ref_init (replicate 64 0) = ref_compress ref_init (replicate 64 0)"
  by (rule transform_is_compression) (simp add: ref_init_def)

text \<open>\<^verbatim>\<open>decode\<close> and \<^verbatim>\<open>encode\<close> are inverse: words survive the trip through bytes, and so
  do bytes whose number is a multiple of four.\<close>

lemma encode_decode_roundtrip:
  "decode (encode ws) = ws \<and> (length bs mod 4 = 0 \<longrightarrow> encode (decode bs) = bs)"
  by (simp add: decode_encode encode_decode)

lemma encode_decode_roundtrip_witness:
  "encode (decode [1, 2, 3, 4, 5, 6, 7, 250]) = [1, 2, 3, 4, 5, 6, 7, 250]"
  using encode_decode_roundtrip[of "[]" "[1, 2, 3, 4, 5, 6, 7, 250]"] by simp

text \<open> a file is not hashed as a whole. \<^verbatim>\<open>update(ifstream&)\<close> calls the overload that resets
  the object for every chunk of 1024 bytes, so the digest it leaves is that of the last chunk only.\<close>

lemma file_digest_is_last_chunk:
  assumes "length (md5_buffer mem) = 64"
  shows "\<exists>m m'. MD5_file mem True bs = Some m \<and> digest_bytes m = Some (m', ref_digest (last_chunk bs))"
proof (cases "bs = []")
  case True
  have "MD5_file mem True bs = Some (md5_reset mem)"
    using True by (simp add: MD5_file_def update_file_def update_file_loop.simps BUFFER_SIZE_def)
  moreover have "absorbed (md5_reset mem) (last_chunk bs)" "\<not> md5_finished (md5_reset mem)"
    using True absorbed_reset[OF assms] by (simp_all add: last_chunk_def md5_reset_def)
  ultimately show ?thesis using absorbed_digest by blast
next
  case False
  have "length (md5_buffer (md5_reset mem)) = 64" using assms by (simp add: md5_reset_def)
  from update_file_loop_last[OF this False] absorbed_digest show ?thesis
    unfolding MD5_file_def update_file_def by fastforce
qed

lemma file_digest_is_last_chunk_witness:
  "\<exists>m m'. MD5_file blank_md5 True (replicate 1024 1 @ [2, 3]) = Some m \<and>
     digest_bytes m = Some (m', ref_digest [2, 3])"
  using file_digest_is_last_chunk[of blank_md5 "replicate 1024 1 @ [2, 3]"]
  by (simp add: last_chunk_def blank_md5_def)

text \<open>The digest of a finished object is not stable. \<^verbatim>\<open>final\<close> pads through
  \<^verbatim>\<open>update\<close>, which clears \<^verbatim>\<open>_finished\<close> and overwrites the buffer, so a second
  \<^verbatim>\<open>toString()\<close> runs \<^verbatim>\<open>final\<close> again; for a message of 56 bytes it returns another value.\<close>

lemma second_digest_differs:
  "\<exists>m m1 m2. MD5_string blank_md5 (replicate 56 CHR ''a'') = Some m \<and>
     md5_toString m = Some (m1, ''3b0c8ac703f828b04c6c197006d17218'') \<and>
     md5_toString m1 = Some (m2, ''e3c4dd21a9171fd39d208efa09bf7883'')"
proof -
  define m where "m = (md5_reset blank_md5)\<lparr>md5_count := [448, 0],
    md5_buffer := replicate 56 97 @ replicate 8 0xAA\<rparr>"
  define m1 where "m1 = m\<lparr>md5_finished := False, md5_buffer := final_block,
    md5_digest := encode [0xc78a0c3b, 0xb028f803, 0x70196c4c, 0x1872d106]\<rparr>"
  define m2 where "m2 = m1\<lparr>md5_digest := encode [0x21ddc4e3, 0xd31f17a9, 0xfa8e209d, 0x8378bf09]\<rparr>"
  have st: "md5_state m = ref_init" "md5_state m1 = ref_init"
    by (simp_all add: m_def m1_def md5_reset_def ref_init_def)
  have "MD5_string blank_md5 (replicate 56 CHR ''a'') = Some m"
    by (simp add: MD5_string_def update_string_def update_bytes_def md5_reset_def md5_index_def
        memcpy_def update_count_def m_def blank_md5_def bytes_of_def)
  moreover have "md5_final (m\<lparr>md5_finished := True\<rparr>) = Some m1"
    by (subst final_56) (simp_all add: st, simp_all add: m_def m1_def a56_block a56_final_block)
  moreover have "md5_final (m1\<lparr>md5_finished := True\<rparr>) = Some m2"
    by (subst final_56)
      (simp_all add: st, simp_all add: m_def m1_def m2_def take_final_block zero56_block zero56_final_block)
  ultimately show ?thesis
    by (simp add: md5_toString_def digest_bytes_def m_def m1_def m2_def md5_reset_def HEX_def)
qed

text \<open>Below 56 bytes modulo 64 the digest is stable: asking twice returns the same bytes and
  leaves the object able to absorb more.\<close>

lemma short_tail_digest_stable:
  assumes "absorbed m bs" and "\<not> md5_finished m" and "length bs mod 64 < 56"
  shows "\<exists>m' m''. digest_bytes m = Some (m', ref_digest bs) \<and>
    digest_bytes m' = Some (m'', ref_digest bs) \<and> absorbed m' bs"
  using absorbed_digest assms by blast

lemma short_tail_digest_stable_witness:
  "\<exists>m' m''. digest_bytes (md5_reset blank_md5) = Some (m', ref_digest []) \<and>
    digest_bytes m' = Some (m'', ref_digest []) \<and> absorbed m' []"
proof -
  have "absorbed (md5_reset blank_md5) []"
    by (rule absorbed_reset) (simp add: blank_md5_def)
  from short_tail_digest_stable[OF this] show ?thesis by (simp add: md5_reset_def)
qed

text \<open>C40: a string of 4 GiB or more has no digest: the 32-bit block index wraps below the 64-bit
  length, and the loop never ends (or reads past the input).\<close>

theorem huge_input_never_returns:
  assumes "length (md5_buffer mem) = 64" and "2 ^ 32 \<le> length s"
  shows "MD5_string mem s = None"
  using update_bytes_huge[of "md5_reset (md5_reset mem)" "bytes_of s"] assms
  by (simp add: MD5_string_def update_string_def md5_reset_def md5_wf_def)

lemma huge_input_never_returns_witness:
  "MD5_string blank_md5 (replicate (2 ^ 32) CHR ''a'') = None"
  by (rule huge_input_never_returns) (simp_all only: length_replicate blank_md5_def md5.simps order_refl)

end
