(* ===== verification/Http_Message.thy ===== *)
theory Http_Message imports Prelude
begin

text \<open>
  The data the HTTP server exchanges: \<^verbatim>\<open>struct header\<close>, \<^verbatim>\<open>struct request\<close> and
  \<^verbatim>\<open>struct reply\<close> of \<^verbatim>\<open>server_base/\<close>, the status lines, the stock pages and the
  buffers a reply is written from. The functions of the Boost libraries the HTTP code calls are
  fields of the record \<open>boost\<close>, a parameter of the definitions that use them.
\<close>

section \<open>The Boost functions the code calls\<close>

record boost =
  to_text :: "nat \<Rightarrow> string"                        \<comment> \<open>\<^verbatim>\<open>lexical_cast<string>(size_t)\<close>\<close>
  to_size :: "string \<Rightarrow> nat option"                 \<comment> \<open>\<^verbatim>\<open>lexical_cast<size_t>(string)\<close>, \<open>None\<close> for \<^verbatim>\<open>bad_lexical_cast\<close>\<close>
  trim_copy :: "string \<Rightarrow> string"                   \<comment> \<open>\<^verbatim>\<open>boost::trim\<close>\<close>
  lower_copy :: "string \<Rightarrow> string"                  \<comment> \<open>\<^verbatim>\<open>to_lower_copy\<close>\<close>
  replace_all :: "string \<Rightarrow> string \<Rightarrow> string \<Rightarrow> string" \<comment> \<open>\<^verbatim>\<open>replace_all(s, search, format)\<close>\<close>

text \<open>
  The documented behaviour the code relies on: the text of a \<^verbatim>\<open>size_t\<close> is its decimal numeral
  and reads back, trimming a text without white space at its ends changes nothing and white space
  around it is dropped, and replacing a text that does not occur changes nothing.
\<close>

definition unpadded :: "string \<Rightarrow> bool" where
  "unpadded s \<longleftrightarrow> s = [] \<or> \<not> is_space (hd s) \<and> \<not> is_space (last s)"

definition boost_ok :: "boost \<Rightarrow> bool" where
  "boost_ok B \<longleftrightarrow>
     (\<forall>n < 2 ^ 64. to_text B n = decimal n \<and> to_size B (decimal n) = Some n) \<and>
     (\<forall>s a b. unpadded s \<longrightarrow> (\<forall>c \<in> set (a @ b). is_space c) \<longrightarrow> trim_copy B (a @ s @ b) = s) \<and>
     (\<forall>s pat t. pat \<noteq> [] \<longrightarrow> find_sub pat s = None \<longrightarrow> replace_all B s pat t = s)"

text \<open>An instance of these functions, for evaluation.\<close>

definition trim_spaces :: "string \<Rightarrow> string" where
  "trim_spaces s = rev (dropWhile is_space (rev (dropWhile is_space s)))"

definition read_size :: "string \<Rightarrow> nat option" where
  "read_size s =
     (if s \<noteq> [] \<and> list_all is_decimal s \<and> decimal_value s < 2 ^ 64 then Some (decimal_value s) else None)"

definition lower_char :: "char \<Rightarrow> char" where
  "lower_char c =
     (if 65 \<le> (of_char c :: nat) \<and> (of_char c :: nat) \<le> 90 then char_of (of_char c + 32 :: nat) else c)"

function replace_text :: "string \<Rightarrow> string \<Rightarrow> string \<Rightarrow> string" where
  "replace_text s pat t =
     (if pat = [] then s
      else case s of [] \<Rightarrow> []
         | c # cs \<Rightarrow> if take (length pat) s = pat then t @ replace_text (drop (length pat) s) pat t
                     else c # replace_text cs pat t)"
  by pat_completeness auto
termination
  by (relation "measure (\<lambda>(s, pat, t). length s)") (auto simp: Suc_le_eq)

declare replace_text.simps [simp del]

definition plain_boost :: boost where
  "plain_boost = \<lparr>to_text = decimal, to_size = read_size, trim_copy = trim_spaces,
     lower_copy = map lower_char, replace_all = replace_text\<rparr>"

lemma trim_spaces_padded:
  assumes "unpadded s" and "\<forall>c \<in> set (a @ b). is_space c"
  shows "trim_spaces (a @ s @ b) = s"
proof (cases "s = []")
  case True
  then show ?thesis using assms(2) by (auto simp: trim_spaces_def dropWhile_eq_Nil_conv dest: set_dropWhileD)
next
  case False
  have "dropWhile is_space (a @ s @ b) = s @ b"
    using assms False by (cases s) (auto simp: unpadded_def dropWhile_all_append)
  moreover have "dropWhile is_space (rev b @ rev s) = rev s"
    using assms False by (cases s rule: rev_cases) (auto simp: unpadded_def dropWhile_all_append)
  ultimately show ?thesis by (simp add: trim_spaces_def)
qed

lemma replace_text_absent:
  assumes "pat \<noteq> []" and "find_sub pat s = None"
  shows "replace_text s pat t = s"
  using assms(2)
proof (induction s)
  case Nil
  then show ?case by (simp add: replace_text.simps)
next
  case (Cons c cs)
  then show ?case using assms(1) by (subst replace_text.simps) (simp split: if_splits)
qed

lemma plain_boost_ok [simp]: "boost_ok plain_boost"
  unfolding boost_ok_def plain_boost_def
  using decimal_digits
  by (auto simp: read_size_def list_all_iff trim_spaces_padded[of _ "_" "_", simplified] replace_text_absent)

section \<open>Records\<close>

record header =
  h_name :: string
  h_value :: string

record request =
  req_method :: string
  req_uri :: string
  http_version_major :: int
  http_version_minor :: int
  req_headers :: "header list"
  req_content :: string
  bheader :: bool
  content_length :: nat
  http_req_data :: string
  req_cmd :: string

definition request_Reset :: "request \<Rightarrow> request" where
  "request_Reset r = r\<lparr>req_method := [], req_uri := [], http_version_major := 0, http_version_minor := 0,
     req_headers := [], req_content := [], bheader := False, content_length := 0, http_req_data := [], req_cmd := []\<rparr>"

text \<open>
  The status enumeration. A variable of the type can hold a value that no enumerator has (the
  default branches of the switches are for those): \<open>unnamed\<close>.
\<close>

datatype status_type =
    st_ok | created | accepted | no_content | multiple_choices | moved_permanently
  | moved_temporarily | not_modified | bad_request | unauthorized | forbidden | not_found
  | internal_server_error | not_implemented | bad_gateway | service_unavailable | unnamed int

fun status_value :: "status_type \<Rightarrow> int" where
  "status_value st_ok = 200"
| "status_value created = 201"
| "status_value accepted = 202"
| "status_value no_content = 204"
| "status_value multiple_choices = 300"
| "status_value moved_permanently = 301"
| "status_value moved_temporarily = 302"
| "status_value not_modified = 304"
| "status_value bad_request = 400"
| "status_value unauthorized = 401"
| "status_value forbidden = 403"
| "status_value not_found = 404"
| "status_value internal_server_error = 500"
| "status_value not_implemented = 501"
| "status_value bad_gateway = 502"
| "status_value service_unavailable = 503"
| "status_value (unnamed v) = v"

record reply =
  rep_status :: status_type
  rep_headers :: "header list"
  rep_content :: string

section \<open>Buffers\<close>

definition crlf :: string where "crlf = [CR, LF]"
definition name_value_separator :: string where "name_value_separator = '': ''"

text \<open>\<^verbatim>\<open>status_strings::to_buffer\<close>\<close>

fun status_line :: "status_type \<Rightarrow> string" where
  "status_line st_ok = ''HTTP/1.0 200 OK'' @ crlf"
| "status_line created = ''HTTP/1.0 201 Created'' @ crlf"
| "status_line accepted = ''HTTP/1.0 202 Accepted'' @ crlf"
| "status_line no_content = ''HTTP/1.0 204 No Content'' @ crlf"
| "status_line multiple_choices = ''HTTP/1.0 300 Multiple Choices'' @ crlf"
| "status_line moved_permanently = ''HTTP/1.0 301 Moved Permanently'' @ crlf"
| "status_line moved_temporarily = ''HTTP/1.0 302 Moved Temporarily'' @ crlf"
| "status_line not_modified = ''HTTP/1.0 304 Not Modified'' @ crlf"
| "status_line bad_request = ''HTTP/1.0 400 Bad Request'' @ crlf"
| "status_line unauthorized = ''HTTP/1.0 401 Unauthorized'' @ crlf"
| "status_line forbidden = ''HTTP/1.0 403 Forbidden'' @ crlf"
| "status_line not_found = ''HTTP/1.0 404 Not Found'' @ crlf"
| "status_line internal_server_error = ''HTTP/1.0 500 Internal Server Error'' @ crlf"
| "status_line not_implemented = ''HTTP/1.0 501 Not Implemented'' @ crlf"
| "status_line bad_gateway = ''HTTP/1.0 502 Bad Gateway'' @ crlf"
| "status_line service_unavailable = ''HTTP/1.0 503 Service Unavailable'' @ crlf"
| "status_line (unnamed v) = ''HTTP/1.0 500 Internal Server Error'' @ crlf"

definition to_buffers :: "reply \<Rightarrow> string list" where
  "to_buffers rep =
     status_line (rep_status rep) #
     concat (map (\<lambda>h. [h_name h, name_value_separator, h_value h, crlf]) (rep_headers rep)) @
     [crlf, rep_content rep]"

text \<open>\<^verbatim>\<open>stock_replies::to_string\<close>\<close>

definition stock_page :: "string \<Rightarrow> string \<Rightarrow> string" where
  "stock_page title heading =
     ''<html><head><title>'' @ title @ ''</title></head><body><h1>'' @ heading @ ''</h1></body></html>''"

fun stock_content :: "status_type \<Rightarrow> string" where
  "stock_content st_ok = ''''"
| "stock_content created = stock_page ''Created'' ''201 Created''"
| "stock_content accepted = stock_page ''Accepted'' ''202 Accepted''"
| "stock_content no_content = stock_page ''No Content'' ''204 Content''"
| "stock_content multiple_choices = stock_page ''Multiple Choices'' ''300 Multiple Choices''"
| "stock_content moved_permanently = stock_page ''Moved Permanently'' ''301 Moved Permanently''"
| "stock_content moved_temporarily = stock_page ''Moved Temporarily'' ''302 Moved Temporarily''"
| "stock_content not_modified = stock_page ''Not Modified'' ''304 Not Modified''"
| "stock_content bad_request = stock_page ''Bad Request'' ''400 Bad Request''"
| "stock_content unauthorized = stock_page ''Unauthorized'' ''401 Unauthorized''"
| "stock_content forbidden = stock_page ''Forbidden'' ''403 Forbidden''"
| "stock_content not_found = stock_page ''Not Found'' ''404 Not Found''"
| "stock_content internal_server_error = stock_page ''Internal Server Error'' ''500 Internal Server Error''"
| "stock_content not_implemented = stock_page ''Not Implemented'' ''501 Not Implemented''"
| "stock_content bad_gateway = stock_page ''Bad Gateway'' ''502 Bad Gateway''"
| "stock_content service_unavailable = stock_page ''Service Unavailable'' ''503 Service Unavailable''"
| "stock_content (unnamed v) = stock_page ''Internal Server Error'' ''500 Internal Server Error''"

definition stock_reply :: "boost \<Rightarrow> status_type \<Rightarrow> reply" where
  "stock_reply B st = \<lparr>rep_status = st,
     rep_headers = [\<lparr>h_name = ''Content-Length'', h_value = to_text B (length (stock_content st))\<rparr>,
                 \<lparr>h_name = ''Content-Type'', h_value = ''text/html''\<rparr>],
     rep_content = stock_content st\<rparr>"

section \<open>Reading a reply\<close>

text \<open>
  The reader on the other side of the socket: the status line, then header lines up to the empty
  one, then the body. It says what bytes a client may take for what.
\<close>

definition split_crlf :: "string \<Rightarrow> (string \<times> string) option" where
  "split_crlf s = map_option (\<lambda>k. (take k s, drop (k + 2) s)) (find_sub crlf s)"

lemma split_crlf_shorter: "split_crlf s = Some (l, r) \<Longrightarrow> length r < length s"
  by (auto simp: split_crlf_def crlf_def dest: find_sub_bound)

function read_headers :: "string \<Rightarrow> (header list \<times> string) option" where
  "read_headers s =
     (case split_crlf s of
        None \<Rightarrow> None
      | Some (l, r) \<Rightarrow>
          if l = [] then Some ([], r)
          else case find_sub name_value_separator l of
                 None \<Rightarrow> None
               | Some j \<Rightarrow> map_option (\<lambda>(hs, b). (\<lparr>h_name = take j l, h_value = drop (j + 2) l\<rparr> # hs, b))
                             (read_headers r))"
  by pat_completeness auto
termination
  by (relation "measure length") (auto dest: split_crlf_shorter)

declare read_headers.simps [simp del]

definition read_reply :: "string \<Rightarrow> (string \<times> header list \<times> string) option" where
  "read_reply s = Option.bind (split_crlf s) (\<lambda>(l, r). map_option (Pair l) (read_headers r))"

definition clean_header :: "header \<Rightarrow> bool" where
  "clean_header h \<longleftrightarrow> CR \<notin> set (h_name h) \<and> CR \<notin> set (h_value h) \<and> CHR '':'' \<notin> set (h_name h)"

definition wire :: "reply \<Rightarrow> string" where
  "wire rep = concat (to_buffers rep)"

lemma split_crlf_line [simp]: "CR \<notin> set l \<Longrightarrow> split_crlf (l @ crlf @ r) = Some (l, r)"
  using find_sub_here[of crlf l r] by (simp add: split_crlf_def crlf_def)

lemma read_headers_end [simp]: "read_headers (crlf @ b) = Some ([], b)"
  using split_crlf_line[of "[]" b] by (subst read_headers.simps) simp

lemma read_headers_line [simp]:
  assumes "clean_header h"
  shows "read_headers (h_name h @ name_value_separator @ h_value h @ crlf @ r) =
    map_option (\<lambda>(hs, b). (h # hs, b)) (read_headers r)"
proof -
  define l where "l = h_name h @ name_value_separator @ h_value h"
  have l: "CR \<notin> set l" "l \<noteq> []"
    using assms by (auto simp: l_def clean_header_def name_value_separator_def)
  have "find_sub name_value_separator l = Some (length (h_name h))"
    unfolding l_def using assms
    by (intro find_sub_here) (auto simp: clean_header_def name_value_separator_def)
  then have "read_headers (l @ crlf @ r) = map_option (\<lambda>(hs, b). (h # hs, b)) (read_headers r)"
    using l split_crlf_line[of l r]
    by (subst read_headers.simps) (simp, cases h, simp add: l_def name_value_separator_def)
  then show ?thesis by (simp add: l_def)
qed

lemma read_headers_all:
  assumes "\<forall>h \<in> set hs. clean_header h"
  shows "read_headers (concat (concat (map (\<lambda>h. [h_name h, name_value_separator, h_value h, crlf]) hs)) @ crlf @ b)
    = Some (hs, b)"
  using assms by (induction hs) simp_all

definition status_text :: "status_type \<Rightarrow> string" where
  "status_text st = take (length (status_line st) - 2) (status_line st)"

lemma status_line_text: "status_line st = status_text st @ crlf" "CR \<notin> set (status_text st)"
  by (cases st; simp add: status_text_def crlf_def)+

lemma read_wire:
  assumes "\<forall>h \<in> set (rep_headers rep). clean_header h"
  shows "read_reply (wire rep) = Some (status_text (rep_status rep), rep_headers rep, rep_content rep)"
proof -
  have "split_crlf (wire rep) = Some (status_text (rep_status rep),
      concat (concat (map (\<lambda>h. [h_name h, name_value_separator, h_value h, crlf]) (rep_headers rep))) @ crlf @ rep_content rep)"
    using split_crlf_line[OF status_line_text(2)] by (simp add: wire_def to_buffers_def status_line_text(1))
  then show ?thesis using read_headers_all[OF assms] by (simp add: read_reply_def)
qed

text \<open>A status line tells the status apart from every other enumerator.\<close>

lemma status_line_inject:
  "(\<forall>v. s \<noteq> unnamed v) \<Longrightarrow> (\<forall>v. t \<noteq> unnamed v) \<Longrightarrow> status_line s = status_line t \<Longrightarrow> s = t"
  by (cases s; cases t) (simp_all add: crlf_def)

end
