(* ===== verification/Http_Parser.thy ===== *)
theory Http_Parser imports Http_Message
begin

text \<open>
  The incremental HTTP request parser of \<^verbatim>\<open>server_base/request_parser.h\<close> and
  \<^verbatim>\<open>request_parser.cpp\<close>. \<open>prase_http\<close> is a coroutine: each call of it is one step of a
  state machine whose program counter is the point it yielded at. The receive buffer is a block of
  memory of which the first bytes are the data just read and the rest is what earlier reads left;
  the searches of the code run over all of it. A step without a defined result (a search that runs
  past the block) is \<open>None\<close>.
\<close>

section \<open>Character classes\<close>

text \<open>A \<^verbatim>\<open>char\<close> is signed: passed as an \<^verbatim>\<open>int\<close> it lies between -128 and 127.\<close>

definition char_int :: "char \<Rightarrow> int" where
  "char_int c = sint (of_char c :: u8)"

definition is_char :: "int \<Rightarrow> bool" where
  "is_char c \<longleftrightarrow> c \<ge> 0 \<and> c \<le> 127"

definition is_ctl :: "int \<Rightarrow> bool" where
  "is_ctl c \<longleftrightarrow> (c \<ge> 0 \<and> c \<le> 31) \<or> c = 127"

definition is_tspecial :: "int \<Rightarrow> bool" where
  "is_tspecial c \<longleftrightarrow>
     c \<in> set (map char_int [CHR ''('', CHR '')'', CHR ''<'', CHR ''>'', CHR ''@'',
       CHR '','', CHR '';'', CHR '':'', CHR 0x5C, CHR 0x22,
       CHR ''/'', CHR ''['', CHR '']'', CHR ''?'', CHR ''='',
       CHR 0x7B, CHR 0x7D, CHR '' '', TAB])"

definition is_digit :: "int \<Rightarrow> bool" where
  "is_digit c \<longleftrightarrow> c \<ge> char_int (CHR ''0'') \<and> c \<le> char_int (CHR ''9'')"

text \<open>\<^verbatim>\<open>std::tolower\<close> in the C locale is \<open>lower_char\<close>.\<close>

definition tolower_compare :: "char \<Rightarrow> char \<Rightarrow> bool" where
  "tolower_compare a b \<longleftrightarrow> lower_char a = lower_char b"

definition headers_equal :: "string \<Rightarrow> string \<Rightarrow> bool" where
  "headers_equal a b \<longleftrightarrow> (if length a \<noteq> length b then False else list_all2 tolower_compare a b)"

definition is_white_space :: "char \<Rightarrow> bool" where
  "is_white_space c \<longleftrightarrow> c = SP \<or> c = LF \<or> c = TAB \<or> c = CR"

section \<open>Lines\<close>

text \<open>A \<^verbatim>\<open>size_t\<close> cast to \<^verbatim>\<open>int\<close>.\<close>

definition to_int32 :: "nat \<Rightarrow> int" where
  "to_int32 n = sint (word_of_nat n :: u32)"

definition content_length_name :: string where "content_length_name = ''Content-Length''"
definition http_end :: string where "http_end = crlf @ crlf"

text \<open>
  \<^verbatim>\<open>getline_from_buf2\<close> from an offset of the block: the next line with its line end, and the
  offset after it; \<^verbatim>\<open>Absent\<close> is the result -1.
\<close>

datatype getline_result = Line string nat | No_line | Line_overrun

definition getline_from_buf2 :: "string \<Rightarrow> nat \<Rightarrow> getline_result" where
  "getline_from_buf2 src offset =
     (case strstr (drop offset src) crlf of
        Overrun \<Rightarrow> Line_overrun
      | Absent \<Rightarrow> No_line
      | Found k \<Rightarrow> (let n = k + 2 in Line (take n (drop offset src)) (offset + n)))"

text \<open>
  \<^verbatim>\<open>getline_from_buf\<close> hands out at most \<^verbatim>\<open>size\<close> characters, so a long line comes in
  pieces; the piece holds no NUL, so \<^verbatim>\<open>strncpy\<close> copies all of it.
\<close>

definition getline_from_buf :: "string \<Rightarrow> nat \<Rightarrow> nat \<Rightarrow> getline_result" where
  "getline_from_buf src sz offset =
     (case strstr (drop offset src) crlf of
        Overrun \<Rightarrow> Line_overrun
      | Absent \<Rightarrow> No_line
      | Found k \<Rightarrow>
          (let n = k + 2; n' = (if n < sz then n else sz)
           in Line (take n' (drop offset src)) (offset + n')))"

text \<open>\<^verbatim>\<open>ncmp\<close>; a null pointer is \<open>None\<close>.\<close>

function ncmp_loop :: "string \<Rightarrow> string \<Rightarrow> nat \<Rightarrow> nat \<Rightarrow> bool" where
  "ncmp_loop s1 s2 bytes it =
     (if char_at s1 it \<noteq> NUL \<and> it < bytes
      then if char_at s1 it \<noteq> char_at s2 it then False else ncmp_loop s1 s2 bytes (it + 1)
      else it = bytes)"
  by pat_completeness auto
termination
  by (relation "measure (\<lambda>(s1, s2, bytes, it). bytes - it)") auto

declare ncmp_loop.simps [simp del]

definition ncmp :: "string option \<Rightarrow> string option \<Rightarrow> int \<Rightarrow> bool" where
  "ncmp string1 string2 bytes =
     (if bytes \<le> 0 then False
      else case (string1, string2) of
             (None, None) \<Rightarrow> True
           | (Some s1, Some s2) \<Rightarrow> ncmp_loop s1 s2 (nat bytes) 0
           | _ \<Rightarrow> False)"

text \<open>
  \<^verbatim>\<open>trim\<close> works in place on a C string: the text left in \<^verbatim>\<open>chunk\<close> and the number of
  characters trimmed. A null \<^verbatim>\<open>chunk\<close> is left alone, so it has no counterpart here.
\<close>

definition trim_chunk :: "string \<Rightarrow> string \<times> nat" where
  "trim_chunk chunk =
     (if length chunk = 0 then ([], 0)
      else
        let iterator = length (takeWhile is_white_space chunk)
        in if iterator = length chunk then ([], iterator)
           else
             let end = length chunk - 1 - length (takeWhile is_white_space (rev chunk));
                 total = length chunk - 1 - end + iterator
             in (take (end - iterator + 1) (drop iterator chunk), total))"

section \<open>The request line and the header lines\<close>

definition TrimUri :: "boost \<Rightarrow> string \<Rightarrow> string" where
  "TrimUri B u =
     (let u1 = replace_all B u ''http://'' '''';
          u2 = replace_all B u1 ''HTTP://'' '''';
          u3 = (case find_sub ''?'' u2 of Some found \<Rightarrow> take found u2 | None \<Rightarrow> u2)
      in case find_sub ''/'' u3 of
           Some found \<Rightarrow> if found > 0 then take found u3 else u3
         | None \<Rightarrow> u3)"

definition get_http_uri :: "boost \<Rightarrow> request \<Rightarrow> string \<Rightarrow> bool \<times> request" where
  "get_http_uri B req line =
     (let it = scan (\<lambda>c. c \<noteq> SP) line 0;
          req1 = req\<lparr>req_method := req_method req @ take it line\<rparr>;
          it = scan (\<lambda>c. c = SP) line it;
          it = (if char_at line it = CHR ''/'' then it + 1 else it);
          it2 = scan (\<lambda>c. c \<noteq> SP) line (it + 1)
      in if it2 = length line then (False, req1)
         else (True, req1\<lparr>req_uri := TrimUri B (take (it2 - it) (drop it (line @ [NUL])))\<rparr>))"

definition get_mime_header :: "boost \<Rightarrow> request \<Rightarrow> string \<Rightarrow> bool \<times> request" where
  "get_mime_header B req line =
     (let it = scan (\<lambda>c. c \<noteq> NUL \<and> c \<noteq> CHR '':'') line 0
      in if char_at line it \<noteq> CHR '':'' then (False, req)
         else
           let nm = trim_copy B (take it line);
               it2 = scan (\<lambda>c. c \<noteq> NUL \<and> c \<noteq> LF) line (it + 1)
           in if char_at line it2 \<noteq> LF then (False, req)
              else
                let v = trim_copy B (take (it2 - it) (drop (it + 1) line));
                    req1 = req\<lparr>req_headers := req_headers req @ [\<lparr>h_name = nm, h_value = v\<rparr>]\<rparr>
                in (True, if nm = ''User-cmd'' then req1\<lparr>req_cmd := v\<rparr> else req1))"

text \<open>
  The loop over the lines of the head, from an offset of the block \<open>head\<close> whose length the code
  believes to be \<open>len\<close>. \<open>None\<close>: a search ran past the block. The boolean is False when the loop
  returned from the function.
\<close>

function header_lines :: "boost \<Rightarrow> string \<Rightarrow> nat \<Rightarrow> nat \<Rightarrow> request \<Rightarrow> (bool \<times> request) option" where
  "header_lines B head len off req =
     (case getline_from_buf2 head off of
        Line_overrun \<Rightarrow> None
      | No_line \<Rightarrow> Some (True, req)
      | Line linebuf off' \<Rightarrow>
          if int off' < to_int32 len then
            if length linebuf = 2 \<and> ncmp (Some linebuf) (Some crlf) 2 then Some (True, req)
            else if ncmp (Some linebuf) (Some ''POST '') 5 then
              (case get_http_uri B req linebuf of
                 (False, req') \<Rightarrow> Some (False, req')
               | (True, req') \<Rightarrow> header_lines B head len off' req')
            else if req_uri req = [] then Some (False, req)
            else
              (case get_mime_header B req linebuf of
                 (False, req') \<Rightarrow> Some (False, req')
               | (True, req') \<Rightarrow> header_lines B head len off' req')
          else Some (True, req))"
  by pat_completeness auto

lemma getline_offset: "getline_from_buf2 src off = Line l off' \<Longrightarrow>
    off < off' \<and> off' \<le> length src \<and> l = take (off' - off) (drop off src)"
proof -
  assume a: "getline_from_buf2 src off = Line l off'"
  then obtain k where k: "strstr (drop off src) crlf = Found k" "off' = off + (k + 2)"
      "l = take (k + 2) (drop off src)"
    by (auto simp: getline_from_buf2_def Let_def split: strstr_result.splits)
  then have "find_sub crlf (cstr (drop off src)) = Some k"
    by (simp add: strstr_def split: option.splits if_splits)
  from find_sub_bound[OF this] have "k + 2 \<le> length (cstr (drop off src))" by (simp add: crlf_def)
  also have "\<dots> \<le> length (drop off src)" unfolding cstr_def by (rule length_takeWhile_le)
  finally show ?thesis using k by auto
qed

termination header_lines
  by (relation "measure (\<lambda>(B, head, len, off, req). length head - off)")
    (auto dest: getline_offset)

declare header_lines.simps [simp del]

text \<open>The loop that looks for \<^verbatim>\<open>Content-Length\<close>: False when the value is not a number.\<close>

fun find_content_length :: "boost \<Rightarrow> header list \<Rightarrow> request \<Rightarrow> bool \<times> request" where
  "find_content_length B [] req = (True, req)"
| "find_content_length B (h # hs) req =
     (if headers_equal (h_name h) content_length_name then
        (case to_size B (h_value h) of
           Some n \<Rightarrow> find_content_length B hs (req\<lparr>content_length := n, bheader := True\<rparr>)
         | None \<Rightarrow> (False, req))
      else find_content_length B hs req)"

section \<open>The coroutine\<close>

datatype tribool = Tri_true | Tri_false | Indeterminate

text \<open>
  \<open>P_start\<close>: not entered; \<open>P_header\<close>: suspended in the loop that collects the head; \<open>P_body\<close>:
  suspended while receiving the content; \<open>P_done\<close>: returned or left by an exception.
\<close>

datatype parser_pc = P_start | P_header | P_body | P_done

record parser =
  pc :: parser_pc
  m_httpheader :: string

definition new_request_parser :: parser where
  "new_request_parser = \<lparr>pc = P_start, m_httpheader = []\<rparr>"

type_synonym parse_result = "(tribool \<times> parser \<times> request) option"

text \<open>
  From the parsed head to the first part of the content. \<open>pend\<close> is the offset after the empty line.
  When it lies beyond \<open>len\<close>, \<^verbatim>\<open>len - (m_pend - m_phead)\<close> wraps to a size no string can have:
  \<^verbatim>\<open>append\<close> throws, and \<^verbatim>\<open>parse\<close> returns a default \<^verbatim>\<open>tribool\<close>, false.
\<close>

definition parse_head :: "boost \<Rightarrow> parser \<Rightarrow> string \<Rightarrow> nat \<Rightarrow> nat \<Rightarrow> request \<Rightarrow> parse_result" where
  "parse_head B p head len pend req =
     (let fail = (\<lambda>req. Some (Tri_false, p\<lparr>pc := P_done\<rparr>, req))
      in case header_lines B head len 0 req of
           None \<Rightarrow> None
         | Some (False, req1) \<Rightarrow> fail req1
         | Some (True, req1) \<Rightarrow>
             (case find_content_length B (req_headers req1) req1 of
                (False, req2) \<Rightarrow> fail req2
              | (True, req2) \<Rightarrow>
                  if \<not> bheader req2 then fail req2
                  else if pend > len then fail req2
                  else
                    let req3 = req2\<lparr>req_content := req_content req2 @ take (len - pend) (drop pend head)\<rparr>
                    in if length (req_content req3) \<ge> content_length req3
                       then Some (Tri_true, p\<lparr>pc := P_done\<rparr>, req3)
                       else Some (Indeterminate, p\<lparr>pc := P_body\<rparr>, req3)))"

definition collect_head :: "boost \<Rightarrow> parser \<Rightarrow> string \<Rightarrow> nat \<Rightarrow> request \<Rightarrow> parse_result" where
  "collect_head B p mem len req =
     (let p1 = p\<lparr>m_httpheader := m_httpheader p @ take len mem\<rparr>;
          head = m_httpheader p1 @ [NUL]
      in case strstr head http_end of
           Overrun \<Rightarrow> None
         | Found k \<Rightarrow> parse_head B p1 head (length (m_httpheader p1)) (k + 4) req
         | Absent \<Rightarrow> Some (Indeterminate, p1\<lparr>pc := P_header\<rparr>, req))"

text \<open>The second \<^verbatim>\<open>while (1)\<close>: one turn of it per call.\<close>

definition receive_content :: "parser \<Rightarrow> string \<Rightarrow> nat \<Rightarrow> request \<Rightarrow> parse_result" where
  "receive_content p mem len req =
     (let missing = content_length req - length (req_content req);
          part = (if len < missing then take len mem else take missing mem);
          req1 = req\<lparr>req_content := req_content req @ part\<rparr>
      in if length (req_content req1) \<ge> content_length req1
         then Some (Tri_true, p\<lparr>pc := P_done\<rparr>, req1)
         else Some (Indeterminate, p, req1))"

fun prase_http :: "boost \<Rightarrow> parser \<Rightarrow> request \<Rightarrow> string \<Rightarrow> nat \<Rightarrow> parse_result" where
  "prase_http B p req mem len =
     (case pc p of
        P_start \<Rightarrow>
          (case strstr mem http_end of
             Overrun \<Rightarrow> None
           | Found k \<Rightarrow> if int k < to_int32 len then parse_head B p mem len (k + 4) req
                        else collect_head B p mem len req
           | Absent \<Rightarrow> collect_head B p mem len req)
      | P_header \<Rightarrow> collect_head B p mem len req
      | P_body \<Rightarrow> receive_content p mem len req
      | P_done \<Rightarrow> Some (Tri_true, p, req))"

declare prase_http.simps [simp del]

text \<open>\<^verbatim>\<open>parse\<close>: \<open>mem\<close> is the receive buffer, \<open>len\<close> the number of bytes just read into it.\<close>

definition parse :: "boost \<Rightarrow> parser \<Rightarrow> request \<Rightarrow> string \<Rightarrow> nat \<Rightarrow> parse_result" where
  "parse B p req mem len =
     prase_http B p (req\<lparr>http_req_data := http_req_data req @ take len mem\<rparr>) mem len"

end
