(* ===== verification/Http_Handler.thy ===== *)
theory Http_Handler imports Http_Message
begin

text \<open>
  The request dispatcher of \<^verbatim>\<open>server_base/handler.h\<close> and \<^verbatim>\<open>handler.cc\<close>: decoding of the
  path, look-up in the map of registered functions, and the reply. A registered function may act on
  the rest of the system; that state is the type variable \<^typ>\<open>'w\<close>. The calls of the monitoring
  library (\<^verbatim>\<open>InfoCollector\<close>) only report and have no counterpart.
\<close>

section \<open>Decoding a path\<close>

definition hex_digit :: "char \<Rightarrow> nat option" where
  "hex_digit c =
     (let n = of_char c :: nat
      in if 48 \<le> n \<and> n \<le> 57 then Some (n - 48)
         else if 97 \<le> n \<and> n \<le> 102 then Some (n - 87)
         else if 65 \<le> n \<and> n \<le> 70 then Some (n - 55) else None)"

text \<open>
  \<^verbatim>\<open>is >> std::hex >> value\<close> on a short text: white space is skipped, then a sign, then a
  prefix \<^verbatim>\<open>0x\<close> are accepted, then as many hexadecimal digits as there are are read; there
  must be one. What follows them stays in the stream.
\<close>

definition hex_number :: "string \<Rightarrow> int option" where
  "hex_number s =
     (let s1 = (if take 2 s = ''0x'' \<or> take 2 s = ''0X'' then drop 2 s else s);
          ds = takeWhile (\<lambda>c. hex_digit c \<noteq> None) s1
      in if ds = [] then None
         else Some (foldl (\<lambda>v c. v * 16 + int (the (hex_digit c))) 0 ds))"

definition read_hex :: "string \<Rightarrow> int option" where
  "read_hex s =
     (case dropWhile is_space s of
        [] \<Rightarrow> None
      | c # cs \<Rightarrow>
          if c = CHR ''-'' then map_option uminus (hex_number cs)
          else if c = CHR ''+'' then hex_number cs
          else hex_number (c # cs))"

text \<open>\<^verbatim>\<open>static_cast<char>(value)\<close>\<close>

definition char_of_int :: "int \<Rightarrow> char" where
  "char_of_int v = char_of (nat (v mod 256))"

text \<open>\<^verbatim>\<open>UrlDecode\<close>; \<open>None\<close> is the result false.\<close>

fun UrlDecode :: "string \<Rightarrow> string option" where
  "UrlDecode [] = Some []"
| "UrlDecode (c # cs) =
     (if c = CHR ''%'' then
        (case cs of
           a # b # rest \<Rightarrow>
             (case read_hex [a, b] of
                Some v \<Rightarrow> map_option ((#) (char_of_int v)) (UrlDecode rest)
              | None \<Rightarrow> None)
         | _ \<Rightarrow> None)
      else if c = CHR ''+'' then map_option ((#) SP) (UrlDecode cs)
      else map_option ((#) c) (UrlDecode cs))"

section \<open>The handler\<close>

type_synonym 'w handle_function = "string \<Rightarrow> 'w \<Rightarrow> string \<times> 'w"
type_synonym 'w HandleMap = "string \<rightharpoonup> 'w handle_function"

record 'w handler =
  m_handle_map :: "'w HandleMap"
  m_doc_root :: string

definition new_Handler :: "string \<Rightarrow> 'w handler" where
  "new_Handler doc_root = \<lparr>m_handle_map = Map.empty, m_doc_root = doc_root\<rparr>"

text \<open>\<^verbatim>\<open>headers.resize(2)\<close> and four assignments leave exactly these two headers.\<close>

definition BuidlReply :: "boost \<Rightarrow> string \<Rightarrow> reply \<Rightarrow> reply" where
  "BuidlReply B reply_msg rep = rep\<lparr>rep_status := st_ok, rep_content := reply_msg,
     rep_headers := [\<lparr>h_name = ''Content-Length'', h_value = to_text B (length reply_msg)\<rparr>,
                     \<lparr>h_name = ''Content-Type'', h_value = ''text/plain''\<rparr>]\<rparr>"

text \<open>The entry found and the key it was found under.\<close>

definition find_handle :: "'w handler \<Rightarrow> string \<Rightarrow> request \<Rightarrow> (string \<times> 'w handle_function) option" where
  "find_handle H req_path req =
     (case m_handle_map H req_path of
        Some f \<Rightarrow> Some (req_path, f)
      | None \<Rightarrow>
          if req_cmd req \<noteq> [] then map_option (Pair (req_cmd req)) (m_handle_map H (req_cmd req)) else None)"

definition ProccessReqFromHandle :: "boost \<Rightarrow> 'w handler \<Rightarrow> string \<Rightarrow> request \<Rightarrow> reply \<Rightarrow> 'w \<Rightarrow> reply \<times> 'w" where
  "ProccessReqFromHandle B H req_path req rep w =
     (case find_handle H req_path req of
        None \<Rightarrow> (rep\<lparr>rep_status := not_found\<rparr>, w)
      | Some (key, f) \<Rightarrow>
          (let (out_data, w') = f (req_content req) w
           in if key = ''echo'' \<or> key = ''/echo'' then (BuidlReply B (http_req_data req) rep, w')
              else (BuidlReply B out_data rep, w')))"

definition HandleRequest :: "boost \<Rightarrow> 'w handler \<Rightarrow> request \<Rightarrow> reply \<Rightarrow> 'w \<Rightarrow> reply \<times> 'w" where
  "HandleRequest B H req rep w =
     (case UrlDecode (req_uri req) of
        None \<Rightarrow> (stock_reply B bad_request, w)
      | Some request_path \<Rightarrow> ProccessReqFromHandle B H request_path req rep w)"

text \<open>\<^verbatim>\<open>REGISTE_HANDLE(fun_name)\<close>: the function under its name and under the name after a slash.\<close>

definition REGISTE_HANDLE :: "string \<Rightarrow> 'w handle_function \<Rightarrow> 'w handler \<Rightarrow> 'w handler" where
  "REGISTE_HANDLE fun_name f H =
     H\<lparr>m_handle_map := (m_handle_map H)(fun_name \<mapsto> f, (CHR ''/'' # fun_name) \<mapsto> f)\<rparr>"

section \<open>The registry as an interface\<close>

text \<open>
  What the request handler asks of the map: a function registered under a name is found under it and
  under the name after a slash, and no other entry moves.
\<close>

definition slashed :: "string \<Rightarrow> string" where
  "slashed n = CHR ''/'' # n"

definition unslashed :: "string \<Rightarrow> string" where
  "unslashed k = (case k of c # cs \<Rightarrow> if c = CHR ''/'' then cs else k | [] \<Rightarrow> [])"

definition plain_name :: "string \<Rightarrow> bool" where
  "plain_name n \<longleftrightarrow> n \<noteq> [] \<and> hd n \<noteq> CHR ''/''"

lemma unslashed_iff: "plain_name n \<Longrightarrow> unslashed k = n \<longleftrightarrow> k = n \<or> k = slashed n"
  by (auto simp: unslashed_def plain_name_def slashed_def split: list.splits)

locale handle_registry =
  fixes register :: "string \<Rightarrow> 'f \<Rightarrow> 'h \<Rightarrow> 'h" and lookup :: "'h \<Rightarrow> string \<Rightarrow> 'f option"
  assumes lookup_register: "lookup (register n f h) k = (if k = n \<or> k = slashed n then Some f else lookup h k)"
begin

lemma lookup_register_all:
  assumes "distinct (map fst fs)" and "\<forall>n \<in> set (map fst fs). plain_name n"
  shows "lookup (fold (\<lambda>(n, f). register n f) fs h) k =
    (case map_of fs (unslashed k) of Some f \<Rightarrow> Some f | None \<Rightarrow> lookup h k)"
  using assms
proof (induction fs arbitrary: h)
  case (Cons nf fs)
  obtain n f where nf: "nf = (n, f)" by (cases nf)
  have "map_of fs n = None" using Cons.prems(1) by (simp add: nf map_of_eq_None_iff)
  then show ?case using Cons unslashed_iff[of n k] by (auto simp: nf lookup_register split: option.splits)
qed simp

end

interpretation handler_registry: handle_registry REGISTE_HANDLE m_handle_map
  by unfold_locales (simp add: REGISTE_HANDLE_def slashed_def)

section \<open>A path as a client may encode it\<close>

definition hex_char :: "nat \<Rightarrow> char" where
  "hex_char d = (if d < 10 then char_of (48 + d) else char_of (55 + d))"

definition percent :: "char \<Rightarrow> string" where
  "percent c = CHR ''%'' # hex_char (of_char c div 16) # hex_char (of_char c mod 16) # []"

definition url_encode :: "(char \<Rightarrow> bool) \<Rightarrow> string \<Rightarrow> string" where
  "url_encode plain s = concat (map (\<lambda>c. if plain c then [c] else percent c) s)"

lemma hex_digit_char [simp]: "d < 16 \<Longrightarrow> hex_digit (hex_char d) = Some d"
  by (auto simp: hex_digit_def hex_char_def)

lemma hex_char_plain:
  assumes "d < 16"
  shows "\<not> is_space (hex_char d)" "hex_char d \<noteq> CHR ''-''" "hex_char d \<noteq> CHR ''+''" "hex_char d \<noteq> CHR ''x''" "hex_char d \<noteq> CHR ''X''"
proof -
  have "d \<in> {0, 1, 2, 3, 4, 5, 6, 7, 8, 9, 10, 11, 12, 13, 14, 15}"
    using assms by (simp only: insert_iff empty_iff) arith
  then show "\<not> is_space (hex_char d)" "hex_char d \<noteq> CHR ''-''" "hex_char d \<noteq> CHR ''+''" "hex_char d \<noteq> CHR ''x''" "hex_char d \<noteq> CHR ''X''"
    by (elim insertE; simp add: hex_char_def is_space_def char_of_def)+
qed

lemma read_hex_byte:
  assumes "a < 16" and "b < 16"
  shows "read_hex [hex_char a, hex_char b] = Some (int (16 * a + b))"
  using hex_char_plain[OF assms(1)] hex_char_plain[OF assms(2)] assms
  by (simp add: read_hex_def hex_number_def Let_def)

lemma char_of_int_of_char: "char_of_int (int (of_char c)) = c"
proof -
  have "(of_char c :: nat) < 256" using of_char_mod_256[of c, where ?'a = nat] by (metis mod_less_divisor zero_less_numeral)
  then have "nat (int (of_char c) mod 256) = (of_char c :: nat)" by (simp add: nat_mod_distrib)
  then show ?thesis by (simp add: char_of_int_def)
qed

lemma UrlDecode_percent:
  "UrlDecode (percent c @ s) = map_option ((#) c) (UrlDecode s)"
proof -
  have lt: "(of_char c :: nat) < 256" using of_char_mod_256[of c, where ?'a = nat] by (metis mod_less_divisor zero_less_numeral)
  have "16 * (of_char c div 16) + of_char c mod 16 = (of_char c :: nat)" by simp
  moreover have "of_char c div 16 < (16 :: nat)" "of_char c mod 16 < (16 :: nat)" using lt by (simp_all add: less_mult_imp_div_less)
  ultimately have "read_hex [hex_char (of_char c div 16), hex_char (of_char c mod 16)] = Some (int (of_char c))"
    using read_hex_byte by metis
  then show ?thesis by (simp add: percent_def char_of_int_of_char)
qed

lemma UrlDecode_encode:
  assumes "\<not> plain (CHR ''%'')" and "\<not> plain (CHR ''+'')"
  shows "UrlDecode (url_encode plain s) = Some s"
proof (induction s)
  case (Cons c s)
  then show ?case
    using assms UrlDecode_percent[of c "url_encode plain s"] by (auto simp: url_encode_def)
qed (simp add: url_encode_def)

lemma UrlDecode_length: "UrlDecode s = Some t \<Longrightarrow> length t \<le> length s"
  by (induction s arbitrary: t rule: UrlDecode.induct)
    (force split: if_splits list.splits option.splits)+

end
