(* ===== verification/Connection.thy ===== *)
theory Connection imports Http_Parser Http_Handler "HOL-Library.Multiset"
begin

text \<open>
  The connections of \<^verbatim>\<open>server_base/connection.cc\<close>, their manager of
  \<^verbatim>\<open>connection_manager.cc\<close> and the accept loop of \<^verbatim>\<open>server_base.cc\<close>. The state holds
  every connection object, the set the manager keeps, and the asynchronous operations that have been
  started and whose handler has not run yet. A handler runs as one step: the handlers of a connection
  are serialized by its strand, and the operations of the manager by its mutex. A completion carries
  what the outside decided (an error, the bytes read, the time); a step without a defined result is
  \<open>None\<close>.
\<close>

section \<open>State\<close>

type_synonym conn_id = nat

definition s_http_recv_buf :: nat where "s_http_recv_buf = 4096"

record conn =
  m_is_long_connection :: bool
  m_buffer :: string
  m_request :: request
  m_request_parser :: parser
  m_reply :: reply
  m_active_time :: int
  socket_open :: bool

text \<open>The operations handed to the I/O service; a write carries the bytes of its buffers.\<close>

datatype io_op = Op_accept | Op_read conn_id | Op_write conn_id string | Op_close conn_id

record 'w server =
  conns :: "conn_id \<rightharpoonup> conn"
  m_connections :: "conn_id set"
  pending :: "io_op multiset"
  acceptor_open :: bool
  m_new_connection :: conn_id
  world :: 'w

definition start_op :: "io_op \<Rightarrow> 'w server \<Rightarrow> 'w server" where
  "start_op op s = s\<lparr>pending := add_mset op (pending s)\<rparr>"

definition finish_op :: "io_op \<Rightarrow> 'w server \<Rightarrow> 'w server" where
  "finish_op op s = s\<lparr>pending := pending s - {#op#}\<rparr>"

definition put_conn :: "conn_id \<Rightarrow> conn \<Rightarrow> 'w server \<Rightarrow> 'w server" where
  "put_conn c k s = s\<lparr>conns := (conns s)(c \<mapsto> k)\<rparr>"

section \<open>Connection\<close>

text \<open>
  The constructor. The members it does not initialize (the buffer, the flags of the request, the
  status of the reply) hold what the memory held: \<open>mem\<close>.
\<close>

definition new_Connection :: "conn \<Rightarrow> int \<Rightarrow> conn" where
  "new_Connection mem now = mem\<lparr>m_is_long_connection := False, m_request_parser := new_request_parser,
     m_active_time := now, socket_open := True,
     m_request := (m_request mem)\<lparr>req_method := [], req_uri := [], req_headers := [], req_content := [],
       http_req_data := [], req_cmd := []\<rparr>,
     m_reply := (m_reply mem)\<lparr>rep_headers := [], rep_content := []\<rparr>\<rparr>"

text \<open>\<^verbatim>\<open>Start\<close>: \<open>remote\<close> says whether \<^verbatim>\<open>remote_endpoint()\<close> returned.\<close>

definition Connection_Start :: "conn_id \<Rightarrow> bool \<Rightarrow> 'w server \<Rightarrow> bool \<times> 'w server" where
  "Connection_Start c remote s = (if remote then (True, start_op (Op_read c) s) else (False, s))"

definition Connection_Stop :: "conn_id \<Rightarrow> 'w server \<Rightarrow> 'w server" where
  "Connection_Stop c s = start_op (Op_close c) s"

definition DoClose :: "conn_id \<Rightarrow> 'w server \<Rightarrow> 'w server" where
  "DoClose c s = s\<lparr>conns := (conns s)(c := map_option (\<lambda>k. k\<lparr>socket_open := False\<rparr>) (conns s c))\<rparr>"

definition IsTimeOut :: "int \<Rightarrow> conn \<Rightarrow> bool" where
  "IsTimeOut now k \<longleftrightarrow> now - m_active_time k > 330"

definition UpdateActivieTime :: "int \<Rightarrow> conn \<Rightarrow> conn" where
  "UpdateActivieTime now k = k\<lparr>m_active_time := now\<rparr>"

definition RequestKeepAlive :: "boost \<Rightarrow> conn \<Rightarrow> bool" where
  "RequestKeepAlive B k \<longleftrightarrow>
     list_ex (\<lambda>h. lower_copy B (h_name h) = ''connection'' \<and> lower_copy B (h_value h) = ''keep-alive'')
       (req_headers (m_request k))"

text \<open>\<^verbatim>\<open>Reply\<close>: the report to the monitoring library has no counterpart.\<close>

definition Reply :: "conn_id \<Rightarrow> conn \<Rightarrow> 'w server \<Rightarrow> 'w server" where
  "Reply c k s = start_op (Op_write c (concat (to_buffers (m_reply k)))) s"

text \<open>\<^verbatim>\<open>PushMsg\<close>, which nothing in the program calls; its callback belongs to the caller.\<close>

definition PushMsg :: "boost \<Rightarrow> conn_id \<Rightarrow> string \<Rightarrow> 'w server \<Rightarrow> 'w server" where
  "PushMsg B c push_msg s =
     (case conns s c of
        None \<Rightarrow> s
      | Some k \<Rightarrow>
          (let k' = k\<lparr>m_reply := BuidlReply B push_msg (m_reply k)\<rparr>
           in start_op (Op_write c (concat (to_buffers (m_reply k')))) (put_conn c k' s)))"

section \<open>The manager\<close>

definition Manager_Start :: "conn_id \<Rightarrow> bool \<Rightarrow> 'w server \<Rightarrow> 'w server" where
  "Manager_Start c remote s =
     (case Connection_Start c remote s of
        (True, s') \<Rightarrow> s'\<lparr>m_connections := insert c (m_connections s')\<rparr>
      | (False, s') \<Rightarrow> Connection_Stop c s')"

definition Manager_Stop :: "conn_id \<Rightarrow> 'w server \<Rightarrow> 'w server" where
  "Manager_Stop c s =
     (if c \<in> m_connections s
      then Connection_Stop c (s\<lparr>m_connections := m_connections s - {c}\<rparr>) else s)"

definition Manager_Erase :: "conn_id \<Rightarrow> 'w server \<Rightarrow> 'w server" where
  "Manager_Erase c s = s\<lparr>m_connections := m_connections s - {c}\<rparr>"

text \<open>\<^verbatim>\<open>StopAll\<close>: every connection is told to stop, then the set is cleared.\<close>

definition Manager_StopAll :: "'w server \<Rightarrow> 'w server" where
  "Manager_StopAll s = s\<lparr>pending := pending s + image_mset Op_close (mset_set (m_connections s)),
     m_connections := {}\<rparr>"

text \<open>One pass of \<^verbatim>\<open>MonitorThread\<close> at the time \<open>now\<close>.\<close>

definition timed_out :: "int \<Rightarrow> 'w server \<Rightarrow> conn_id set" where
  "timed_out now s = {c \<in> m_connections s. \<exists>k. conns s c = Some k \<and> IsTimeOut now k}"

definition Monitor_pass :: "int \<Rightarrow> 'w server \<Rightarrow> 'w server" where
  "Monitor_pass now s = s\<lparr>pending := pending s + image_mset Op_close (mset_set (timed_out now s)),
     m_connections := m_connections s - timed_out now s\<rparr>"

section \<open>The handlers of a connection\<close>

text \<open>What a read or a write completes with: an error (an abort or another one), or success.\<close>

datatype io_error = operation_aborted | other_error

definition fill_buffer :: "string \<Rightarrow> string \<Rightarrow> string" where
  "fill_buffer buf dat = dat @ drop (length dat) buf"

definition HandleRead_error :: "conn_id \<Rightarrow> io_error \<Rightarrow> 'w server \<Rightarrow> 'w server" where
  "HandleRead_error c e s = (if e \<noteq> operation_aborted then Manager_Stop c s else Manager_Stop c s)"

definition HandleRead :: "boost \<Rightarrow> 'w handler \<Rightarrow> int \<Rightarrow> conn_id \<Rightarrow> string \<Rightarrow> 'w server \<Rightarrow> 'w server option" where
  "HandleRead B H now c dat s =
     (case conns s c of
        None \<Rightarrow> None
      | Some k0 \<Rightarrow>
          (let k = UpdateActivieTime now (k0\<lparr>m_buffer := fill_buffer (m_buffer k0) dat\<rparr>)
           in case parse B (m_request_parser k) (m_request k) (m_buffer k) (length dat) of
                None \<Rightarrow> None
              | Some (Tri_true, p, r) \<Rightarrow>
                  (let k1 = k\<lparr>m_request := r, m_request_parser := new_request_parser\<rparr>;
                       k2 = (if \<not> m_is_long_connection k1
                             then k1\<lparr>m_is_long_connection := RequestKeepAlive B k1\<rparr> else k1);
                       (rep, w) = HandleRequest B H (m_request k2) (m_reply k2) (world s);
                       k3 = k2\<lparr>m_reply := rep\<rparr>
                   in Some (put_conn c (k3\<lparr>m_request := request_Reset (m_request k3)\<rparr>) (Reply c k3 (s\<lparr>world := w\<rparr>))))
              | Some (Tri_false, p, r) \<Rightarrow>
                  if NUL \<notin> set (m_buffer k) then None
                  else
                    (let k1 = k\<lparr>m_request := r, m_request_parser := p, m_reply := stock_reply B bad_request\<rparr>
                     in Some (put_conn c (k1\<lparr>m_request := request_Reset (m_request k1)\<rparr>) (Reply c k1 s)))
              | Some (Indeterminate, p, r) \<Rightarrow>
                  Some (start_op (Op_read c) (put_conn c (k\<lparr>m_request := r, m_request_parser := p\<rparr>) s))))"

definition HandleWrite :: "conn_id \<Rightarrow> io_error option \<Rightarrow> 'w server \<Rightarrow> 'w server option" where
  "HandleWrite c e s =
     (case e of
        None \<Rightarrow>
          (case conns s c of
             None \<Rightarrow> None
           | Some k \<Rightarrow>
               if rep_status (m_reply k) \<noteq> st_ok then Some (Manager_Stop c s)
               else if \<not> m_is_long_connection k then Some (Manager_Stop c s)
               else Some (start_op (Op_read c) s))
      | Some err \<Rightarrow> if err \<noteq> operation_aborted then Some (Manager_Stop c s) else Some (Manager_Stop c s))"

section \<open>Accepting\<close>

definition StartAcceptConnection :: "conn \<Rightarrow> int \<Rightarrow> 'w server \<Rightarrow> 'w server" where
  "StartAcceptConnection mem now s =
     (let c = Suc (m_new_connection s)
      in start_op Op_accept (put_conn c (new_Connection mem now) (s\<lparr>m_new_connection := c\<rparr>)))"

definition HandleNewConnection :: "bool \<Rightarrow> bool \<Rightarrow> conn \<Rightarrow> int \<Rightarrow> 'w server \<Rightarrow> 'w server" where
  "HandleNewConnection e remote mem now s =
     (if \<not> acceptor_open s then s
      else if \<not> e then StartAcceptConnection mem now (Manager_Start (m_new_connection s) remote s)
      else s)"

definition ServerStop :: "'w server \<Rightarrow> 'w server" where
  "ServerStop s = Manager_StopAll (s\<lparr>acceptor_open := False\<rparr>)"

text \<open>The server once its constructor has started the first accept.\<close>

definition new_server :: "conn \<Rightarrow> int \<Rightarrow> 'w \<Rightarrow> 'w server" where
  "new_server mem now w = StartAcceptConnection mem now
     \<lparr>conns = Map.empty, m_connections = {}, pending = {#}, acceptor_open = True, m_new_connection = 0, world = w\<rparr>"

section \<open>Steps\<close>

text \<open>The members of a connection object that are arrays have the size declared.\<close>

definition conn_memory :: "conn \<Rightarrow> bool" where
  "conn_memory mem \<longleftrightarrow> length (m_buffer mem) = s_http_recv_buf"

inductive step :: "boost \<Rightarrow> 'w handler \<Rightarrow> 'w server \<Rightarrow> 'w server \<Rightarrow> bool" for B H where
  accepted_connection: "Op_accept \<in># pending s \<Longrightarrow> conn_memory mem \<Longrightarrow>
    step B H s (HandleNewConnection e remote mem now (finish_op Op_accept s))"
| read_done: "Op_read c \<in># pending s \<Longrightarrow> dat \<noteq> [] \<Longrightarrow> length dat \<le> s_http_recv_buf \<Longrightarrow>
    HandleRead B H now c dat (finish_op (Op_read c) s) = Some s' \<Longrightarrow> step B H s s'"
| read_failed: "Op_read c \<in># pending s \<Longrightarrow> step B H s (HandleRead_error c err (finish_op (Op_read c) s))"
| write_done: "Op_write c bytes \<in># pending s \<Longrightarrow>
    HandleWrite c e (finish_op (Op_write c bytes) s) = Some s' \<Longrightarrow> step B H s s'"
| close_done: "Op_close c \<in># pending s \<Longrightarrow> step B H s (DoClose c (finish_op (Op_close c) s))"
| monitor: "step B H s (Monitor_pass now s)"
| stop_signal: "step B H s (ServerStop s)"

inductive reachable :: "boost \<Rightarrow> 'w handler \<Rightarrow> 'w server \<Rightarrow> bool" for B H where
  start: "conn_memory mem \<Longrightarrow> reachable B H (new_server mem now w)"
| step: "reachable B H s \<Longrightarrow> step B H s s' \<Longrightarrow> reachable B H s'"

inductive_cases stepE: "step B H s s'"

end
