(* ===== verification/Http_Requests.thy ===== *)
theory Http_Requests imports Http_Parser
begin

text \<open>
  Requests as the clients of the proxy write them, and how the parser of \<^verbatim>\<open>Http_Parser\<close> reads
  their lines, their head and their content: the lemmas the properties of the parser rest on.
\<close>

section \<open>Requests as a client writes them\<close>

definition header_line :: "header \<Rightarrow> string" where
  "header_line h = h_name h @ name_value_separator @ h_value h @ crlf"

definition request_head :: "string \<Rightarrow> header list \<Rightarrow> string" where
  "request_head target hs =
     ''POST /'' @ target @ '' HTTP/1.1'' @ crlf @ concat (map header_line hs) @ crlf"

text \<open>A request object to start from.\<close>

definition blank_request :: request where
  "blank_request = \<lparr>req_method = [], req_uri = [], http_version_major = 0, http_version_minor = 0,
     req_headers = [], req_content = [], bheader = False, content_length = 0, http_req_data = [], req_cmd = []\<rparr>"

text \<open>A request path the parser keeps as it is, and a header it reads back as it was.\<close>

definition target_ok :: "string \<Rightarrow> bool" where
  "target_ok t \<longleftrightarrow> t \<noteq> [] \<and> set t \<inter> {SP, CR, LF, NUL, CHR ''/'', CHR ''?''} = {}"

definition header_ok :: "header \<Rightarrow> bool" where
  "header_ok h \<longleftrightarrow> set (h_name h) \<inter> {CHR '':'', CR, LF, NUL} = {} \<and> set (h_value h) \<inter> {CR, LF, NUL} = {} \<and>
     unpadded (h_name h) \<and> unpadded (h_value h) \<and> take 5 (h_name h) \<noteq> ''POST ''"

definition user_cmd :: "header list \<Rightarrow> string \<Rightarrow> string" where
  "user_cmd hs = fold (\<lambda>h c. if h_name h = ''User-cmd'' then h_value h else c) hs"

section \<open>Lines\<close>

lemma to_int32_small [simp]: "n < 2 ^ 31 \<Longrightarrow> to_int32 n = int n"
  by (simp add: to_int32_def signed_of_nat signed_take_bit_int_eq_self)

lemma getline_here:
  assumes "drop off src = l @ crlf @ rest" and "CR \<notin> set l" and "NUL \<notin> set l"
  shows "getline_from_buf2 src off = Line (l @ crlf) (off + length l + 2)"
proof -
  have "strstr ((l @ crlf) @ rest) crlf = Found (length l)"
  proof (rule strstr_inside)
    show "NUL \<notin> set (l @ crlf)" using assms(3) by (simp add: crlf_def)
    show "find_sub crlf (l @ crlf) = Some (length l)"
      using find_sub_here[of crlf l "[]"] assms(2) by (simp add: crlf_def)
  qed
  then show ?thesis by (simp add: getline_from_buf2_def assms(1) crlf_def)
qed

lemma ncmp_loop_prefix:
  "NUL \<notin> set s2 \<Longrightarrow> it \<le> length s2 \<Longrightarrow> 
    ncmp_loop s1 s2 (length s2) it \<longleftrightarrow> take (length s2 - it) (drop it s1) = drop it s2"
proof (induction s1 s2 "length s2" it rule: ncmp_loop.induct)
  case (1 s1 s2 it)
  show ?case
  proof (cases "it = length s2")
    case True
    then show ?thesis by (subst ncmp_loop.simps) simp
  next
    case False
    then have it: "it < length s2" using 1 by simp
    then have c2: "char_at s2 it = s2 ! it" "s2 ! it \<noteq> NUL" "drop it s2 = s2 ! it # drop (Suc it) s2"
      using 1 nth_mem[of it s2] by (auto simp: char_at_def Cons_nth_drop_Suc simp del: nth_mem)
    show ?thesis
    proof (cases "it < length s1")
      case True
      then have "drop it s1 = s1 ! it # drop (Suc it) s1" by (simp add: Cons_nth_drop_Suc)
      moreover have "length s2 - it = Suc (length s2 - Suc it)" using it by simp
      ultimately show ?thesis using 1 it c2 True
        by (subst ncmp_loop.simps) (auto simp: char_at_def[of s1])
    next
      case False
      then show ?thesis using it c2
        by (subst ncmp_loop.simps) (simp add: char_at_def[of s1])
    qed
  qed
qed

lemma ncmp_prefix:
  assumes "NUL \<notin> set s2" and "s2 \<noteq> []" and "n = int (length s2)"
  shows "ncmp (Some s1) (Some s2) n \<longleftrightarrow> take (length s2) s1 = s2"
  using ncmp_loop_prefix[of s2 0 s1] assms by (simp add: ncmp_def)

lemma ncmp_crlf [simp]: "ncmp (Some s1) (Some crlf) 2 \<longleftrightarrow> take 2 s1 = crlf"
  using ncmp_prefix[of crlf 2 s1] by (simp add: crlf_def eval_nat_numeral)

lemma ncmp_POST [simp]: "ncmp (Some s1) (Some ''POST '') 5 \<longleftrightarrow> take 5 s1 = ''POST ''"
  using ncmp_prefix[of "''POST ''" 5 s1] by (simp add: eval_nat_numeral)

lemma scan_prefix:
  assumes "drop i line = a @ x # b" and "\<forall>c \<in> set a. P c" and "\<not> P x"
  shows "scan P line i = i + length a"
  using assms by (simp add: scan_def takeWhile_append)

lemma char_at_drop: "drop i line = x # b \<Longrightarrow> char_at line i = x"
  unfolding char_at_def by (metis drop_all list.simps(3) not_le nth_via_drop)

lemma TrimUri_target:
  assumes "boost_ok B" and "target_ok t"
  shows "TrimUri B t = t"
proof -
  have no: "CHR ''/'' \<notin> set t" "CHR ''?'' \<notin> set t" using assms(2) by (auto simp: target_ok_def)
  have absent: "find_sub pat t = None" if "x \<in> set pat" "x \<notin> set t" for pat x
    using that unfolding find_sub_None_iff by (metis in_set_dropD in_set_takeD)
  have "find_sub ''http://'' t = None" "find_sub ''HTTP://'' t = None"
    "find_sub ''?'' t = None" "find_sub ''/'' t = None"
    by (rule absent[of "CHR ''/''"], simp, rule no)
      (rule absent[of "CHR ''/''"], simp, rule no, rule absent[of "CHR ''?''"], simp, rule no,
       rule absent[of "CHR ''/''"], simp, rule no)
  then show ?thesis using assms(1) by (simp add: TrimUri_def boost_ok_def Let_def)
qed

lemma get_http_uri_line:
  assumes "boost_ok B" and "target_ok t"
  shows "get_http_uri B req (''POST /'' @ t @ '' HTTP/1.1'' @ crlf) =
    (True, req\<lparr>req_method := req_method req @ ''POST'', req_uri := t\<rparr>)"
proof -
  define line where "line = ''POST /'' @ t @ '' HTTP/1.1'' @ crlf"
  obtain c cs where t: "t = c # cs" using assms(2) by (auto simp: target_ok_def neq_Nil_conv)
  have s1: "scan (\<lambda>c. c \<noteq> SP) line 0 = 4"
    using scan_prefix[of 0 line "''POST''" SP "CHR ''/'' # t @ '' HTTP/1.1'' @ crlf"] by (simp add: line_def)
  have s2: "scan (\<lambda>c. c = SP) line 4 = 5"
    using scan_prefix[of 4 line "'' ''" "CHR ''/''" "t @ '' HTTP/1.1'' @ crlf"] by (simp add: line_def)
  have s3: "char_at line 5 = CHR ''/''"
    by (rule char_at_drop[of _ _ _ "t @ '' HTTP/1.1'' @ crlf"]) (simp add: line_def)
  have s4: "scan (\<lambda>c. c \<noteq> SP) line 7 = 6 + length t"
    using scan_prefix[of 7 line cs SP "''HTTP/1.1'' @ crlf" "\<lambda>c. c \<noteq> SP"] assms(2)
    by (auto simp: line_def t target_ok_def)
  have "take 4 line = ''POST''" "6 + length t \<noteq> length line" "take (length t) (drop 6 (line @ [NUL])) = t"
    by (simp_all add: line_def crlf_def)
  then show ?thesis
    unfolding get_http_uri_def Let_def line_def[symmetric]
    using s1 s2 s3 s4 TrimUri_target[OF assms] by simp
qed

lemma trim_unpadded: "boost_ok B \<Longrightarrow> unpadded s \<Longrightarrow> \<forall>c \<in> set (a @ b). is_space c \<Longrightarrow> trim_copy B (a @ s @ b) = s"
  unfolding boost_ok_def by blast

lemma get_mime_header_line:
  assumes "boost_ok B" and "header_ok h"
  shows "get_mime_header B req (header_line h) =
    (True, req\<lparr>req_headers := req_headers req @ [h], req_cmd := user_cmd [h] (req_cmd req)\<rparr>)"
proof -
  define line where "line = header_line h"
  define n where "n = length (h_name h)"
  have s1: "scan (\<lambda>c. c \<noteq> NUL \<and> c \<noteq> CHR '':'') line 0 = n"
    using scan_prefix[of 0 line "h_name h" "CHR '':''" "SP # h_value h @ crlf" "\<lambda>c. c \<noteq> NUL \<and> c \<noteq> CHR '':''"] assms(2)
    by (auto simp: line_def header_line_def name_value_separator_def header_ok_def n_def)
  have s2: "char_at line n = CHR '':''"
    by (rule char_at_drop[of _ _ _ "SP # h_value h @ crlf"])
      (simp add: line_def n_def header_line_def name_value_separator_def)
  have d: "drop (n + 1) line = (SP # h_value h @ [CR]) @ LF # []"
    by (simp add: line_def n_def header_line_def name_value_separator_def crlf_def)
  have "\<forall>c \<in> set (SP # h_value h @ [CR]). c \<noteq> NUL \<and> c \<noteq> LF" using assms(2) by (auto simp: header_ok_def)
  from scan_prefix[OF d this]
  have s3: "scan (\<lambda>c. c \<noteq> NUL \<and> c \<noteq> LF) line (n + 1) = n + length (h_value h) + 3" by simp
  have "n + length (h_value h) + 3 = (length (h_value h) + 2) + (n + 1)" by simp
  then have "drop (n + length (h_value h) + 3) line = drop (length (h_value h) + 2) (drop (n + 1) line)"
    by (simp only: drop_drop)
  then have s4: "char_at line (n + length (h_value h) + 3) = LF"
    by (intro char_at_drop[of _ _ _ "[]"]) (simp only: d, simp)
  have t1: "trim_copy B (take n line) = h_name h"
    using trim_unpadded[OF assms(1), of "h_name h" "[]" "[]"] assms(2)
    by (simp add: line_def n_def header_line_def header_ok_def)
  have t2: "trim_copy B (SP # h_value h @ [CR, LF]) = h_value h"
    using trim_unpadded[OF assms(1), of "h_value h" "[SP]" "[CR, LF]"] assms(2)
    by (simp add: header_ok_def is_space_def)
  have t3: "take (n + length (h_value h) + 3 - n) (drop (n + 1) line) = SP # h_value h @ [CR, LF]"
    by (simp only: d) simp
  show ?thesis
    unfolding get_mime_header_def Let_def line_def[symmetric]
    using s1 s2 s3 s4 t2 t3 by (simp add: t1 user_cmd_def)
qed

lemma header_line_parts:
  assumes "header_ok h"
  shows "header_line h = (h_name h @ name_value_separator @ h_value h) @ crlf"
    "CR \<notin> set (h_name h @ name_value_separator @ h_value h)" "NUL \<notin> set (h_name h @ name_value_separator @ h_value h)"
    "2 < length (header_line h)" "take 5 (header_line h) \<noteq> ''POST ''"
proof -
  show "take 5 (header_line h) \<noteq> ''POST ''"
  proof
    assume a: "take 5 (header_line h) = ''POST ''"
    have colon: "CHR '':'' \<notin> set (take 5 (header_line h))" unfolding a by simp
    have "5 \<le> length (h_name h)"
    proof (rule ccontr)
      assume "\<not> 5 \<le> length (h_name h)"
      then have "take 5 (header_line h) = h_name h @ take (5 - length (h_name h)) (CHR '':'' # SP # h_value h @ crlf)"
        by (simp add: header_line_def name_value_separator_def)
      moreover have "5 - length (h_name h) = Suc (4 - length (h_name h))"
        using \<open>\<not> 5 \<le> length (h_name h)\<close> by simp
      ultimately show False using colon by simp
    qed
    then have "take 5 (h_name h) = ''POST ''" using a by (simp add: header_line_def)
    with assms show False by (simp add: header_ok_def)
  qed
qed (use assms in \<open>auto simp: header_line_def header_ok_def name_value_separator_def crlf_def\<close>)

lemma header_lines_headers:
  assumes "boost_ok B" and "\<forall>h \<in> set hs. header_ok h"
    and "drop off head = concat (map header_line hs) @ crlf @ rest"
    and "off + length (concat (map header_line hs)) + 2 \<le> len" and "len < 2 ^ 31" and "req_uri req \<noteq> []"
  shows "header_lines B head len off req = Some (True, req\<lparr>req_headers := req_headers req @ hs,
    req_cmd := user_cmd hs (req_cmd req)\<rparr>)"
  using assms(2-)
proof (induction hs arbitrary: off req)
  case Nil
  then have g: "getline_from_buf2 head off = Line crlf (off + 2)"
    using getline_here[of off head "[]" rest] by simp
  show ?case using Nil.prems
    by (subst header_lines.simps) (simp add: g user_cmd_def, simp add: crlf_def)
next
  case (Cons h hs)
  note parts = header_line_parts[of h]
  define line where "line = header_line h"
  have ok: "header_ok h" using Cons.prems by simp
  have d: "drop off head = line @ concat (map header_line hs) @ crlf @ rest"
    using Cons.prems(2) by (simp add: line_def)
  have g: "getline_from_buf2 head off = Line line (off + length line)"
    using getline_here[of off head "h_name h @ name_value_separator @ h_value h" "concat (map header_line hs) @ crlf @ rest"]
      d parts[OF ok] by (simp add: line_def crlf_def)
  have d': "drop (off + length line) head = concat (map header_line hs) @ crlf @ rest"
    using arg_cong[OF d, of "drop (length line)"] by (simp add: add.commute)
  have lt: "int (off + length line) < to_int32 len" using Cons.prems by (simp add: line_def)
  have "header_lines B head len off req =
      header_lines B head len (off + length line) (req\<lparr>req_headers := req_headers req @ [h], req_cmd := user_cmd [h] (req_cmd req)\<rparr>)"
    using g lt Cons.prems(5) parts(4,5)[OF ok] get_mime_header_line[OF assms(1) ok, of req]
    by (subst header_lines.simps) (simp add: line_def[symmetric])
  also have "\<dots> = Some (True, req\<lparr>req_headers := req_headers req @ h # hs, req_cmd := user_cmd (h # hs) (req_cmd req)\<rparr>)"
    using Cons.IH[OF _ d'] Cons.prems by (simp add: line_def user_cmd_def)
  finally show ?case .
qed

lemma header_lines_request:
  assumes "boost_ok B" and "target_ok t" and "\<forall>h \<in> set hs. header_ok h" 
    and "length (request_head t hs) \<le> len" and "len < 2 ^ 31" 
  shows "header_lines B (request_head t hs @ rest) len 0 req = Some (True, req\<lparr>
    req_method := req_method req @ ''POST'', req_uri := t, req_headers := req_headers req @ hs,
    req_cmd := user_cmd hs (req_cmd req)\<rparr>)"
proof -
  define l where "l = ''POST /'' @ t @ '' HTTP/1.1''"
  define head where "head = request_head t hs @ rest"
  have l: "CR \<notin> set l" "NUL \<notin> set l" using assms(2) by (auto simp: l_def target_ok_def)
  have d: "drop 0 head = l @ crlf @ concat (map header_line hs) @ crlf @ rest"
    by (simp add: head_def request_head_def l_def)
  have g: "getline_from_buf2 head 0 = Line (l @ crlf) (0 + length l + 2)"
    by (rule getline_here[OF d l])
  have d': "drop (length l + 2) head = concat (map header_line hs) @ crlf @ rest"
    using d by (simp add: crlf_def)
  have lt: "int (length l + 2) < to_int32 len"
    using assms(4,5) by (simp add: request_head_def l_def crlf_def)
  have "get_http_uri B req (l @ crlf) = (True, req\<lparr>req_method := req_method req @ ''POST'', req_uri := t\<rparr>)"
    using get_http_uri_line[OF assms(1,2), of req] by (simp add: l_def)
  then have "header_lines B head len 0 req =
      header_lines B head len (length l + 2) (req\<lparr>req_method := req_method req @ ''POST'', req_uri := t\<rparr>)"
    using g lt by (subst header_lines.simps) (simp, simp add: l_def crlf_def)
  also have "\<dots> = Some (True, req\<lparr>
    req_method := req_method req @ ''POST'', req_uri := t, req_headers := req_headers req @ hs,
    req_cmd := user_cmd hs (req_cmd req)\<rparr>)"
    using assms d' by (subst header_lines_headers[OF assms(1,3) d']) (auto simp: request_head_def l_def crlf_def target_ok_def)
  finally show ?thesis by (simp add: head_def)
qed
section \<open>The end of the head\<close>

lemma find_end_line:
  assumes "CR \<notin> set l" and "take 2 s \<noteq> crlf"
  shows "find_sub http_end (l @ crlf @ s) = map_option (\<lambda>k. k + length l + 2) (find_sub http_end s)"
  using assms(1)
proof (induction l)
  case Nil
  have "take 2 s \<noteq> crlf \<Longrightarrow> take 4 (CR # LF # s) \<noteq> http_end" by (simp add: http_end_def crlf_def eval_nat_numeral)
  with assms(2) show ?case
    by (simp add: http_end_def crlf_def eval_nat_numeral option.map_comp o_def)
next
  case (Cons c l)
  then have "take (length http_end) (c # l @ crlf @ s) \<noteq> http_end"
    by (auto simp: http_end_def crlf_def)
  with Cons show ?case by (simp add: option.map_comp o_def)
qed

lemma find_end_last: "CR \<notin> set l \<Longrightarrow> find_sub http_end (l @ crlf @ crlf) = Some (length l)"
  using find_sub_here[of http_end l "[]"] by (simp add: http_end_def crlf_def)

lemma find_end_headers:
  assumes "\<forall>h \<in> set hs. header_ok h" and "CR \<notin> set l"
  shows "find_sub http_end (l @ crlf @ concat (map header_line hs) @ crlf) =
    Some (length l + length (concat (map header_line hs)))"
  using assms
proof (induction hs arbitrary: l)
  case Nil
  then show ?case using find_end_last by simp
next
  case (Cons h hs)
  define hl where "hl = h_name h @ name_value_separator @ h_value h"
  have hl: "header_line h = hl @ crlf" "CR \<notin> set hl" "hl \<noteq> []"
    using header_line_parts[of h] Cons.prems(1) by (auto simp: hl_def name_value_separator_def)
  have "find_sub http_end (hl @ crlf @ concat (map header_line hs) @ crlf) =
      Some (length hl + length (concat (map header_line hs)))"
    using Cons hl(2) by auto
  moreover have "take 2 (hl @ crlf @ concat (map header_line hs) @ crlf) \<noteq> crlf"
    using hl by (cases hl) (auto simp: crlf_def)
  ultimately show ?case
    using find_end_line[OF Cons.prems(2), of "hl @ crlf @ concat (map header_line hs) @ crlf"]
    by (simp add: hl(1)) (simp add: crlf_def)
qed

lemma find_end_request:
  assumes "target_ok t" and "\<forall>h \<in> set hs. header_ok h"
  shows "find_sub http_end (request_head t hs) = Some (length (request_head t hs) - 4)"
proof -
  have "CR \<notin> set (''POST /'' @ t @ '' HTTP/1.1'')" using assms(1) by (auto simp: target_ok_def)
  from find_end_headers[OF assms(2) this] show ?thesis
    by (simp add: request_head_def crlf_def)
qed

lemma NUL_request_head:
  assumes "target_ok t" and "\<forall>h \<in> set hs. header_ok h"
  shows "NUL \<notin> set (request_head t hs)"
proof -
  have "NUL \<notin> set (header_line h)" if "h \<in> set hs" for h
    using assms(2) that by (auto simp: header_line_def header_ok_def name_value_separator_def crlf_def)
  then show ?thesis using assms(1) by (auto simp: request_head_def target_ok_def crlf_def)
qed

lemma length_request_head: "4 \<le> length (request_head t hs)"
  by (simp add: request_head_def crlf_def)

lemma strstr_head:
  assumes "target_ok t" and "\<forall>h \<in> set hs. header_ok h"
  shows "strstr (request_head t hs @ rest) http_end = Found (length (request_head t hs) - 4)"
  by (rule strstr_inside[OF NUL_request_head find_end_request]) (use assms in auto)

lemma strstr_partial_head:
  assumes "target_ok t" and "\<forall>h \<in> set hs. header_ok h" and "n < length (request_head t hs)"
  shows "strstr (take n (request_head t hs) @ [NUL]) http_end = Absent"
proof -
  have "find_sub http_end (take n (request_head t hs)) = None"
    using find_end_request[OF assms(1,2)] assms(3) length_request_head[of t hs]
    by (intro find_sub_None_take) (auto simp: http_end_def crlf_def)
  moreover have "NUL \<notin> set (take n (request_head t hs))"
    using NUL_request_head[OF assms(1,2)] by (auto dest: in_set_takeD)
  ultimately show ?thesis using strstr_terminated[of "take n (request_head t hs)" "[]"] by simp
qed

section \<open>The content length\<close>

text \<open>Every header of that name says \<open>n\<close>, and there is one.\<close>

definition declares_length :: "header list \<Rightarrow> nat \<Rightarrow> bool" where
  "declares_length hs n \<longleftrightarrow>
     (\<exists>h \<in> set hs. headers_equal (h_name h) content_length_name) \<and>
     (\<forall>h \<in> set hs. headers_equal (h_name h) content_length_name \<longrightarrow> h_value h = decimal n) \<and> n < 2 ^ 64"

lemma find_content_length_declared:
  assumes "boost_ok B" and "\<forall>h \<in> set hs. headers_equal (h_name h) content_length_name \<longrightarrow> h_value h = decimal n"
    and "n < 2 ^ 64"
  shows "find_content_length B hs req =
    (True, if \<exists>h \<in> set hs. headers_equal (h_name h) content_length_name
           then req\<lparr>content_length := n, bheader := True\<rparr> else req)"
  using assms(2)
proof (induction hs arbitrary: req)
  case (Cons h hs)
  have "to_size B (decimal n) = Some n" using assms(1,3) by (simp add: boost_ok_def)
  with Cons show ?case by auto
qed simp

section \<open>The head and the content that comes with it\<close>

definition parsed_request :: "request \<Rightarrow> string \<Rightarrow> header list \<Rightarrow> nat \<Rightarrow> string \<Rightarrow> request" where
  "parsed_request r t hs n body = r\<lparr>req_method := req_method r @ ''POST'', req_uri := t,
     req_headers := hs, req_cmd := user_cmd hs (req_cmd r), content_length := n, bheader := True,
     req_content := body\<rparr>"

lemma parse_head_request:
  assumes "boost_ok B" and "target_ok t" and "\<forall>h \<in> set hs. header_ok h" and "declares_length hs n"
    and "req_headers r = []" and "req_content r = []"
    and "len = length (request_head t hs @ rest)" and "len < 2 ^ 31"
  shows "parse_head B p (request_head t hs @ rest @ junk) len (length (request_head t hs)) r =
    (if n \<le> length rest then Some (Tri_true, p\<lparr>pc := P_done\<rparr>, parsed_request r t hs n rest)
     else Some (Indeterminate, p\<lparr>pc := P_body\<rparr>, parsed_request r t hs n rest))"
proof -
  have "length (request_head t hs) \<le> len" using assms(7) by simp
  note hl = header_lines_request[OF assms(1-3) this assms(8), of "rest @ junk" r]
  show ?thesis
    unfolding parse_head_def hl using assms(4-7)
    by (simp add: Let_def find_content_length_declared[OF assms(1)] declares_length_def parsed_request_def)
qed

section \<open>Feeding the parser\<close>

text \<open>
  What the connection does with a request that arrives in pieces: it parses each piece until the
  result is no longer \<^verbatim>\<open>indeterminate\<close>. A piece comes with the rest of the receive buffer.
\<close>

fun feed :: "boost \<Rightarrow> parser \<Rightarrow> request \<Rightarrow> (string \<times> string) list \<Rightarrow> parse_result" where
  "feed B p r [] = Some (Indeterminate, p, r)"
| "feed B p r ((c, stale) # cs) =
     Option.bind (parse B p r (c @ stale) (length c)) (\<lambda>(res, p', r').
       if res = Indeterminate then feed B p' r' cs else Some (res, p', r'))"

definition fresh_request :: "request \<Rightarrow> bool" where
  "fresh_request r \<longleftrightarrow> req_method r = [] \<and> req_uri r = [] \<and> req_headers r = [] \<and> req_content r = [] \<and>
     http_req_data r = [] \<and> req_cmd r = []"

definition received_request :: "request \<Rightarrow> string \<Rightarrow> header list \<Rightarrow> string \<Rightarrow> request" where
  "received_request r t hs body = r\<lparr>req_method := ''POST'', req_uri := t, req_headers := hs,
     req_cmd := user_cmd hs [], content_length := length body, bheader := True, req_content := body,
     http_req_data := request_head t hs @ body\<rparr>"

text \<open>
  The search over the whole buffer finds no end of head that the bytes just read do not hold: what
  an earlier read left behind does not complete one, and the search ends inside the buffer.
\<close>

definition quiet_tail :: "string \<Rightarrow> string \<Rightarrow> bool" where
  "quiet_tail c stale \<longleftrightarrow>
     (case strstr (c @ stale) http_end of Found k \<Rightarrow> length c \<le> k | Absent \<Rightarrow> True | Overrun \<Rightarrow> False)"

lemma quiet_tail_NUL:
  assumes "NUL \<notin> set c" and "find_sub http_end c = None"
  shows "quiet_tail c (NUL # t)"
  using strstr_terminated[OF assms(1), of t http_end] assms(2) by (simp add: quiet_tail_def)

text \<open>The state after the bytes \<open>x\<close> of a request.\<close>

definition parse_after :: "request \<Rightarrow> string \<Rightarrow> header list \<Rightarrow> string \<Rightarrow> string \<Rightarrow> parser \<times> request \<Rightarrow> bool" where
  "parse_after r t hs body x s \<longleftrightarrow>
     (let hd_len = length (request_head t hs); (p, q) = s
      in if x = [] then p = new_request_parser \<and> q = r
         else if length x < hd_len then p = \<lparr>pc = P_header, m_httpheader = x\<rparr> \<and> q = r\<lparr>http_req_data := x\<rparr>
         else pc p = P_body \<and>
           q = (parsed_request r t hs (length body) (drop hd_len x))\<lparr>http_req_data := x\<rparr>)"

lemma take_length_take: "take n xs = take (length (take n xs)) xs"
  by (cases "n \<le> length xs") simp_all

text \<open>A request that the parser ought to accept, and a request object to receive it.\<close>

definition incoming :: "boost \<Rightarrow> request \<Rightarrow> string \<Rightarrow> header list \<Rightarrow> string \<Rightarrow> bool" where
  "incoming B r t hs body \<longleftrightarrow> boost_ok B \<and> target_ok t \<and> (\<forall>h \<in> set hs. header_ok h) \<and>
     declares_length hs (length body) \<and> fresh_request r \<and> length (request_head t hs @ body) < 2 ^ 31"

definition outcome :: "request \<Rightarrow> string \<Rightarrow> header list \<Rightarrow> string \<Rightarrow> string \<Rightarrow> tribool \<times> parser \<times> request \<Rightarrow> bool" where
  "outcome r t hs body x s \<longleftrightarrow> (case s of (res, p, q) \<Rightarrow>
     if x = request_head t hs @ body then res = Tri_true \<and> pc p = P_done \<and> q = received_request r t hs body
     else res = Indeterminate \<and> parse_after r t hs body x (p, q))"

lemma request_head_not_Nil [simp]: "request_head t hs \<noteq> []"
  by (simp add: request_head_def)

lemma parse_head_outcome:
  assumes "incoming B r t hs body" and "rest = take (length rest) body"
  defines "head \<equiv> request_head t hs"
  shows "\<exists>s. parse_head B p (head @ rest @ junk) (length (head @ rest)) (length head)
      (r\<lparr>http_req_data := head @ rest\<rparr>) = Some s \<and> outcome r t hs body (head @ rest) s"
proof -
  have le: "length rest \<le> length body" using arg_cong[OF assms(2), of length] unfolding length_take by linarith
  have eq: "rest = body \<longleftrightarrow> length body \<le> length rest" using assms(2) le by (metis le_refl take_all)
  have in': "boost_ok B" "target_ok t" "\<forall>h \<in> set hs. header_ok h" "declares_length hs (length body)"
    "fresh_request r" "length (head @ rest) < 2 ^ 31"
    using assms(1) le by (simp_all add: incoming_def head_def)
  have "parse_head B p (head @ rest @ junk) (length (head @ rest)) (length head) (r\<lparr>http_req_data := head @ rest\<rparr>) =
    (if length body \<le> length rest
     then Some (Tri_true, p\<lparr>pc := P_done\<rparr>, parsed_request (r\<lparr>http_req_data := head @ rest\<rparr>) t hs (length body) rest)
     else Some (Indeterminate, p\<lparr>pc := P_body\<rparr>, parsed_request (r\<lparr>http_req_data := head @ rest\<rparr>) t hs (length body) rest))"
    using in'(5,6) unfolding head_def fresh_request_def
    by (intro parse_head_request[OF in'(1-4)]) simp_all
  then show ?thesis
    using in'(5) eq unfolding fresh_request_def head_def
    by (auto simp: outcome_def parse_after_def parsed_request_def received_request_def)
qed

lemma collect_outcome:
  assumes "incoming B r t hs body" and "pre @ c = take (length (pre @ c)) (request_head t hs @ body)"
    and "m_httpheader p = pre" and "pre @ c \<noteq> []"
  shows "\<exists>s. collect_head B p (c @ junk) (length c) (r\<lparr>http_req_data := pre @ c\<rparr>) = Some s \<and>
    outcome r t hs body (pre @ c) s"
proof -
  define head where "head = request_head t hs"
  have in': "target_ok t" "\<forall>h \<in> set hs. header_ok h" using assms(1) by (simp_all add: incoming_def)
  show ?thesis
  proof (cases "length (pre @ c) < length head")
    case True
    then have "pre @ c = take (length (pre @ c)) head" using assms(2) by (simp add: head_def)
    with strstr_partial_head[OF in', of "length (pre @ c)"] True
    have "strstr ((pre @ c) @ [NUL]) http_end = Absent" by (simp add: head_def)
    moreover have "pre @ c \<noteq> head @ body" using True by (metis length_append not_add_less1)
    ultimately show ?thesis using True assms(3,4)
      by (cases p) (auto simp: collect_head_def outcome_def parse_after_def Let_def head_def)
  next
    case False
    then have "take (length (pre @ c)) (head @ body) = head @ take (length (pre @ c) - length head) body"
      by simp
    with assms(2) have eq: "pre @ c = head @ take (length (pre @ c) - length head) body"
      unfolding head_def by (rule trans)
    define rest where "rest = take (length (pre @ c) - length head) body"
    have eq: "pre @ c = head @ rest" using eq by (simp only: rest_def)
    have rest: "rest = take (length rest) body" unfolding rest_def by (rule take_length_take)
    have "strstr ((pre @ c) @ [NUL]) http_end = Found (length head - 4)"
      unfolding eq head_def using strstr_head[OF in', of "rest @ [NUL]"] by simp
    then have "collect_head B p (c @ junk) (length c) (r\<lparr>http_req_data := pre @ c\<rparr>) =
        parse_head B (p\<lparr>m_httpheader := pre @ c\<rparr>) (head @ rest @ [NUL]) (length (head @ rest)) (length head)
          (r\<lparr>http_req_data := head @ rest\<rparr>)"
      using length_request_head[of t hs] eq by (simp add: collect_head_def assms(3) head_def)
    then show ?thesis
      using parse_head_outcome[OF assms(1) rest, of "p\<lparr>m_httpheader := pre @ c\<rparr>" "[NUL]"]
      unfolding eq head_def by simp
  qed
qed

lemma receive_content_fits:
  assumes "length (req_content q) + length c \<le> content_length q"
  shows "receive_content p (c @ junk) (length c) q =
    (if length (req_content q @ c) \<ge> content_length q
     then Some (Tri_true, p\<lparr>pc := P_done\<rparr>, q\<lparr>req_content := req_content q @ c\<rparr>)
     else Some (Indeterminate, p, q\<lparr>req_content := req_content q @ c\<rparr>))"
proof -
  have "(if length c < content_length q - length (req_content q) then take (length c) (c @ junk)
      else take (content_length q - length (req_content q)) (c @ junk)) = c" using assms by auto
  then show ?thesis by (simp only: receive_content_def Let_def) simp
qed

lemma receive_outcome:
  assumes "pre @ c = take (length (pre @ c)) (request_head t hs @ body)"
    and "length (request_head t hs) \<le> length pre" and "pre \<noteq> request_head t hs @ body"
    and "parse_after r t hs body pre (p, q)" and "fresh_request r"
  shows "\<exists>s. receive_content p (c @ junk) (length c) (q\<lparr>http_req_data := pre @ c\<rparr>) = Some s \<and>
    outcome r t hs body (pre @ c) s"
proof -
  define head where "head = request_head t hs"
  define b1 where "b1 = drop (length head) pre"
  have pre: "pre = head @ b1"
    using assms(1,2) unfolding b1_def head_def by (simp add: append_eq_append_conv_if split: if_splits)
      (metis append_take_drop_id)
  have b1c: "b1 @ c = take (length b1 + length c) body" using assms(1) unfolding pre head_def by simp
  then have le: "length b1 + length c \<le> length body"
    using arg_cong[OF b1c, of length] unfolding length_append length_take by linarith
  have pre_ne: "pre \<noteq> []" "\<not> length pre < length (request_head t hs)" using assms(2) by auto
  have p: "pc p = P_body" and q: "q = (parsed_request r t hs (length body) b1)\<lparr>http_req_data := pre\<rparr>"
    using assms(2,4) pre_ne by (simp_all add: parse_after_def Let_def head_def b1_def)
  have full: "length body \<le> length (b1 @ c) \<longleftrightarrow> b1 @ c = body"
  proof
    assume "length body \<le> length (b1 @ c)"
    then show "b1 @ c = body" using b1c le by simp
  qed simp
  have fresh: "req_method r = []" "req_cmd r = []" using assms(5) by (simp_all add: fresh_request_def)
  have "receive_content p (c @ junk) (length c) (q\<lparr>http_req_data := pre @ c\<rparr>) =
    (if b1 @ c = body then Some (Tri_true, p\<lparr>pc := P_done\<rparr>, (parsed_request r t hs (length body) (b1 @ c))\<lparr>http_req_data := pre @ c\<rparr>)
     else Some (Indeterminate, p, (parsed_request r t hs (length body) (b1 @ c))\<lparr>http_req_data := pre @ c\<rparr>))"
    using receive_content_fits[of "q\<lparr>http_req_data := pre @ c\<rparr>" c p junk] le full by (simp add: q parsed_request_def)
  moreover have "(parsed_request r t hs (length body) body)\<lparr>http_req_data := request_head t hs @ body\<rparr> = received_request r t hs body"
    using fresh by (simp add: parsed_request_def received_request_def)
  ultimately show ?thesis
    using p by (auto simp: pre head_def outcome_def parse_after_def)
qed

lemma parse_step:
  assumes "incoming B r t hs body" and "pre @ c = take (length (pre @ c)) (request_head t hs @ body)"
    and "c \<noteq> []" and "pre \<noteq> request_head t hs @ body" and "parse_after r t hs body pre (p, q)"
    and "pre = [] \<Longrightarrow> length c < length (request_head t hs) \<Longrightarrow> quiet_tail c stale"
    and "length c < 2 ^ 31"
  shows "\<exists>s. parse B p q (c @ stale) (length c) = Some s \<and> outcome r t hs body (pre @ c) s"
proof -
  define head where "head = request_head t hs"
  have in': "target_ok t" "\<forall>h \<in> set hs. header_ok h" "fresh_request r" using assms(1) by (simp_all add: incoming_def)
  consider (first) "pre = []" | (more) "pre \<noteq> []" "length pre < length head" | (body) "length head \<le> length pre" "pre \<noteq> []"
    by linarith
  then show ?thesis
  proof cases
    case first
    then have pq: "p = new_request_parser" "q = r" using assms(5) by (simp_all add: parse_after_def)
    have c: "c = take (length c) (head @ body)" using assms(2) first by (simp add: head_def)
    have data: "r\<lparr>http_req_data := http_req_data r @ c\<rparr> = r\<lparr>http_req_data := c\<rparr>"
      using in'(3) by (simp add: fresh_request_def)
    have col: "\<exists>s. collect_head B new_request_parser (c @ stale) (length c) (r\<lparr>http_req_data := c\<rparr>) = Some s \<and> outcome r t hs body c s"
      using collect_outcome[OF assms(1), of "[]" c new_request_parser stale] assms(2,3) first by (simp add: new_request_parser_def)
    show ?thesis
    proof (cases "length c < length head")
      case True
      with assms(6) first have "quiet_tail c stale" by (simp add: head_def)
      then have "prase_http B new_request_parser (r\<lparr>http_req_data := c\<rparr>) (c @ stale) (length c) =
          collect_head B new_request_parser (c @ stale) (length c) (r\<lparr>http_req_data := c\<rparr>)"
        using assms(7) by (auto simp: prase_http.simps new_request_parser_def quiet_tail_def split: strstr_result.splits)
      then show ?thesis using col first by (simp add: pq parse_def data)
    next
      case False
      define rest where "rest = take (length c - length head) body"
      have eq: "c = head @ rest" using c False by (simp add: rest_def)
      have rest: "rest = take (length rest) body" unfolding rest_def by (rule take_length_take)
      have "strstr (c @ stale) http_end = Found (length head - 4)"
        unfolding eq head_def using strstr_head[OF in'(1,2), of "rest @ stale"] by simp
      then have "prase_http B new_request_parser (r\<lparr>http_req_data := c\<rparr>) (c @ stale) (length c) =
          parse_head B new_request_parser (c @ stale) (length c) (length head) (r\<lparr>http_req_data := c\<rparr>)"
        using assms(7) False length_request_head[of t hs]
        by (simp add: prase_http.simps new_request_parser_def head_def)
      then show ?thesis using parse_head_outcome[OF assms(1) rest, of new_request_parser stale] first
        by (simp add: pq parse_def data) (simp add: eq head_def)
    qed
  next
    case more
    then have "p = \<lparr>pc = P_header, m_httpheader = pre\<rparr>" "q = r\<lparr>http_req_data := pre\<rparr>"
      using assms(5) by (simp_all add: parse_after_def head_def)
    then show ?thesis using collect_outcome[OF assms(1,2), of p stale] more by (simp add: parse_def prase_http.simps)
  next
    case body
    then have "pc p = P_body" "http_req_data q = pre"
      using assms(5) by (auto simp: parse_after_def head_def Let_def)
    then show ?thesis using receive_outcome[OF assms(2) _ assms(4,5) in'(3), of stale] body
      by (simp add: parse_def prase_http.simps head_def)
  qed
qed

lemma feed_request:
  assumes "incoming B r t hs body" and "\<forall>(c, stale) \<in> set cs. c \<noteq> []"
    and "pre @ concat (map fst cs) = request_head t hs @ body" and "pre \<noteq> request_head t hs @ body"
    and "parse_after r t hs body pre (p, q)"
    and "pre = [] \<Longrightarrow> length (fst (hd cs)) < length (request_head t hs) \<Longrightarrow> quiet_tail (fst (hd cs)) (snd (hd cs))"
  shows "\<exists>p'. feed B p q cs = Some (Tri_true, p', received_request r t hs body)"
  using assms(2-)
proof (induction cs arbitrary: pre p q)
  case Nil
  then show ?case by simp
next
  case (Cons cs1 cs)
  obtain c stale where cs1: "cs1 = (c, stale)" by (cases cs1)
  have wire: "request_head t hs @ body = (pre @ c) @ concat (map fst cs)" using Cons.prems(2) by (simp add: cs1)
  then have small: "length c < 2 ^ 31"
    using assms(1) arg_cong[OF wire, of length] by (simp add: incoming_def)
  have "pre @ c = take (length (pre @ c)) (request_head t hs @ body)" unfolding wire by simp
  from parse_step[OF assms(1) this _ Cons.prems(3,4) _ small, of stale] Cons.prems(1,5)
  obtain s where s: "parse B p q (c @ stale) (length c) = Some s" "outcome r t hs body (pre @ c) s"
    by (auto simp: cs1)
  obtain res p' q' where spq: "s = (res, p', q')" by (cases s)
  show ?case
  proof (cases "pre @ c = request_head t hs @ body")
    case True
    then show ?thesis using s by (simp add: cs1 spq outcome_def)
  next
    case False
    then have "res = Indeterminate" "parse_after r t hs body (pre @ c) (p', q')" using s by (simp_all add: spq outcome_def)
    moreover have "pre @ c \<noteq> []" using Cons.prems(1) by (simp add: cs1)
    ultimately show ?thesis using s Cons.IH[of "pre @ c" p' q'] Cons.prems(1) wire False by (simp add: cs1 spq)
  qed
qed
section \<open>Searches that stay inside the buffer\<close>

lemma strstr_not_Overrun: "NUL \<in> set mem \<Longrightarrow> strstr mem pat \<noteq> Overrun"
  by (simp add: strstr_def split: option.split)

lemma getline_past_NUL:
  assumes "NUL \<in> set (drop off mem)" and "getline_from_buf2 mem off = Line l off'"
  shows "NUL \<in> set (drop off' mem)"
proof -
  obtain k where k: "strstr (drop off mem) crlf = Found k" "off' = off + (k + 2)"
    using assms(2) by (auto simp: getline_from_buf2_def Let_def split: strstr_result.splits)
  then have "find_sub crlf (cstr (drop off mem)) = Some k" by (simp add: strstr_def split: option.splits if_splits)
  from find_sub_bound[OF this] have "k + 2 \<le> length (takeWhile (\<lambda>c. c \<noteq> NUL) (drop off mem))"
    by (simp add: crlf_def cstr_def)
  then have "set (take (k + 2) (drop off mem)) \<subseteq> set (takeWhile (\<lambda>c. c \<noteq> NUL) (drop off mem))"
    by (metis set_take_subset takeWhile_eq_take take_take min.absorb1)
  then have "NUL \<notin> set (take (k + 2) (drop off mem))" by (auto dest: set_takeWhileD)
  moreover have "set (drop off mem) = set (take (k + 2) (drop off mem)) \<union> set (drop off' mem)"
    unfolding k(2) by (metis append_take_drop_id drop_drop add.commute set_append)
  ultimately show ?thesis using assms(1) by auto
qed

lemma header_lines_NUL:
  "NUL \<in> set (drop off head) \<Longrightarrow> header_lines B head len off req \<noteq> None"
proof (induction B head len off req rule: header_lines.induct)
  case (1 B head len off req)
  have "getline_from_buf2 head off \<noteq> Line_overrun"
    using strstr_not_Overrun[OF 1(3)] by (auto simp: getline_from_buf2_def Let_def split: strstr_result.splits)
  then show ?case
    using 1(1,2) getline_past_NUL[OF 1(3)]
    by (subst header_lines.simps) (auto split: getline_result.splits prod.splits bool.splits)
qed

text \<open>
  In a block with an end of head at \<open>k\<close> and no NUL before it, a line that starts before the empty
  line ends at it or before.
\<close>

lemma find_sub_Some_at:
  assumes "j + length pat \<le> length s" and "take (length pat) (drop j s) = pat"
  shows "\<exists>i \<le> j. find_sub pat s = Some i"
proof (cases "find_sub pat s")
  case None
  then show ?thesis using assms unfolding find_sub_None_iff by (metis add_leD1)
next
  case (Some i)
  then have "i \<le> j" using assms(2) unfolding find_sub_Some_iff by (metis linorder_not_less)
  with Some show ?thesis by blast
qed

lemma getline_before_end:
  assumes "NUL \<notin> set (take (k + 4) head)" and "take 4 (drop k head) = http_end"
  shows "off \<le> k \<Longrightarrow> \<exists>l off'. getline_from_buf2 head off = Line l off' \<and> off' \<le> k + 2 \<and> off' \<noteq> k + 1"
    and "getline_from_buf2 head (k + 2) = Line crlf (k + 4)"
proof -
  have long: "k + 4 \<le> length head"
  proof -
    have "length (take 4 (drop k head)) = 4" unfolding assms(2) by (simp add: http_end_def crlf_def)
    then show ?thesis by simp
  qed
  have at: "head ! k = CR" "head ! (k + 1) = LF" "head ! (k + 2) = CR" "head ! (k + 3) = LF"
  proof -
    have "take 4 (drop k head) ! i = http_end ! i" for i unfolding assms(2) ..
    then have *: "i < 4 \<Longrightarrow> head ! (k + i) = http_end ! i" for i using long by (metis nth_drop nth_take le_add1 order_trans)
    show "head ! k = CR" "head ! (k + 1) = LF" "head ! (k + 2) = CR" "head ! (k + 3) = LF"
      using *[of 0] *[of 1] *[of 2] *[of 3] by (simp_all add: http_end_def crlf_def)
  qed
  have len_crlf: "length crlf = 2" by (simp add: crlf_def)
  have pair: "take 2 (drop i head) = [head ! i, head ! (i + 1)]" if "i + 2 \<le> length head" for i
    using that by (simp add: take_Suc_conv_app_nth eval_nat_numeral)
  show "\<exists>l off'. getline_from_buf2 head off = Line l off' \<and> off' \<le> k + 2 \<and> off' \<noteq> k + 1" if le: "off \<le> k"
  proof -
    define s where "s = take (k + 4 - off) (drop off head)"
    have "set s \<subseteq> set (take (k + 4) head)"
      unfolding s_def by (metis drop_take set_drop_subset)
    then have no: "NUL \<notin> set s" using assms(1) by auto
    have split: "drop off head = s @ drop (k + 4 - off) (drop off head)"
      unfolding s_def by (rule append_take_drop_id[symmetric])
    have sub: "take 2 (drop i s) = take 2 (drop (off + i) head)" if "i + 2 \<le> k + 4 - off" for i
      using that by (simp add: s_def drop_take min_def add.commute)
    have ls: "length s = k + 4 - off" using long by (simp add: s_def)
    have "take 2 (drop (k - off) s) = crlf" using sub[of "k - off"] le pair[of k] long at by (simp add: crlf_def)
    moreover have "k - off + 2 \<le> k + 4 - off" using le by simp
    ultimately obtain j where j: "j \<le> k - off" "find_sub crlf s = Some j"
      using find_sub_Some_at[of "k - off" crlf s, unfolded len_crlf ls] by blast
    have "getline_from_buf2 head off = Line (take (j + 2) (drop off head)) (off + (j + 2))"
      using strstr_inside[OF no j(2), of "drop (k + 4 - off) (drop off head)"] split
      by (simp add: getline_from_buf2_def Let_def)
    moreover have "off + (j + 2) \<noteq> k + 1"
    proof
      assume a: "off + (j + 2) = k + 1"
      have "take 2 (drop j s) = crlf" using j(2) by (simp add: find_sub_Some_iff crlf_def eval_nat_numeral)
      then have "[head ! (off + j), head ! (off + j + 1)] = crlf"
        using sub[of j] pair[of "off + j"] a long by simp
      moreover have "off + j + 1 = k" using a by simp
      ultimately show False using at(1) by (simp add: crlf_def)
    qed
    ultimately show ?thesis using j(1) le by (intro exI[of _ "take (j + 2) (drop off head)"] exI[of _ "off + (j + 2)"]) auto
  qed
  have "take 2 (drop (k + 2) head) = crlf"
    using pair[of "k + 2"] at(3,4) long by (simp add: crlf_def add.commute numeral_eq_Suc)
  moreover have "drop (k + 2) head = take 2 (drop (k + 2) head) @ drop 2 (drop (k + 2) head)"
    by (rule append_take_drop_id[symmetric])
  ultimately have "drop (k + 2) head = [] @ crlf @ drop (k + 4) head"
    by (simp add: add.commute numeral_eq_Suc)
  then show "getline_from_buf2 head (k + 2) = Line crlf (k + 4)"
    using getline_here[of "k + 2" head "[]" "drop (k + 4) head"] by simp
qed

lemma header_lines_before_end:
  "NUL \<notin> set (take (k + 4) head) \<Longrightarrow> take 4 (drop k head) = http_end \<Longrightarrow>
    off \<le> k + 2 \<Longrightarrow> off \<noteq> k + 1 \<Longrightarrow> header_lines B head len off req \<noteq> None"
proof (induction B head len off req rule: header_lines.induct)
  case (1 B head len off req)
  show ?case
  proof (cases "off = k + 2")
    case True
    have "length crlf = 2" "take 2 crlf = crlf" by (simp_all add: crlf_def)
    then show ?thesis using getline_before_end(2)[OF 1(3,4)] True
      by (subst header_lines.simps) auto
  next
    case False
    then have "off \<le> k" using 1(5,6) by simp
    then obtain l off' where g: "getline_from_buf2 head off = Line l off'" "off' \<le> k + 2" "off' \<noteq> k + 1"
      using getline_before_end(1)[OF 1(3,4)] by blast
    show ?thesis
      using 1(1,2)[OF g(1)] 1(3,4) g
      by (subst header_lines.simps) (auto split: prod.splits bool.splits)
  qed
qed

text \<open>A search over the receive buffer that finds neither an end of head nor a NUL leaves it.\<close>

lemma parse_head_None: "parse_head B p head len pend req = None \<longleftrightarrow> header_lines B head len 0 req = None"
  by (auto simp: parse_head_def Let_def split: option.splits prod.splits bool.splits)

lemma strstr_Found_http_end:
  assumes "strstr mem http_end = Found k"
  shows "take 4 (drop k mem) = http_end" "NUL \<notin> set (take (k + 4) mem)"
proof -
  have f: "find_sub http_end (cstr mem) = Some k" using assms by (simp add: strstr_def split: option.splits if_splits)
  have len: "k + 4 \<le> length (cstr mem)" using find_sub_bound[OF f] by (simp add: http_end_def crlf_def)
  have pre: "cstr mem = take (length (cstr mem)) mem" unfolding cstr_def by (rule takeWhile_eq_take)
  have "take 4 (drop k (cstr mem)) = http_end" using f by (simp add: find_sub_Some_iff http_end_def crlf_def eval_nat_numeral)
  moreover have "take (k + 4) mem = take (k + 4) (cstr mem)"
    using len by (subst pre) (simp add: min_def)
  ultimately show "take 4 (drop k mem) = http_end" "NUL \<notin> set (take (k + 4) mem)"
    subgoal by (metis add.commute drop_take take_drop diff_add_inverse)
    subgoal using \<open>take (k + 4) mem = take (k + 4) (cstr mem)\<close> by (auto simp: cstr_def dest!: in_set_takeD set_takeWhileD)
    done
qed

lemma collect_head_defined: "collect_head B p mem len req \<noteq> None"
  using header_lines_NUL[of 0 "m_httpheader p @ take len mem @ [NUL]"]
    strstr_not_Overrun[of "m_httpheader p @ take len mem @ [NUL]" http_end]
  by (auto simp: collect_head_def Let_def parse_head_None simp del: not_None_eq split: strstr_result.splits)

lemma parse_None_iff:
  "parse B p r mem len = None \<longleftrightarrow> pc p = P_start \<and> NUL \<notin> set mem \<and> find_sub http_end mem = None"
proof (cases "pc p")
  case P_start
  show ?thesis
  proof (cases "strstr mem http_end")
    case (Found k)
    have "header_lines B mem len 0 q \<noteq> None" for q
      using header_lines_before_end[OF strstr_Found_http_end(2,1)[OF Found], of 0] by simp
    then have "parse B p r mem len \<noteq> None"
      using P_start Found collect_head_defined by (simp add: parse_def prase_http.simps parse_head_None del: not_None_eq)
    moreover have "find_sub http_end mem \<noteq> None \<or> NUL \<in> set mem"
      using Found by (auto simp: strstr_def split: option.splits if_splits)
    ultimately show ?thesis using P_start by auto
  next
    case Absent
    then have "NUL \<in> set mem" by (simp add: strstr_def split: option.splits if_splits)
    then show ?thesis using P_start Absent collect_head_defined by (simp add: parse_def prase_http.simps)
  next
    case Overrun
    then have "NUL \<notin> set mem" "find_sub http_end (cstr mem) = None"
      by (simp_all add: strstr_def split: option.splits if_splits)
    then show ?thesis using P_start Overrun by (simp add: parse_def prase_http.simps)
  qed
next
  case P_body
  then show ?thesis by (simp add: parse_def prase_http.simps receive_content_def Let_def)
qed (use collect_head_defined in \<open>auto simp: parse_def prase_http.simps\<close>)
lemma parse_head_beyond:
  assumes "len < pend" and "header_lines B head len 0 req \<noteq> None"
  shows "\<exists>q. parse_head B p head len pend req = Some (Tri_false, p\<lparr>pc := P_done\<rparr>, q)"
  using assms by (auto simp: parse_head_def Let_def split: prod.splits bool.splits)

end
