(* ===== verification/Connection_Inv.thy ===== *)
theory Connection_Inv imports Connection Http_Requests
begin

text \<open>
  The invariant of the server of \<^verbatim>\<open>Connection\<close>: every managed connection has one read or write
  outstanding, every started connection is managed, told to close or closed, and the parser and the
  request of a connection are fresh whenever a new request begins.
\<close>

section \<open>The manager as an interface\<close>

text \<open>
  What a connection relies on when it tells its manager to stop it: the close of a managed connection
  is posted once, and the connection is no longer managed.
\<close>

definition closing :: "'w server \<Rightarrow> conn_id \<Rightarrow> nat" where
  "closing s c = count (pending s) (Op_close c)"

locale connection_manager =
  fixes stop :: "conn_id \<Rightarrow> 's \<Rightarrow> 's" and stop_all :: "'s \<Rightarrow> 's"
    and managed :: "'s \<Rightarrow> conn_id set" and closes :: "'s \<Rightarrow> conn_id \<Rightarrow> nat"
  assumes managed_stop: "managed (stop c s) = managed s - {c}"
    and closes_stop: "closes (stop c s) d = closes s d + (if d = c \<and> c \<in> managed s then 1 else 0)"
    and managed_stop_all: "managed (stop_all s) = {}"
    and closes_stop_all: "finite (managed s) \<Longrightarrow> closes (stop_all s) d = closes s d + (if d \<in> managed s then 1 else 0)"
begin

lemma stop_balance: "closes (stop c s) d + (if d \<in> managed (stop c s) then 1 else 0) =
    closes s d + (if d \<in> managed s then 1 else 0)"
  by (simp add: managed_stop closes_stop)

lemma stop_all_balance: "finite (managed s) \<Longrightarrow>
    closes (stop_all s) d + (if d \<in> managed (stop_all s) then 1 else 0) = closes s d + (if d \<in> managed s then 1 else 0)"
  by (simp add: managed_stop_all closes_stop_all)

lemma stop_again: "closes (stop c (stop c s)) = closes (stop c s) \<and> managed (stop c (stop c s)) = managed (stop c s)"
  by (auto simp: managed_stop closes_stop fun_eq_iff)

lemma stop_commutes: "c \<noteq> d \<Longrightarrow> closes (stop c (stop d s)) = closes (stop d (stop c s)) \<and>
    managed (stop c (stop d s)) = managed (stop d (stop c s))"
  by (auto simp: managed_stop closes_stop fun_eq_iff)

end

lemma count_image_Op_close: "finite A \<Longrightarrow> count (image_mset Op_close (mset_set A)) (Op_close c) = (if c \<in> A then 1 else 0)"
  by (induction A rule: finite_induct) auto

interpretation server_manager: connection_manager Manager_Stop Manager_StopAll m_connections closing
  by unfold_locales
    (auto simp: Manager_Stop_def Manager_StopAll_def Connection_Stop_def start_op_def closing_def count_image_Op_close)

section \<open>Outstanding reads and writes\<close>

fun io_of :: "io_op \<Rightarrow> conn_id option" where
  "io_of (Op_read c) = Some c"
| "io_of (Op_write c bytes) = Some c"
| "io_of (Op_close c) = None"
| "io_of Op_accept = None"

definition outstanding :: "'w server \<Rightarrow> conn_id \<Rightarrow> nat" where
  "outstanding s c = size (filter_mset (\<lambda>op. io_of op = Some c) (pending s))"

lemma outstanding_start: "outstanding (start_op op s) c = outstanding s c + (if io_of op = Some c then 1 else 0)"
  by (simp add: outstanding_def start_op_def)

lemma outstanding_finish: "op \<in># pending s \<Longrightarrow>
    outstanding s c = outstanding (finish_op op s) c + (if io_of op = Some c then 1 else 0)"
  by (auto simp: outstanding_def finish_op_def dest!: multi_member_split)

lemma closing_start: "closing (start_op op s) c = closing s c + (if op = Op_close c then 1 else 0)"
  by (simp add: closing_def start_op_def)

lemma closing_finish: "op \<in># pending s \<Longrightarrow>
    closing s c = closing (finish_op op s) c + (if op = Op_close c then 1 else 0)"
  by (auto simp: closing_def finish_op_def dest!: multi_member_split)

section \<open>The invariant\<close>

definition socket_closed :: "'w server \<Rightarrow> conn_id \<Rightarrow> bool" where
  "socket_closed s c \<longleftrightarrow> (\<exists>k. conns s c = Some k \<and> \<not> socket_open k)"

text \<open>A started connection is in one of three states: managed, told to close, closed.\<close>

definition lifecycle :: "'w server \<Rightarrow> conn_id \<Rightarrow> nat" where
  "lifecycle s c = closing s c + (if c \<in> m_connections s then 1 else 0) + (if socket_closed s c then 1 else 0)"

text \<open>What the memory of a connection is like while it waits for data, and while it answers.\<close>

definition awaiting :: "conn \<Rightarrow> bool" where
  "awaiting k \<longleftrightarrow> pc (m_request_parser k) \<noteq> P_done \<and>
     (pc (m_request_parser k) = P_start \<longrightarrow> m_request_parser k = new_request_parser \<and> fresh_request (m_request k))"

definition answering :: "conn \<Rightarrow> bool" where
  "answering k \<longleftrightarrow> fresh_request (m_request k) \<and> (rep_status (m_reply k) = st_ok \<longrightarrow> m_request_parser k = new_request_parser)"

definition op_ok :: "'w server \<Rightarrow> io_op \<Rightarrow> bool" where
  "op_ok s op \<longleftrightarrow> (case op of
     Op_read c \<Rightarrow> \<exists>k. conns s c = Some k \<and> awaiting k
   | Op_write c bytes \<Rightarrow> \<exists>k. conns s c = Some k \<and> answering k \<and> bytes = concat (to_buffers (m_reply k))
   | _ \<Rightarrow> True)"

definition server_inv :: "'w server \<Rightarrow> bool" where
  "server_inv s \<longleftrightarrow>
     finite (m_connections s) \<and>
     (\<forall>c. conns s c \<noteq> None \<longleftrightarrow> 1 \<le> c \<and> c \<le> m_new_connection s) \<and>
     (\<exists>k. conns s (m_new_connection s) = Some k \<and> awaiting k) \<and>
     (\<forall>c k. conns s c = Some k \<longrightarrow> length (m_buffer k) = s_http_recv_buf) \<and>
     (\<forall>c. outstanding s c \<le> 1 \<and> (c \<in> m_connections s \<longrightarrow> outstanding s c = 1)) \<and>
     (\<forall>c. 1 \<le> c \<and> c < m_new_connection s \<longrightarrow> lifecycle s c = 1) \<and>
     (\<forall>c. c = 0 \<or> m_new_connection s \<le> c \<longrightarrow> lifecycle s c = 0 \<and> outstanding s c = 0) \<and>
     count (pending s) Op_accept \<le> 1 \<and>
     (\<forall>op \<in># pending s. op_ok s op)"
section \<open>What a step does to it\<close>

lemma server_invD:
  assumes "server_inv s"
  shows "finite (m_connections s)" "conns s c \<noteq> None \<longleftrightarrow> 1 \<le> c \<and> c \<le> m_new_connection s"
    "conns s c = Some k \<Longrightarrow> length (m_buffer k) = s_http_recv_buf"
    "outstanding s c \<le> 1" "c \<in> m_connections s \<Longrightarrow> outstanding s c = 1"
    "1 \<le> c \<Longrightarrow> c < m_new_connection s \<Longrightarrow> lifecycle s c = 1"
    "c = 0 \<or> m_new_connection s \<le> c \<Longrightarrow> lifecycle s c = 0 \<and> outstanding s c = 0"
    "count (pending s) Op_accept \<le> 1" "op \<in># pending s \<Longrightarrow> op_ok s op"
    "\<exists>k. conns s (m_new_connection s) = Some k \<and> awaiting k"
  using assms unfolding server_inv_def by simp_all (elim conjE disjE; simp)

lemma outstanding_pos: "op \<in># pending s \<Longrightarrow> io_of op = Some c \<Longrightarrow> 1 \<le> outstanding s c"
  using outstanding_finish[of op s c] by simp

lemma io_unique:
  assumes "outstanding s c \<le> 1" and "op \<in># pending s" and "io_of op = Some c"
    and "op' \<in># pending (finish_op op s)"
  shows "io_of op' \<noteq> Some c"
proof
  assume "io_of op' = Some c"
  then have "1 \<le> outstanding (finish_op op s) c" using outstanding_pos assms(4) by blast
  then show False using outstanding_finish[OF assms(2), of c] assms(1,3) by simp
qed

text \<open>A handler that ends by starting another operation on its connection.\<close>

lemma inv_continue:
  assumes inv: "server_inv s" and op: "op \<in># pending s" "io_of op = Some c" "io_of op' = Some c"
    and s': "pending s' = add_mset op' (pending s - {#op#})" "m_connections s' = m_connections s"
      "m_new_connection s' = m_new_connection s" "conns s' = (conns s)(c \<mapsto> k')"
    and k: "conns s c = Some k" "socket_open k' = socket_open k" "length (m_buffer k') = s_http_recv_buf"
    and ok: "op_ok s' op'"
  shows "server_inv s'"
proof -
  define t where "t = finish_op op s"
  have pt: "pending s' = add_mset op' (pending t)" using s'(1) by (simp add: t_def finish_op_def)
  have out: "outstanding s' d = outstanding s d" for d
    using outstanding_finish[OF op(1), of d] op(2,3) pt by (simp add: outstanding_def t_def)
  have notclose: "op \<noteq> Op_close d" "op' \<noteq> Op_close d" "op \<noteq> Op_accept" "op' \<noteq> Op_accept" for d using op(2,3) by auto
  have clo: "closing s' d = closing s d" for d
    using closing_finish[OF op(1), of d] notclose pt by (simp add: closing_def t_def)
  have sc: "socket_closed s' d = socket_closed s d" for d
    using k(1,2) s'(4) by (auto simp: socket_closed_def)
  have life: "lifecycle s' d = lifecycle s d" for d using clo sc s'(2) by (simp add: lifecycle_def)
  have acc: "count (pending s') Op_accept = count (pending s) Op_accept"
    using notclose s'(1) op(1) by (simp add: count_add_mset)
  have ops: "op_ok s' x" if "x \<in># pending s'" for x
  proof (cases "x = op'")
    case False
    then have x: "x \<in># pending t" using that pt by simp
    then have "x \<in># pending s" by (auto simp: t_def finish_op_def dest: in_diffD)
    then have "op_ok s x" by (rule server_invD(9)[OF inv])
    moreover have "io_of x \<noteq> Some c"
      by (rule io_unique[OF server_invD(4)[OF inv] op(1,2)]) (use x in \<open>simp add: t_def\<close>)
    ultimately show ?thesis using s'(4) by (cases x) (auto simp: op_ok_def)
  qed (simp add: ok)
  have dom: "conns s' d \<noteq> None \<longleftrightarrow> 1 \<le> d \<and> d \<le> m_new_connection s'" for d
    using server_invD(2)[OF inv, of d] k(1) s'(3,4) by (cases "d = c") auto
  have buf: "length (m_buffer x) = s_http_recv_buf" if "conns s' d = Some x" for d x
    using that server_invD(3)[OF inv, of d x] k(3) s'(4) by (cases "d = c") auto
  have "c \<noteq> m_new_connection s"
    using server_invD(7)[OF inv, of c] outstanding_pos[OF op(1,2)] by auto
  then have new: "\<exists>k. conns s' (m_new_connection s) = Some k \<and> awaiting k"
    using server_invD(10)[OF inv] s'(4) by simp
  show ?thesis
    unfolding server_inv_def out life acc s'(2,3)
    using server_invD(1,4-8)[OF inv] dom buf ops new s'(3) by auto
qed

lemma inv_finish_stop:
  assumes inv: "server_inv s" and op: "op \<in># pending s" "io_of op = Some c"
  shows "server_inv (Manager_Stop c (finish_op op s))"
proof -
  define t where "t = finish_op op s"
  define s' where "s' = Manager_Stop c t"
  have t: "m_connections t = m_connections s" "conns t = conns s" "m_new_connection t = m_new_connection s"
    by (simp_all add: t_def finish_op_def)
  have mgd: "m_connections s' = m_connections s - {c}"
    using server_manager.managed_stop[of c t] t(1) by (simp add: s'_def)
  have same: "conns s' = conns s" "m_new_connection s' = m_new_connection s"
    using t by (simp_all add: s'_def Manager_Stop_def Connection_Stop_def start_op_def)
  have notclose: "op \<noteq> Op_close d" for d using op(2) by auto
  have bal: "closing s' d + (if d \<in> m_connections s' then 1 else 0) = closing s d + (if d \<in> m_connections s then 1 else 0)" for d
    using server_manager.stop_balance[of c t d] closing_finish[OF op(1), of d] notclose t(1)
    by (simp add: s'_def t_def)
  have life: "lifecycle s' d = lifecycle s d" for d
    using bal[of d] same(1) by (simp add: lifecycle_def socket_closed_def)
  have out: "outstanding s' d = (if d = c then outstanding s d - 1 else outstanding s d)" for d
    using outstanding_finish[OF op(1), of d] op(2)
    by (auto simp: s'_def t_def Manager_Stop_def Connection_Stop_def outstanding_def start_op_def)
  have sub: "x \<in># pending s \<or> x = Op_close c" if "x \<in># pending s'" for x
    using that by (auto simp: s'_def t_def Manager_Stop_def Connection_Stop_def start_op_def finish_op_def
        dest: in_diffD split: if_splits)
  have ops: "op_ok s' x" if "x \<in># pending s'" for x
    using sub[OF that] server_invD(9)[OF inv, of x] same(1) by (cases x) (auto simp: op_ok_def)
  have acc: "count (pending s') Op_accept \<le> 1"
    using server_invD(8)[OF inv]
    by (auto simp: s'_def t_def Manager_Stop_def Connection_Stop_def start_op_def finish_op_def)
  show ?thesis
    unfolding s'_def[symmetric] t_def[symmetric] server_inv_def life mgd same
    using server_invD(1-8,10)[OF inv] ops acc by (auto simp: out same intro: le_SucI)
qed

text \<open>Telling a set of managed connections to stop: the monitor and the shutdown.\<close>

lemma inv_stop_set:
  assumes inv: "server_inv s" and A: "A \<subseteq> m_connections s"
    and s': "pending s' = pending s + image_mset Op_close (mset_set A)" "m_connections s' = m_connections s - A"
      "conns s' = conns s" "m_new_connection s' = m_new_connection s"
  shows "server_inv s'"
proof -
  have fin: "finite A" using A server_invD(1)[OF inv] by (rule finite_subset)
  have out: "outstanding s' d = outstanding s d" for d
    by (simp add: outstanding_def s'(1) filter_mset_image_mset)
  have life: "lifecycle s' d = lifecycle s d" for d
    using A count_image_Op_close[OF fin, of d] by (auto simp: lifecycle_def closing_def s' socket_closed_def)
  have "count (image_mset Op_close (mset_set A)) Op_accept = 0"
    by (simp add: count_eq_zero_iff image_iff)
  then have acc: "count (pending s') Op_accept \<le> 1" using server_invD(8)[OF inv] by (simp add: s'(1))
  have ops: "op_ok s' x" if "x \<in># pending s'" for x
    using that server_invD(9)[OF inv, of x] s'(3) by (cases x) (auto simp: s'(1) op_ok_def)
  show ?thesis
    unfolding server_inv_def out life s'(2-4)
    using server_invD(1-7,10)[OF inv] ops acc by auto
qed

lemma inv_close:
  assumes inv: "server_inv s" and op: "Op_close c \<in># pending s"
  shows "server_inv (DoClose c (finish_op (Op_close c) s))"
proof -
  define s' where "s' = DoClose c (finish_op (Op_close c) s)"
  have s': "pending s' = pending s - {#Op_close c#}" "m_connections s' = m_connections s"
    "m_new_connection s' = m_new_connection s"
    "conns s' = (conns s)(c := map_option (\<lambda>k. k\<lparr>socket_open := False\<rparr>) (conns s c))"
    by (simp_all add: s'_def DoClose_def finish_op_def)
  have posted: "1 \<le> closing s c" using op by (simp add: closing_def)
  have started: "1 \<le> c" "c < m_new_connection s"
  proof -
    from posted have "lifecycle s c \<noteq> 0" by (simp add: lifecycle_def)
    then show "1 \<le> c" "c < m_new_connection s"
      using server_invD(7)[OF inv, of c] by (metis One_nat_def Suc_leI not_le neq0_conv)+
  qed
  obtain k where k: "conns s c = Some k" using server_invD(2)[OF inv, of c] started by auto
  have out: "outstanding s' d = outstanding s d" for d
    using outstanding_finish[OF op, of d] by (simp add: outstanding_def s'(1) finish_op_def)
  have life: "lifecycle s' d = lifecycle s d" for d
  proof (cases "d = c")
    case True
    have "lifecycle s c = 1" using server_invD(6)[OF inv started] .
    then have "closing s c = 1" "c \<notin> m_connections s" "\<not> socket_closed s c"
      using posted by (auto simp: lifecycle_def split: if_splits)
    then show ?thesis using True s' k by (auto simp: lifecycle_def closing_def socket_closed_def)
  next
    case False
    then show ?thesis using s' by (simp add: lifecycle_def closing_def socket_closed_def)
  qed
  have dom: "conns s' d \<noteq> None \<longleftrightarrow> 1 \<le> d \<and> d \<le> m_new_connection s" for d
    using server_invD(2)[OF inv, of d] k s'(4) by (cases "d = c") auto
  have buf: "length (m_buffer x) = s_http_recv_buf" if "conns s' d = Some x" for d x
    using that server_invD(3)[OF inv, of d] k s'(4) by (cases "d = c") auto
  have acc: "count (pending s') Op_accept \<le> 1" using server_invD(8)[OF inv] by (simp add: s'(1))
  have ops: "op_ok s' x" if "x \<in># pending s'" for x
  proof -
    have "x \<in># pending s" using that by (auto simp: s'(1) dest: in_diffD)
    then have "op_ok s x" by (rule server_invD(9)[OF inv])
    then show ?thesis using s'(4) k by (cases x) (auto simp: op_ok_def awaiting_def answering_def)
  qed
  have new: "\<exists>k. conns s' (m_new_connection s) = Some k \<and> awaiting k"
    using server_invD(10)[OF inv] s'(4) started by simp
  show ?thesis
    unfolding s'_def[symmetric] server_inv_def out life s'(2,3)
    using server_invD(1,4-7)[OF inv] dom buf acc ops new by auto
qed

text \<open>The connection of the next accept, and the start of an accepted one.\<close>

lemma fresh_new_Connection: "fresh_request (m_request (new_Connection mem now))"
  by (simp add: new_Connection_def fresh_request_def)

lemma inv_start_accept:
  assumes fin: "finite (m_connections s)" and dom: "\<And>c. conns s c \<noteq> None \<longleftrightarrow> 1 \<le> c \<and> c \<le> m_new_connection s"
    and buf: "\<And>c k. conns s c = Some k \<Longrightarrow> length (m_buffer k) = s_http_recv_buf"
    and out: "\<And>c. outstanding s c \<le> 1 \<and> (c \<in> m_connections s \<longrightarrow> outstanding s c = 1)"
    and life: "\<And>c. 1 \<le> c \<Longrightarrow> c \<le> m_new_connection s \<Longrightarrow> lifecycle s c = 1"
    and rest: "\<And>c. c = 0 \<or> m_new_connection s < c \<Longrightarrow> lifecycle s c = 0 \<and> outstanding s c = 0"
    and acc: "Op_accept \<notin># pending s" and ops: "\<And>op. op \<in># pending s \<Longrightarrow> op_ok s op" and mem: "conn_memory mem"
  shows "server_inv (StartAcceptConnection mem now s)"
proof -
  define n where "n = Suc (m_new_connection s)"
  define s' where "s' = StartAcceptConnection mem now s"
  have s': "pending s' = add_mset Op_accept (pending s)" "m_connections s' = m_connections s"
    "m_new_connection s' = n" "conns s' = (conns s)(n \<mapsto> new_Connection mem now)"
    by (simp_all add: s'_def StartAcceptConnection_def Let_def start_op_def put_conn_def n_def)
  have new: "conns s n = None" using dom[of n] by (simp add: n_def)
  have out': "outstanding s' d = outstanding s d" for d by (simp add: outstanding_def s'(1))
  have sc: "socket_closed s' d = socket_closed s d" for d
    using new by (auto simp: socket_closed_def s'(4) new_Connection_def)
  have life': "lifecycle s' d = lifecycle s d" for d by (simp add: lifecycle_def closing_def s'(1,2) sc)
  have ops': "op_ok s' x" if "x \<in># pending s'" for x
  proof (cases "x = Op_accept")
    case False
    then have "op_ok s x" using that ops by (simp add: s'(1))
    then show ?thesis using new by (cases x) (auto simp: op_ok_def s'(4))
  qed (simp add: op_ok_def)
  show ?thesis
    unfolding s'_def[symmetric] server_inv_def out' life' s'(2,3)
  proof (intro conjI allI impI ballI)
    show "finite (m_connections s)" by (rule fin)
    show "(conns s' c \<noteq> None) = (1 \<le> c \<and> c \<le> n)" for c using dom[of c] by (auto simp: s'(4) n_def)
    show "length (m_buffer k) = s_http_recv_buf" if "conns s' c = Some k" for c k
      using that buf[of c k] mem by (auto simp: s'(4) new_Connection_def conn_memory_def split: if_splits)
    show "outstanding s c \<le> 1" "c \<in> m_connections s \<Longrightarrow> outstanding s c = 1" for c using out[of c] by auto
    show "lifecycle s c = 1" if "1 \<le> c \<and> c < n" for c using that life[of c] by (simp add: n_def)
    show "lifecycle s c = 0" "outstanding s c = 0" if "c = 0 \<or> n \<le> c" for c
      using that rest[of c] by (auto simp: n_def)
    show "\<exists>k. conns s' n = Some k \<and> awaiting k"
      using fresh_new_Connection[of mem now] by (simp add: s'(4) awaiting_def) (simp add: new_Connection_def new_request_parser_def)
    show "count (pending s') Op_accept \<le> 1" using acc by (simp add: s'(1) not_in_iff)
    show "op_ok s' x" if "x \<in># pending s'" for x using that by (rule ops')
  qed
qed

lemma inv_new_server: "conn_memory mem \<Longrightarrow> server_inv (new_server mem now w)"
  unfolding new_server_def
  by (rule inv_start_accept) (auto simp: outstanding_def lifecycle_def closing_def socket_closed_def)

lemma inv_accept:
  assumes inv: "server_inv s" and op: "Op_accept \<in># pending s" and mem: "conn_memory mem"
  shows "server_inv (HandleNewConnection e remote mem now (finish_op Op_accept s))"
proof -
  define t where "t = finish_op Op_accept s"
  define c where "c = m_new_connection s"
  have t: "pending t = pending s - {#Op_accept#}" "m_connections t = m_connections s" "conns t = conns s"
    "m_new_connection t = c" "acceptor_open t = acceptor_open s"
    by (simp_all add: t_def finish_op_def c_def)
  have out: "outstanding t d = outstanding s d" for d
    using outstanding_finish[OF op, of d] by (simp add: t_def)
  have life: "lifecycle t d = lifecycle s d" for d
    using closing_finish[OF op, of d] by (simp add: t_def[symmetric] lifecycle_def socket_closed_def t(2,3))
  have none: "Op_accept \<notin># pending t"
    using server_invD(8)[OF inv] op by (simp add: t(1) not_in_iff)
  have ops: "op_ok t x" if "x \<in># pending t" for x
  proof -
    have "x \<in># pending s" using that by (auto simp: t(1) dest: in_diffD)
    then have "op_ok s x" by (rule server_invD(9)[OF inv])
    then show ?thesis by (cases x) (auto simp: op_ok_def t(3))
  qed
  have inv_t: "server_inv t"
    unfolding server_inv_def out life t(2-4)
    using server_invD(1-7,10)[OF inv] none ops by (auto simp: c_def not_in_iff t(3))
  show ?thesis
  proof (cases "acceptor_open t \<and> \<not> e")
    case False
    then show ?thesis using inv_t by (auto simp: HandleNewConnection_def t_def[symmetric])
  next
    case True
    define u where "u = Manager_Start c remote t"
    have u: "pending u = add_mset (if remote then Op_read c else Op_close c) (pending t)"
      "m_connections u = (if remote then insert c (m_connections t) else m_connections t)"
      "conns u = conns t" "m_new_connection u = c"
      by (auto simp: u_def Manager_Start_def Connection_Start_def Connection_Stop_def start_op_def t(4))
    obtain k where k: "conns t c = Some k" "awaiting k" using server_invD(10)[OF inv_t] t(4) by auto
    have c0: "outstanding t c = 0" "closing t c = 0" "c \<notin> m_connections t" "\<not> socket_closed t c" "1 \<le> c"
      using server_invD(7)[OF inv_t, of c] server_invD(2)[OF inv_t, of c] t(4) k(1)
      by (auto simp: lifecycle_def split: if_splits)
    have out_u: "outstanding u d = outstanding t d + (if d = c \<and> remote then 1 else 0)" for d
      by (auto simp: outstanding_def u(1))
    have life_u: "lifecycle u d = lifecycle t d + (if d = c then 1 else 0)" for d
      using c0(2-4) by (auto simp: lifecycle_def closing_def u socket_closed_def)
    have "server_inv (StartAcceptConnection mem now u)"
    proof (rule inv_start_accept)
      show "finite (m_connections u)" using server_invD(1)[OF inv_t] by (simp add: u(2))
      show "conns u d \<noteq> None \<longleftrightarrow> 1 \<le> d \<and> d \<le> m_new_connection u" for d
        using server_invD(2)[OF inv_t, of d] by (simp add: u(3,4) t(4))
      show "length (m_buffer x) = s_http_recv_buf" if "conns u d = Some x" for d x
        using that server_invD(3)[OF inv_t, of d] by (simp add: u(3))
      show "outstanding u d \<le> 1 \<and> (d \<in> m_connections u \<longrightarrow> outstanding u d = 1)" for d
        using server_invD(4)[OF inv_t, of d] server_invD(5)[OF inv_t, of d] c0 by (auto simp: out_u u(2))
      show "lifecycle u d = 1" if "1 \<le> d" "d \<le> m_new_connection u" for d
        using that server_invD(6)[OF inv_t, of d] server_invD(7)[OF inv_t, of d] by (auto simp: life_u u(4) t(4))
      show "lifecycle u d = 0 \<and> outstanding u d = 0" if "d = 0 \<or> m_new_connection u < d" for d
        using that server_invD(7)[OF inv_t, of d] c0(5) by (auto simp: life_u out_u u(4) t(4))
      show "Op_accept \<notin># pending u" using none by (simp add: u(1))
      show "op_ok u x" if "x \<in># pending u" for x
        using that ops[of x] k by (cases x) (auto simp: u(1,3) op_ok_def split: if_splits)
    qed (rule mem)
    then show ?thesis using True by (simp add: HandleNewConnection_def t_def[symmetric] u_def t(4))
  qed
qed

section \<open>The read handler\<close>

lemma parse_pc:
  assumes "parse B p r mem len = Some (Indeterminate, p', r')"
  shows "pc p' = P_header \<or> pc p' = P_body"
  using assms
  by (auto simp: parse_def prase_http.simps collect_head_def parse_head_def receive_content_def Let_def
      split: parser_pc.splits strstr_result.splits option.splits prod.splits bool.splits if_splits)

lemma fresh_request_Reset [simp]: "fresh_request (request_Reset r)"
  by (simp add: fresh_request_def request_Reset_def)

lemma length_fill_buffer: "length dat \<le> length buf \<Longrightarrow> length (fill_buffer buf dat) = length buf"
  by (simp add: fill_buffer_def)

text \<open>A read handler that returns ends by starting a write or another read on its connection.\<close>

lemma HandleRead_effect:
  assumes "HandleRead B H now c dat t = Some s'" and "conns t c = Some k" and "length (m_buffer k) = s_http_recv_buf"
    and "length dat \<le> s_http_recv_buf"
  shows "\<exists>op' k'. io_of op' = Some c \<and> pending s' = add_mset op' (pending t) \<and> m_connections s' = m_connections t \<and>
    m_new_connection s' = m_new_connection t \<and> acceptor_open s' = acceptor_open t \<and>
    conns s' = (conns t)(c \<mapsto> k') \<and> socket_open k' = socket_open k \<and>
    length (m_buffer k') = s_http_recv_buf \<and> op_ok s' op'"
proof -
  define k1 where "k1 = UpdateActivieTime now (k\<lparr>m_buffer := fill_buffer (m_buffer k) dat\<rparr>)"
  have k1: "socket_open k1 = socket_open k" "length (m_buffer k1) = s_http_recv_buf"
    using assms(3,4) by (simp_all add: k1_def UpdateActivieTime_def length_fill_buffer)
  obtain res p r where parse: "parse B (m_request_parser k1) (m_request k1) (m_buffer k1) (length dat) = Some (res, p, r)"
    using assms(1,2) unfolding k1_def by (auto simp: HandleRead_def Let_def split: option.splits)
  have hr: "HandleRead B H now c dat t =
    (case (res, p, r) of
       (Tri_true, p, r) \<Rightarrow>
         (let k2 = k1\<lparr>m_request := r, m_request_parser := new_request_parser\<rparr>;
              k2 = (if \<not> m_is_long_connection k2 then k2\<lparr>m_is_long_connection := RequestKeepAlive B k2\<rparr> else k2);
              (rep, w) = HandleRequest B H (m_request k2) (m_reply k2) (world t);
              k3 = k2\<lparr>m_reply := rep\<rparr>
          in Some (put_conn c (k3\<lparr>m_request := request_Reset (m_request k3)\<rparr>) (Reply c k3 (t\<lparr>world := w\<rparr>))))
     | (Tri_false, p, r) \<Rightarrow>
         if NUL \<notin> set (m_buffer k1) then None
         else (let k2 = k1\<lparr>m_request := r, m_request_parser := p, m_reply := stock_reply B bad_request\<rparr>
               in Some (put_conn c (k2\<lparr>m_request := request_Reset (m_request k2)\<rparr>) (Reply c k2 t)))
     | (Indeterminate, p, r) \<Rightarrow>
         Some (start_op (Op_read c) (put_conn c (k1\<lparr>m_request := r, m_request_parser := p\<rparr>) t)))"
    using assms(2) parse by (simp add: HandleRead_def k1_def[symmetric] Let_def)
  have reply_op: "\<exists>op' k'. io_of op' = Some c \<and> pending s' = add_mset op' (pending t) \<and> m_connections s' = m_connections t \<and>
      m_new_connection s' = m_new_connection t \<and> acceptor_open s' = acceptor_open t \<and>
      conns s' = (conns t)(c \<mapsto> k') \<and> socket_open k' = socket_open k \<and>
      length (m_buffer k') = s_http_recv_buf \<and> op_ok s' op'"
    if "s' = put_conn c (k3\<lparr>m_request := request_Reset (m_request k3)\<rparr>) (Reply c k3 (t\<lparr>world := w\<rparr>))"
      "socket_open k3 = socket_open k1" "m_buffer k3 = m_buffer k1"
      "rep_status (m_reply k3) = st_ok \<longrightarrow> m_request_parser k3 = new_request_parser" for k3 w
    by (rule exI[of _ "Op_write c (concat (to_buffers (m_reply k3)))"],
        rule exI[of _ "k3\<lparr>m_request := request_Reset (m_request k3)\<rparr>"])
      (use that k1 in \<open>simp add: put_conn_def Reply_def start_op_def op_ok_def answering_def\<close>)
  show ?thesis
  proof (cases res)
    case Indeterminate
    have "awaiting (k1\<lparr>m_request := r, m_request_parser := p\<rparr>)"
      using parse_pc[OF parse[unfolded Indeterminate]] by (auto simp: awaiting_def)
    moreover have "s' = start_op (Op_read c) (put_conn c (k1\<lparr>m_request := r, m_request_parser := p\<rparr>) t)"
      using assms(1) hr Indeterminate by simp
    ultimately show ?thesis using k1
      by (intro exI[of _ "Op_read c"] exI[of _ "k1\<lparr>m_request := r, m_request_parser := p\<rparr>"])
        (simp add: start_op_def put_conn_def op_ok_def)
  next
    case Tri_false
    let ?k3 = "k1\<lparr>m_request := r, m_request_parser := p, m_reply := stock_reply B bad_request\<rparr>"
    have "s' = put_conn c (?k3\<lparr>m_request := request_Reset (m_request ?k3)\<rparr>) (Reply c ?k3 (t\<lparr>world := world t\<rparr>))"
      using assms(1) hr Tri_false by (simp add: Let_def split: if_splits)
    then show ?thesis by (rule reply_op) (simp_all add: stock_reply_def)
  next
    case Tri_true
    let ?k2 = "k1\<lparr>m_request := r, m_request_parser := new_request_parser\<rparr>"
    let ?k = "if \<not> m_is_long_connection ?k2 then ?k2\<lparr>m_is_long_connection := RequestKeepAlive B ?k2\<rparr> else ?k2"
    obtain rep w where rw: "HandleRequest B H (m_request ?k) (m_reply ?k) (world t) = (rep, w)" by fastforce
    let ?k3 = "?k\<lparr>m_reply := rep\<rparr>"
    have "s' = put_conn c (?k3\<lparr>m_request := request_Reset (m_request ?k3)\<rparr>) (Reply c ?k3 (t\<lparr>world := w\<rparr>))"
      using assms(1) unfolding hr Tri_true prod.case tribool.case Let_def rw by (simp only: option.inject)
    then show ?thesis by (rule reply_op) simp_all
  qed
qed

section \<open>Every reachable state\<close>

lemma HandleWrite_inv:
  assumes inv: "server_inv s" and op: "Op_write c bytes \<in># pending s"
    and h: "HandleWrite c e (finish_op (Op_write c bytes) s) = Some s'"
  shows "server_inv s'"
proof -
  define t where "t = finish_op (Op_write c bytes) s"
  have t: "conns t = conns s" by (simp add: t_def finish_op_def)
  obtain k where k: "conns s c = Some k" "answering k"
    using server_invD(9)[OF inv op] by (auto simp: op_ok_def)
  note stop = inv_finish_stop[OF inv op, of c, simplified]
  have h': "HandleWrite c e t = Some s'" using h by (simp add: t_def)
  show ?thesis
  proof (cases "e = None \<and> rep_status (m_reply k) = st_ok \<and> m_is_long_connection k")
    case True
    then have s': "s' = start_op (Op_read c) t" using h' k t by (simp add: HandleWrite_def)
    have aw: "awaiting k" using k(2) True by (auto simp: answering_def awaiting_def new_request_parser_def)
    show ?thesis
      by (rule inv_continue[OF inv op, where op' = "Op_read c" and k' = k and k = k])
        (use k server_invD(3)[OF inv k(1)] aw in
          \<open>auto simp: s' t_def start_op_def finish_op_def op_ok_def fun_upd_idem\<close>)
  next
    case False
    then have "s' = Manager_Stop c t" using h' k t
      by (auto simp: HandleWrite_def split: option.splits if_splits)
    then show ?thesis using stop by (simp add: t_def)
  qed
qed

lemma step_inv: "step B H s s' \<Longrightarrow> server_inv s \<Longrightarrow> server_inv s'"
proof (induction rule: step.induct)
  case (accepted_connection s mem e remote now)
  then show ?case by (simp add: inv_accept)
next
  case (read_done c s dat now s')
  obtain k where k: "conns s c = Some k" using server_invD(9)[OF read_done(5,1)] by (auto simp: op_ok_def)
  have "conns (finish_op (Op_read c) s) c = Some k" using k by (simp add: finish_op_def)
  from HandleRead_effect[OF read_done(4) this server_invD(3)[OF read_done(5) k] read_done(3)]
  obtain op' k' where eff: "io_of op' = Some c" "pending s' = add_mset op' (pending (finish_op (Op_read c) s))"
    "m_connections s' = m_connections (finish_op (Op_read c) s)"
    "m_new_connection s' = m_new_connection (finish_op (Op_read c) s)"
    "conns s' = (conns (finish_op (Op_read c) s))(c \<mapsto> k')" "socket_open k' = socket_open k"
    "length (m_buffer k') = s_http_recv_buf" "op_ok s' op'"
    by blast
  note eff = eff[unfolded finish_op_def, simplified]
  show ?case by (rule inv_continue[OF read_done(5,1) _ eff(1-5) k eff(6-8)]) simp
next
  case (read_failed c s err)
  then show ?case using inv_finish_stop[of s "Op_read c" c] by (simp add: HandleRead_error_def)
next
  case (write_done c bytes s e s')
  then show ?case using HandleWrite_inv by blast
next
  case (close_done c s)
  then show ?case by (simp add: inv_close)
next
  case (monitor s now)
  then show ?case
    by (rule inv_stop_set[where A = "timed_out now s"]) (auto simp: Monitor_pass_def timed_out_def)
next
  case (stop_signal s)
  then show ?case
    by (rule inv_stop_set[where A = "m_connections s"]) (auto simp: ServerStop_def Manager_StopAll_def)
qed

lemma reachable_inv: "reachable B H s \<Longrightarrow> server_inv s"
  by (induction rule: reachable.induct) (auto intro: inv_new_server step_inv)

end
