(* ===== verification/Http_Parser_Props.thy ===== *)
theory Http_Parser_Props imports Http_Requests begin

text \<open>
  What the request parser of \<^verbatim>\<open>server_base/request_parser.cpp\<close> guarantees to the connection
  that feeds it, and what its callers must not rely on.
\<close>

section \<open>A request for the examples\<close>

definition sample_target :: string where "sample_target = ''QueryFifthOrder''"

definition sample_headers :: "header list" where
  "sample_headers = [\<lparr>h_name = ''Host'', h_value = ''localhost:80''\<rparr>,
     \<lparr>h_name = ''content-length'', h_value = ''3''\<rparr>,
     \<lparr>h_name = ''User-cmd'', h_value = ''QueryFifthOrder''\<rparr>]"

definition sample_body :: string where "sample_body = [NUL, CR, LF]"

lemma sample_target_ok: "target_ok sample_target"
  by (simp add: target_ok_def sample_target_def)

lemma sample_headers_ok: "\<forall>h \<in> set sample_headers. header_ok h"
  by (simp add: sample_headers_def header_ok_def unpadded_def is_space_def)

lemma sample_declares: "declares_length sample_headers 3"
proof -
  have "headers_equal ''content-length'' content_length_name" "\<not> headers_equal ''Host'' content_length_name"
    "\<not> headers_equal ''User-cmd'' content_length_name"
    by code_simp+
  moreover have "decimal 3 = ''3''" by (simp add: decimal.simps digit_char_def) code_simp
  ultimately show ?thesis by (simp add: declares_length_def sample_headers_def)
qed

lemma sample_incoming: "incoming plain_boost blank_request sample_target sample_headers sample_body"
proof -
  have "length (request_head sample_target sample_headers @ sample_body) < 2 ^ 31"
    by (simp add: request_head_def header_line_def sample_target_def sample_headers_def sample_body_def
        name_value_separator_def crlf_def)
  moreover have "fresh_request blank_request" by (simp add: fresh_request_def blank_request_def)
  moreover have "length sample_body = 3" by (simp add: sample_body_def)
  ultimately show ?thesis
    using sample_target_ok sample_headers_ok sample_declares by (simp add: incoming_def)
qed

section \<open>Properties\<close>




text \<open>C33: a well-formed request is refused when its first read ends inside the four bytes that close
  the head and the bytes an earlier request left in the buffer happen to complete them: the code
  computes the length of the content as a negative number, \<^verbatim>\<open>append\<close> throws, and the client
  gets a bad request. Compare the fragmentation property, which excludes exactly this tail.\<close>

theorem stale_bytes_refuse_request:
  assumes "target_ok t" and "\<forall>h \<in> set hs. header_ok h" and "length (request_head t hs) < 2 ^ 31"
    and "j \<in> {1, 2, 3}"
  shows "\<exists>p q. parse B new_request_parser r (request_head t hs @ stale) (length (request_head t hs) - j)
    = Some (Tri_false, p, q)"
proof -
  define len where "len = length (request_head t hs) - j"
  define k where "k = length (request_head t hs) - 4"
  have found: "strstr (request_head t hs @ stale) http_end = Found k"
    unfolding k_def by (rule strstr_head[OF assms(1,2)])
  have k: "k < len" "len < k + 4" "len < 2 ^ 31"
    using assms(3,4) length_request_head[of t hs] by (auto simp: k_def len_def)
  have "header_lines B (request_head t hs @ stale) len 0 q \<noteq> None" for q
    using header_lines_before_end[OF strstr_Found_http_end(2,1)[OF found], of 0] by simp
  from parse_head_beyond[OF k(2) this] show ?thesis
    using found k unfolding len_def[symmetric]
    by (simp add: parse_def prase_http.simps new_request_parser_def) blast
qed

lemma stale_bytes_refuse_request_witness:
  "\<exists>p q. parse plain_boost new_request_parser blank_request (request_head sample_target sample_headers @ ''stale'')
     (length (request_head sample_target sample_headers) - 2) = Some (Tri_false, p, q)"
  by (rule stale_bytes_refuse_request[OF sample_target_ok sample_headers_ok])
    (use sample_incoming in \<open>simp_all add: incoming_def\<close>)

text \<open>C34: what follows a request in the same read belongs to its content: the first part of the
  content is appended whole, the later parts are cut at \<^verbatim>\<open>Content-Length\<close>. The same bytes
  give two contents, depending on where the network cut them.\<close>

theorem pipelined_bytes_join_content:
  assumes "incoming B r t hs body" and "body \<noteq> []" and "length (request_head t hs @ body @ extra) < 2 ^ 31"
  shows "(\<exists>p q. feed B new_request_parser r [(request_head t hs @ body @ extra, stale)] = Some (Tri_true, p, q) \<and>
       req_content q = body @ extra) \<and>
     (\<exists>p q. feed B new_request_parser r [(request_head t hs, stale), (body @ extra, stale)] = Some (Tri_true, p, q) \<and>
       req_content q = body)"
proof -
  define head where "head = request_head t hs"
  have in': "boost_ok B" "target_ok t" "\<forall>h \<in> set hs. header_ok h" "declares_length hs (length body)" "fresh_request r"
    using assms(1) by (simp_all add: incoming_def)
  have whole: "parse B new_request_parser r (head @ rest @ stale) (length (head @ rest)) =
    (let q = parsed_request (r\<lparr>http_req_data := head @ rest\<rparr>) t hs (length body) rest in
     if length body \<le> length rest then Some (Tri_true, new_request_parser\<lparr>pc := P_done\<rparr>, q)
     else Some (Indeterminate, new_request_parser\<lparr>pc := P_body\<rparr>, q))"
    if "length (head @ rest) < 2 ^ 31" for rest
    using that strstr_head[OF in'(2,3), of "rest @ stale"] in'(5) length_request_head[of t hs]
      parse_head_request[OF in'(1-4) _ _ refl that[unfolded head_def], of "r\<lparr>http_req_data := head @ rest\<rparr>" new_request_parser stale]
    by (simp add: parse_def prase_http.simps new_request_parser_def head_def fresh_request_def Let_def)
  define q0 where "q0 = parsed_request (r\<lparr>http_req_data := head\<rparr>) t hs (length body) []"
  have w1: "parse B new_request_parser r (head @ stale) (length head) = Some (Indeterminate, new_request_parser\<lparr>pc := P_body\<rparr>, q0)"
    using whole[of "[]"] assms(2,3) by (simp add: head_def q0_def)
  have w2: "parse B new_request_parser r (head @ body @ extra @ stale) (length head + (length body + length extra)) =
      Some (Tri_true, new_request_parser\<lparr>pc := P_done\<rparr>,
        parsed_request (r\<lparr>http_req_data := head @ body @ extra\<rparr>) t hs (length body) (body @ extra))"
    using whole[of "body @ extra"] assms(3) by (simp add: head_def)
  have w3: "\<exists>p q. parse B (new_request_parser\<lparr>pc := P_body\<rparr>) q0 (body @ extra @ stale) (length body + length extra) =
      Some (Tri_true, p, q) \<and> req_content q = body"
    using assms(2) by (simp add: q0_def parsed_request_def parse_def prase_http.simps receive_content_def Let_def)
  show ?thesis
    using w1 w2 w3 unfolding head_def[symmetric] by (auto simp: parsed_request_def)
qed

lemma pipelined_bytes_join_content_witness:
  "(\<exists>p q. feed plain_boost new_request_parser blank_request
       [(request_head sample_target sample_headers @ sample_body @ ''POST /x'', [])] = Some (Tri_true, p, q) \<and>
       req_content q = sample_body @ ''POST /x'') \<and>
   (\<exists>p q. feed plain_boost new_request_parser blank_request
       [(request_head sample_target sample_headers, []), (sample_body @ ''POST /x'', [])] = Some (Tri_true, p, q) \<and>
       req_content q = sample_body)"
  by (rule pipelined_bytes_join_content[OF sample_incoming])
    (simp_all add: request_head_def header_line_def sample_target_def sample_headers_def sample_body_def
        name_value_separator_def crlf_def)



text \<open> a request whose first line does not begin with \<^verbatim>\<open>POST\<close> and a space is refused, with
  any headers and any content.\<close>

lemma only_post_accepted:
  assumes "mem = l @ crlf @ rest" and "CR \<notin> set l" and "NUL \<notin> set l" and "l \<noteq> []" and "take 5 (l @ crlf) \<noteq> ''POST ''"
    and "strstr mem http_end = Found k" and "k + 4 \<le> len" and "len < 2 ^ 31" and "req_uri r = []"
  shows "\<exists>p q. parse B new_request_parser r mem len = Some (Tri_false, p, q)"
proof -
  have "length l \<le> k"
  proof (rule ccontr)
    assume a: "\<not> length l \<le> k"
    have "take 4 (drop k mem) = http_end" by (rule strstr_Found_http_end(1)[OF assms(6)])
    then have "hd (drop k mem) = CR" by (cases "drop k mem") (simp_all add: http_end_def crlf_def)
    moreover have "hd (drop k mem) = l ! k" using a assms(1) by (simp add: hd_drop_conv_nth nth_append)
    ultimately show False using assms(2) a by (metis not_le nth_mem)
  qed
  moreover have g: "getline_from_buf2 mem 0 = Line (l @ crlf) (0 + length l + 2)"
    by (rule getline_here) (use assms in auto)
  moreover have "int (0 + length l + 2) < to_int32 len" "length (l @ crlf) \<noteq> 2"
    using calculation(1) assms(4,7,8) by (simp_all add: crlf_def)
  ultimately have "header_lines B mem len 0 q = Some (False, q)" if "req_uri q = []" for q
    using assms(5) that by (subst header_lines.simps) simp
  then show ?thesis using assms(6-9)
    by (simp add: parse_def prase_http.simps new_request_parser_def parse_head_def Let_def)
qed

lemma only_post_accepted_witness:
  "\<exists>p q. parse plain_boost new_request_parser blank_request (''GET / HTTP/1.1'' @ crlf @ crlf) 18 =
     Some (Tri_false, p, q)"
proof (rule only_post_accepted[where k = 14 and l = "''GET / HTTP/1.1''" and rest = crlf])
  have "find_sub http_end (''GET / HTTP/1.1'' @ http_end @ []) = Some (length ''GET / HTTP/1.1'')"
    by (rule find_sub_here) (simp_all add: http_end_def crlf_def)
  then show "strstr (''GET / HTTP/1.1'' @ crlf @ crlf) http_end = Found 14"
    using strstr_inside[of "''GET / HTTP/1.1'' @ crlf @ crlf" http_end 14 "[]"] by (simp add: http_end_def crlf_def)
qed (simp_all add: crlf_def blank_request_def)

text \<open>C36: while the content is being received it only grows, never past \<^verbatim>\<open>Content-Length\<close>, and a
  read of \<open>len\<close> bytes brings it \<open>len\<close> bytes closer to the end or completes it; the parser asks for more
  exactly while bytes are missing.\<close>

theorem content_progress:
  assumes "pc p = P_body" and "length (req_content r) < content_length r" and "len \<le> length mem"
  shows "\<exists>res p' r'. parse B p r mem len = Some (res, p', r') \<and>
    length (req_content r') = min (length (req_content r) + len) (content_length r) \<and>
    take (length (req_content r)) (req_content r') = req_content r \<and> content_length r' = content_length r \<and>
    (res = Indeterminate \<longleftrightarrow> length (req_content r') < content_length r') \<and> (res = Indeterminate \<longrightarrow> p' = p)"
  using assms by (simp add: parse_def prase_http.simps receive_content_def Let_def)

lemma content_progress_witness:
  "\<exists>p' r'. parse plain_boost \<lparr>pc = P_body, m_httpheader = []\<rparr> (blank_request\<lparr>content_length := 5\<rparr>) ''abc'' 2 =
    Some (Indeterminate, p', r') \<and> length (req_content r') = 2"
  using content_progress[of "\<lparr>pc = P_body, m_httpheader = []\<rparr>" "blank_request\<lparr>content_length := 5\<rparr>" 2 "''abc''" plain_boost]
  by (auto simp: blank_request_def)

end
