(* ===== verification/Http_Handler_Props.thy ===== *)
theory Http_Handler_Props imports Http_Handler
begin

text \<open>
  What the dispatcher of \<^verbatim>\<open>server_base/handler.cc\<close> and the reply of \<^verbatim>\<open>reply.cpp\<close>
  guarantee: what a client reads back from the socket, which function a request reaches, and what a
  path decodes to.
\<close>

section \<open>Samples\<close>

definition sample_handler :: "nat handler" where
  "sample_handler = REGISTE_HANDLE ''Ping'' (\<lambda>inp w. (''pong '' @ inp, w + 1)) (new_Handler ''docroot'')"

definition sample_request :: "string \<Rightarrow> request" where
  "sample_request u = \<lparr>req_method = ''POST'', req_uri = u, http_version_major = 0, http_version_minor = 0,
     req_headers = [], req_content = ''x'', bheader = True, content_length = 1, http_req_data = [], req_cmd = []\<rparr>"

definition empty_reply :: reply where
  "empty_reply = \<lparr>rep_status = unnamed 0, rep_headers = [], rep_content = []\<rparr>"

definition length_header :: "nat \<Rightarrow> header" where
  "length_header n = \<lparr>h_name = ''Content-Length'', h_value = decimal n\<rparr>"

definition type_header :: "string \<Rightarrow> header" where
  "type_header t = \<lparr>h_name = ''Content-Type'', h_value = t\<rparr>"

lemma clean_length_header [simp]: "clean_header (length_header n)"
proof -
  have "CR \<notin> set (decimal n)" using decimal_digits[of CR n] by (auto simp: is_decimal_def)
  then show ?thesis by (simp add: clean_header_def length_header_def)
qed

lemma clean_type_header [simp]: "CR \<notin> set t \<Longrightarrow> clean_header (type_header t)"
  by (simp add: clean_header_def type_header_def)

lemma to_text_decimal: "boost_ok B \<Longrightarrow> n < 2 ^ 64 \<Longrightarrow> to_text B n = decimal n"
  by (simp add: boost_ok_def)

lemma BuidlReply_headers:
  assumes "boost_ok B" and "length msg < 2 ^ 64"
  shows "rep_headers (BuidlReply B msg rep) = [length_header (length msg), type_header ''text/plain'']"
  using to_text_decimal[OF assms] by (simp add: BuidlReply_def length_header_def type_header_def)

lemma read_BuidlReply:
  assumes "boost_ok B" and "length msg < 2 ^ 64"
  shows "read_reply (wire ((BuidlReply B msg rep)\<lparr>rep_status := st\<rparr>)) =
    Some (status_text st, [length_header (length msg), type_header ''text/plain''], msg)"
  using read_wire[of "(BuidlReply B msg rep)\<lparr>rep_status := st\<rparr>"] BuidlReply_headers[OF assms, of rep]
  by (simp) (simp add: BuidlReply_def)

text \<open>What a request is answered with: its own bytes for an echo, the output of the function otherwise.\<close>

definition answer_of :: "string \<Rightarrow> request \<Rightarrow> string \<Rightarrow> string" where
  "answer_of key req out = (if key = ''echo'' \<or> key = ''/echo'' then http_req_data req else out)"

lemma HandleRequest_found:
  assumes "UrlDecode (req_uri req) = Some path" and "find_handle H path req = Some (key, f)"
    and "f (req_content req) w = (out, w')"
  shows "HandleRequest B H req rep w = (BuidlReply B (answer_of key req out) rep, w')"
  using assms by (auto simp: HandleRequest_def ProccessReqFromHandle_def answer_of_def)

section \<open>Properties\<close>

text \<open>C28: a reply whose header names and values hold no carriage return (and names no colon) reads
  back from the bytes \<^verbatim>\<open>to_buffers\<close> sends as the same status line, the same headers in order and
  the same content, whatever bytes the content has.\<close>

theorem reply_reads_back:
  assumes "\<forall>h \<in> set (rep_headers rep). clean_header h"
  shows "read_reply (concat (to_buffers rep)) = Some (status_text (rep_status rep), rep_headers rep, rep_content rep)"
  using read_wire[OF assms] by (simp add: wire_def)

lemma reply_reads_back_witness:
  "read_reply (concat (to_buffers \<lparr>rep_status = created, rep_headers = [type_header ''a: b''], rep_content = crlf\<rparr>)) =
     Some (''HTTP/1.0 201 Created'', [type_header ''a: b''], crlf)"
  using reply_reads_back[of "\<lparr>rep_status = created, rep_headers = [type_header ''a: b''], rep_content = crlf\<rparr>"]
  by (simp add: status_text_def crlf_def)

text \<open> a request for a registered path (or, when the path is not registered, with a registered
  \<^verbatim>\<open>User-cmd\<close>) runs the function once on its content and is answered with status 200 and a
  \<^verbatim>\<open>Content-Length\<close> that is the length of the body the client reads.\<close>

lemma handled_request_answer:
  assumes "boost_ok B" and "UrlDecode (req_uri req) = Some path" and "find_handle H path req = Some (key, f)"
    and "f (req_content req) w = (out, w')" and "length (answer_of key req out) < 2 ^ 64"
  shows "\<exists>rep'. HandleRequest B H req rep w = (rep', w') \<and>
    read_reply (wire rep') = Some (''HTTP/1.0 200 OK'',
      [length_header (length (answer_of key req out)), type_header ''text/plain''], answer_of key req out)"
proof -
  have "status_text st_ok = ''HTTP/1.0 200 OK''" by (simp add: status_text_def crlf_def)
  moreover have "(BuidlReply B (answer_of key req out) rep)\<lparr>rep_status := st_ok\<rparr> = BuidlReply B (answer_of key req out) rep"
    by (simp add: BuidlReply_def)
  ultimately show ?thesis
    using HandleRequest_found[OF assms(2-4), of B rep] read_BuidlReply[OF assms(1,5), where rep = rep and st = st_ok] by simp
qed

lemma handled_request_answer_witness:
  "\<exists>rep'. HandleRequest plain_boost sample_handler (sample_request ''/Ping'') empty_reply 4 = (rep', 5) \<and>
    read_reply (wire rep') = Some (''HTTP/1.0 200 OK'', [length_header (length ''pong x''), type_header ''text/plain''], ''pong x'')"
  using handled_request_answer[OF plain_boost_ok, of "sample_request ''/Ping''" "''/Ping''" sample_handler
      "''/Ping''" "\<lambda>inp w. (''pong '' @ inp, w + 1)" 4 "''pong x''" 5 empty_reply]
  by (simp add: sample_request_def sample_handler_def REGISTE_HANDLE_def find_handle_def answer_of_def)

text \<open>C37: a request that reaches no function changes nothing but the status of the reply object of
  its connection. On a connection kept open, the answer after a handled request is the 404 line with
  the previous answer's headers and body.\<close>

theorem unknown_path_repeats_last_answer:
  assumes "boost_ok B" and "UrlDecode (req_uri req1) = Some path1" and "find_handle H path1 req1 = Some (key, f)"
    and "f (req_content req1) w = (out, w1)" and "length (answer_of key req1 out) < 2 ^ 64"
    and "UrlDecode (req_uri req2) = Some path2" and "find_handle H path2 req2 = None"
  shows "\<exists>rep1 rep2. HandleRequest B H req1 rep w = (rep1, w1) \<and> HandleRequest B H req2 rep1 w1 = (rep2, w1) \<and>
    read_reply (wire rep2) = Some (''HTTP/1.0 404 Not Found'',
      [length_header (length (answer_of key req1 out)), type_header ''text/plain''], answer_of key req1 out)"
proof -
  have "status_text not_found = ''HTTP/1.0 404 Not Found''" by (simp add: status_text_def crlf_def)
  then show ?thesis
    using HandleRequest_found[OF assms(2-4), of B rep] read_BuidlReply[OF assms(1,5), where rep = rep and st = not_found] assms(6,7)
    by (simp add: HandleRequest_def ProccessReqFromHandle_def)
qed

lemma unknown_path_repeats_last_answer_witness:
  "\<exists>rep1 rep2. HandleRequest plain_boost sample_handler (sample_request ''Ping'') empty_reply 0 = (rep1, 1) \<and>
    HandleRequest plain_boost sample_handler (sample_request ''Pong'') rep1 1 = (rep2, 1) \<and>
    read_reply (wire rep2) = Some (''HTTP/1.0 404 Not Found'', [length_header (length ''pong x''), type_header ''text/plain''], ''pong x'')"
  using unknown_path_repeats_last_answer[OF plain_boost_ok, of "sample_request ''Ping''" "''Ping''" sample_handler
      "''Ping''" "\<lambda>inp w. (''pong '' @ inp, w + 1)" 0 "''pong x''" 1 "sample_request ''Pong''" "''Pong''" empty_reply]
  by (simp add: sample_request_def sample_handler_def REGISTE_HANDLE_def find_handle_def answer_of_def new_Handler_def)

text \<open> a path with a broken percent escape runs no function and is answered with the stock page of
  status 400, whose \<^verbatim>\<open>Content-Length\<close> is the length of the page.\<close>

lemma bad_escape_refused:
  assumes "boost_ok B" and "UrlDecode (req_uri req) = None"
  shows "\<exists>rep'. HandleRequest B H req rep w = (rep', w) \<and>
    read_reply (wire rep') = Some (''HTTP/1.0 400 Bad Request'',
      [length_header (length (stock_content bad_request)), type_header ''text/html''], stock_content bad_request)"
proof -
  have "length (stock_content bad_request) < 2 ^ 64" by (simp add: stock_page_def)
  from to_text_decimal[OF assms(1) this]
  have hs: "rep_headers (stock_reply B bad_request) =
      [length_header (length (stock_content bad_request)), type_header ''text/html'']"
    by (simp add: stock_reply_def length_header_def type_header_def)
  have "status_text bad_request = ''HTTP/1.0 400 Bad Request''" by (simp add: status_text_def crlf_def)
  then show ?thesis using assms(2) read_wire[of "stock_reply B bad_request"] hs
    by (simp add: HandleRequest_def) (simp add: stock_reply_def)
qed

lemma bad_escape_refused_witness:
  "\<exists>rep'. HandleRequest plain_boost sample_handler (sample_request ''a%4'') empty_reply 7 = (rep', 7) \<and>
    read_reply (wire rep') = Some (''HTTP/1.0 400 Bad Request'',
      [length_header (length (stock_content bad_request)), type_header ''text/html''], stock_content bad_request)"
  by (rule bad_escape_refused) (simp_all add: sample_request_def)

text \<open>C31: decoding undoes percent encoding: whichever characters the client escapes (the percent and
  the plus sign among them), the path decodes to the original text, and a decoded path is never longer
  than the encoded one.\<close>

theorem url_decode_encode:
  assumes "\<not> plain (CHR ''%'')" and "\<not> plain (CHR ''+'')"
  shows "UrlDecode (url_encode plain s) = Some s \<and> (\<forall>u v. UrlDecode u = Some v \<longrightarrow> length v \<le> length u)"
  using UrlDecode_encode[OF assms] UrlDecode_length by blast

lemma url_decode_encode_witness:
  "UrlDecode (url_encode (\<lambda>c. c = CHR ''a'') ''a+%'') = Some ''a+%''"
  using url_decode_encode[of "\<lambda>c. c = CHR ''a''" "''a+%''"] by simp

text \<open> the decoder is not strict: one hexadecimal digit followed by any character that is not one
  counts as an escape, and so does a sign or white space followed by a digit.\<close>

lemma url_decode_lenient:
  assumes "d < 16" and "hex_digit c = None" and "\<not> (d = 0 \<and> (c = CHR ''x'' \<or> c = CHR ''X''))" and "is_space b"
  shows "UrlDecode [CHR ''%'', hex_char d, c] = Some [char_of_int (int d)] \<and>
    UrlDecode [CHR ''%'', CHR ''-'', hex_char d] = Some [char_of_int (- int d)] \<and>
    UrlDecode [CHR ''%'', b, hex_char d] = Some [char_of_int (int d)]"
proof -
  have z: "d = 0" if "hex_char d = CHR ''0''"
  proof -
    have "hex_digit (CHR ''0'') = Some d" using hex_digit_char[OF assms(1)] that by simp
    moreover have "hex_digit (CHR ''0'') = Some 0" by (simp add: hex_digit_def)
    ultimately show ?thesis by simp
  qed
  have "read_hex [hex_char d, c] = Some (int d)" "read_hex [CHR ''-'', hex_char d] = Some (- int d)"
    "read_hex [b, hex_char d] = Some (int d)"
    using hex_char_plain[OF assms(1)] assms z
    by (auto simp: read_hex_def hex_number_def is_space_def)
  then show ?thesis by simp
qed

lemma url_decode_lenient_witness:
  "UrlDecode [CHR ''%'', hex_char 1, CHR ''g''] = Some [char_of_int (int 1)] \<and>
    UrlDecode [CHR ''%'', CHR ''-'', hex_char 1] = Some [char_of_int (- int 1)] \<and>
    UrlDecode [CHR ''%'', SP, hex_char 1] = Some [char_of_int (int 1)]"
  by (rule url_decode_lenient) (simp_all add: hex_digit_def is_space_def)

end
