(* ===== verification/Connection_Props.thy ===== *)
theory Connection_Props imports Connection_Inv Http_Parser_Props Http_Handler_Props
begin

text \<open>
  What holds in every state the server of \<^verbatim>\<open>server_base/\<close> can reach, and what a connection
  answers: the properties of \<^verbatim>\<open>connection.cc\<close>, \<^verbatim>\<open>connection_manager.cc\<close> and
  \<^verbatim>\<open>server_base.cc\<close>, with the parser and the dispatcher composed behind them.
\<close>

section \<open>A server with one connection\<close>

definition sample_memory :: conn where
  "sample_memory = \<lparr>m_is_long_connection = True, m_buffer = replicate 4096 NUL, m_request = blank_request,
     m_request_parser = new_request_parser, m_reply = empty_reply, m_active_time = 0, socket_open = False\<rparr>"

text \<open>A server that has just started around a state \<open>w\<close>, and after its first connection.\<close>

definition started_with :: "'w \<Rightarrow> 'w server" where
  "started_with w = new_server sample_memory 0 w"

definition accepted_with :: "'w \<Rightarrow> 'w server" where
  "accepted_with w = HandleNewConnection False True sample_memory 5 (finish_op Op_accept (started_with w))"

lemma sample_memory_ok: "conn_memory sample_memory"
  by (simp add: conn_memory_def sample_memory_def s_http_recv_buf_def)

lemma started_with_pending: "pending (started_with w) = {#Op_accept#}"
  by (simp add: started_with_def new_server_def StartAcceptConnection_def start_op_def put_conn_def)

lemma accepted_with_reachable: "reachable B H (accepted_with w)"
  using reachable.start[OF sample_memory_ok, where w = w and now = 0, folded started_with_def]
  by (rule reachable.step) (simp add: accepted_with_def step.accepted_connection started_with_pending sample_memory_ok)

lemma accepted_with_state: "m_connections (accepted_with w) = {1}" "pending (accepted_with w) = {#Op_accept, Op_read 1#}"
  "m_new_connection (accepted_with w) = 2" "conns (accepted_with w) 1 = Some (new_Connection sample_memory 0)"
  "world (accepted_with w) = w" "acceptor_open (accepted_with w)"
  by (simp_all add: accepted_with_def started_with_def new_server_def StartAcceptConnection_def start_op_def
      put_conn_def finish_op_def HandleNewConnection_def Manager_Start_def Connection_Start_def)

definition sample_accepted :: "nat server" where
  "sample_accepted = accepted_with 0"

lemma sample_accepted_reachable: "reachable B H sample_accepted"
  unfolding sample_accepted_def by (rule accepted_with_reachable)

lemma sample_accepted_state: "m_connections sample_accepted = {1}" "pending sample_accepted = {#Op_accept, Op_read 1#}"
  "m_new_connection sample_accepted = 2" "conns sample_accepted 1 = Some (new_Connection sample_memory 0)"
  "world sample_accepted = 0" "acceptor_open sample_accepted"
  unfolding sample_accepted_def by (rule accepted_with_state)+

lemma sample_accepted_first: "conns sample_accepted (Suc 0) = Some (new_Connection sample_memory 0)"
    "pc (m_request_parser (new_Connection mem now)) = P_start"
  using sample_accepted_state(4) by (simp_all add: new_Connection_def new_request_parser_def)

lemma started_of_lifecycle:
  assumes "server_inv s" and "lifecycle s c \<noteq> 0"
  shows "1 \<le> c" "c < m_new_connection s"
  using server_invD(7)[OF assms(1), of c] assms(2) by (metis One_nat_def Suc_leI neq0_conv, metis not_le)

section \<open>Steps without an accept\<close>

lemma quiet_step:
  assumes "step B H s s'" and "server_inv s" and "Op_accept \<notin># pending s"
  shows "Op_accept \<notin># pending s' \<and> m_connections s' \<subseteq> m_connections s \<and> m_new_connection s' = m_new_connection s"
  using assms
proof (cases rule: step.cases)
  case (read_done c dat now)
  obtain k where k: "conns s c = Some k" using server_invD(9)[OF assms(2) read_done(1)] by (auto simp: op_ok_def)
  have k': "conns (finish_op (Op_read c) s) c = Some k" using k by (simp add: finish_op_def)
  obtain op' where "io_of op' = Some c" "pending s' = add_mset op' (pending (finish_op (Op_read c) s))"
    "m_connections s' = m_connections (finish_op (Op_read c) s)"
    "m_new_connection s' = m_new_connection (finish_op (Op_read c) s)"
    using HandleRead_effect[OF read_done(4) k' server_invD(3)[OF assms(2) k] read_done(3)] by blast
  then show ?thesis using assms(3) by (auto simp: finish_op_def dest: in_diffD)
qed (auto simp: HandleRead_error_def HandleWrite_def Manager_Stop_def Connection_Stop_def start_op_def finish_op_def
    DoClose_def Monitor_pass_def ServerStop_def Manager_StopAll_def image_iff dest: in_diffD
    split: if_splits option.splits)

lemma quiet_steps:
  assumes "(step B H)\<^sup>*\<^sup>* s s'" and "server_inv s" and "Op_accept \<notin># pending s"
  shows "Op_accept \<notin># pending s' \<and> m_connections s' \<subseteq> m_connections s \<and> m_new_connection s' = m_new_connection s \<and> server_inv s'"
  using assms
proof (induction rule: rtranclp_induct)
  case (step y z)
  then show ?case using quiet_step[OF step(2)] step_inv[OF step(2)] by auto
qed simp

lemma stopped_step:
  assumes "step B H s s'" and "server_inv s" and "\<not> acceptor_open s" and "m_connections s = {}"
  shows "\<not> acceptor_open s' \<and> m_connections s' = {} \<and> m_new_connection s' = m_new_connection s"
  using assms
proof (cases rule: step.cases)
  case (read_done c dat now)
  obtain k where k: "conns s c = Some k" using server_invD(9)[OF assms(2) read_done(1)] by (auto simp: op_ok_def)
  have k': "conns (finish_op (Op_read c) s) c = Some k" using k by (simp add: finish_op_def)
  show ?thesis
    using HandleRead_effect[OF read_done(4) k' server_invD(3)[OF assms(2) k] read_done(3)] assms(3,4)
    by (auto simp: finish_op_def)
qed (auto simp: HandleNewConnection_def HandleRead_error_def HandleWrite_def Manager_Stop_def Connection_Stop_def
    start_op_def finish_op_def DoClose_def Monitor_pass_def ServerStop_def Manager_StopAll_def
    split: if_splits option.splits)

lemma stopped_steps:
  assumes "(step B H)\<^sup>*\<^sup>* s s'" and "server_inv s" and "\<not> acceptor_open s" and "m_connections s = {}"
  shows "\<not> acceptor_open s' \<and> m_connections s' = {} \<and> m_new_connection s' = m_new_connection s \<and> server_inv s'"
  using assms
proof (induction rule: rtranclp_induct)
  case (step y z)
  then show ?case using stopped_step[OF step(2)] step_inv[OF step(2)] by auto
qed simp

section \<open>Properties\<close>

text \<open>C15: in every reachable state each connection has at most one read or write in flight, and each
  managed connection exactly one: no two handlers of a connection overlap, and no managed connection is
  forgotten without an operation that will call back.\<close>

theorem one_operation_in_flight:
  assumes "reachable B H s"
  shows "outstanding s c \<le> 1 \<and> (c \<in> m_connections s \<longrightarrow> outstanding s c = 1)"
  using server_invD(4,5)[OF reachable_inv[OF assms]] by blast

lemma one_operation_in_flight_witness:
  "outstanding sample_accepted 1 = 1"
  using one_operation_in_flight[OF sample_accepted_reachable[of plain_boost sample_handler], of 1]
  by (simp add: sample_accepted_state)

text \<open>C20: every connection the server has started is, at any time, in exactly one of three states:
  managed, with no close posted and its socket open; no longer managed, with exactly one close posted;
  or closed. No socket is closed twice and none is dropped without a close.\<close>

theorem connection_lifecycle:
  assumes "reachable B H s" and "1 \<le> c" and "c < m_new_connection s"
  shows "(c \<in> m_connections s \<and> closing s c = 0 \<and> \<not> socket_closed s c) \<or>
    (c \<notin> m_connections s \<and> closing s c = 1 \<and> \<not> socket_closed s c) \<or>
    (c \<notin> m_connections s \<and> closing s c = 0 \<and> socket_closed s c)"
  using server_invD(6)[OF reachable_inv[OF assms(1)] assms(2,3)] by (auto simp: lifecycle_def split: if_splits)

lemma connection_lifecycle_witness:
  "1 \<in> m_connections sample_accepted \<and> closing sample_accepted 1 = 0 \<and> \<not> socket_closed sample_accepted 1"
  using connection_lifecycle[OF sample_accepted_reachable[of plain_boost sample_handler], of 1]
  by (simp add: sample_accepted_state)

text \<open>C23: one failed accept ends accepting: no accept is started again, so however the server goes on
  there is never another connection, although the acceptor stays open.\<close>

theorem accept_error_is_final:
  assumes "reachable B H s" and "Op_accept \<in># pending s"
    and "s1 = HandleNewConnection True remote mem now (finish_op Op_accept s)" and "(step B H)\<^sup>*\<^sup>* s1 s2"
  shows "acceptor_open s1 = acceptor_open s \<and> Op_accept \<notin># pending s2 \<and>
    m_connections s2 \<subseteq> m_connections s \<and> m_new_connection s2 = m_new_connection s"
proof -
  have inv: "server_inv s" by (rule reachable_inv[OF assms(1)])
  have refused: "HandleNewConnection True remote m now t = t" for m and t :: "'a server"
    by (simp add: HandleNewConnection_def)
  have s1: "s1 = finish_op Op_accept s" using assms(3) by (simp add: refused)
  have "Op_accept \<notin># pending s1"
    using server_invD(8)[OF inv] assms(2) by (simp add: s1 finish_op_def not_in_iff)
  moreover have "server_inv s1"
    using inv_accept[OF inv assms(2) sample_memory_ok, of True remote now] by (simp add: s1 refused)
  ultimately show ?thesis using quiet_steps[OF assms(4)] by (simp add: s1) (simp add: finish_op_def)
qed

lemma accept_error_is_final_witness:
  "acceptor_open (HandleNewConnection True True sample_memory 9 (finish_op Op_accept sample_accepted)) = acceptor_open sample_accepted \<and>
    Op_accept \<notin># pending (HandleNewConnection True True sample_memory 9 (finish_op Op_accept sample_accepted)) \<and>
    m_connections (HandleNewConnection True True sample_memory 9 (finish_op Op_accept sample_accepted)) \<subseteq> m_connections sample_accepted \<and>
    m_new_connection (HandleNewConnection True True sample_memory 9 (finish_op Op_accept sample_accepted)) = m_new_connection sample_accepted"
  by (rule accept_error_is_final[OF sample_accepted_reachable[of plain_boost sample_handler] _ refl rtranclp.rtrancl_refl])
    (simp add: sample_accepted_state)



text \<open> a pass of the monitor tells exactly the managed connections to close that have been silent for
  more than 330 seconds, and leaves the others managed.\<close>

lemma monitor_closes_silent:
  assumes "reachable B H s" and "c \<in> m_connections s" and "conns s c = Some k"
  shows "(c \<in> m_connections (Monitor_pass now s) \<longleftrightarrow> now - m_active_time k \<le> 330) \<and>
    closing (Monitor_pass now s) c = (if now - m_active_time k \<le> 330 then 0 else 1)"
proof -
  have inv: "server_inv s" by (rule reachable_inv[OF assms(1)])
  have fin: "finite (timed_out now s)"
    by (rule finite_subset[OF _ server_invD(1)[OF inv]]) (auto simp: timed_out_def)
  have life: "lifecycle s c \<noteq> 0" using assms(2) by (simp add: lifecycle_def)
  from server_invD(6)[OF inv started_of_lifecycle[OF inv life]] have "closing s c = 0" using assms(2) by (simp add: lifecycle_def)
  moreover have "c \<in> timed_out now s \<longleftrightarrow> \<not> now - m_active_time k \<le> 330"
    using assms(2,3) by (auto simp: timed_out_def IsTimeOut_def)
  ultimately show ?thesis
    using assms(2) count_image_Op_close[OF fin, of c] by (auto simp: Monitor_pass_def closing_def)
qed

lemma monitor_closes_silent_witness:
  "(1 \<in> m_connections (Monitor_pass 331 sample_accepted) \<longleftrightarrow> 331 - m_active_time (new_Connection sample_memory 0) \<le> 330) \<and>
    closing (Monitor_pass 331 sample_accepted) 1 =
      (if 331 - m_active_time (new_Connection sample_memory 0) \<le> 330 then 0 else 1)"
  by (rule monitor_closes_silent[OF sample_accepted_reachable[of plain_boost sample_handler]])
    (simp_all add: sample_accepted_state sample_accepted_first)



end
