(* ===== verification/Http_Consume.thy ===== *)
theory Http_Consume imports Http_Requests
begin

text \<open>
  The character-by-character parser \<^verbatim>\<open>request_parser::consume\<close> of
  \<^verbatim>\<open>server_base/request_parser.cpp\<close>, a coroutine that gets one character per call. The class
  keeps it beside \<^verbatim>\<open>prase_http\<close>, which replaced it; its caller is commented out. The points it
  yields at are the constructors of \<open>consume_pc\<close>; where two of them continue at the same test
  (the first and the later rounds of a loop) they are one.
\<close>

section \<open>The coroutine\<close>

datatype consume_pc =
  Co_start | Co_method | Co_uri
| Co_proto_H | Co_proto_T | Co_proto_T2 | Co_proto_P | Co_slash
| Co_major_first | Co_major | Co_minor_first | Co_minor | Co_line_lf
| Co_headers | Co_indent | Co_name | Co_colon_space | Co_value | Co_value_lf
| Co_last_lf | Co_content | Co_complete

record consumer =
  co_pc :: consume_pc
  co_length :: nat
  co_request :: request

text \<open>
  The three ways out of a call: yield with the result indeterminate, return false, and reach the end.
  Leaving without a yield completes the coroutine; a further call then returns true at once.
\<close>

definition yield_at :: "consume_pc \<Rightarrow> nat \<Rightarrow> request \<Rightarrow> (tribool \<times> consumer) option" where
  "yield_at p n req = Some (Indeterminate, \<lparr> co_pc = p, co_length = n, co_request = req \<rparr>)"

definition refuse :: "nat \<Rightarrow> request \<Rightarrow> (tribool \<times> consumer) option" where
  "refuse n req = Some (Tri_false, \<lparr> co_pc = Co_complete, co_length = n, co_request = req \<rparr>)"

definition complete :: "nat \<Rightarrow> request \<Rightarrow> (tribool \<times> consumer) option" where
  "complete n req = Some (Tri_true, \<lparr> co_pc = Co_complete, co_length = n, co_request = req \<rparr>)"

definition token_char :: "char \<Rightarrow> bool" where
  "token_char c \<longleftrightarrow> is_char (char_int c) \<and> \<not> is_ctl (char_int c) \<and> \<not> is_tspecial (char_int c)"

definition expect :: "char \<Rightarrow> consume_pc \<Rightarrow> nat \<Rightarrow> request \<Rightarrow> char \<Rightarrow> (tribool \<times> consumer) option" where
  "expect ch p n req c = (if c \<noteq> ch then refuse n req else yield_at p n req)"

definition method_loop :: "nat \<Rightarrow> request \<Rightarrow> char \<Rightarrow> (tribool \<times> consumer) option" where
  "method_loop n req c =
     (if token_char c \<and> c \<noteq> SP then yield_at Co_method n (req\<lparr>req_method := req_method req @ [c]\<rparr>)
      else if req_method req = [] then refuse n req
      else expect SP Co_uri n req c)"

definition uri_loop :: "nat \<Rightarrow> request \<Rightarrow> char \<Rightarrow> (tribool \<times> consumer) option" where
  "uri_loop n req c =
     (if \<not> is_ctl (char_int c) \<and> c \<noteq> SP then yield_at Co_uri n (req\<lparr>req_uri := req_uri req @ [c]\<rparr>)
      else if req_uri req = [] then refuse n req
      else expect SP Co_proto_H n req c)"

text \<open>
  \<^verbatim>\<open>version * 10 + c - '0'\<close> in \<^verbatim>\<open>int\<close>: None when the sum leaves the range.
\<close>

definition add_digit :: "int \<Rightarrow> char \<Rightarrow> int option" where
  "add_digit v c = (if v * 10 + char_int c \<ge> 2 ^ 31 then None else Some (v * 10 + char_int c - char_int (CHR ''0'')))"

definition major_loop :: "nat \<Rightarrow> request \<Rightarrow> char \<Rightarrow> (tribool \<times> consumer) option" where
  "major_loop n req c =
     (if is_digit (char_int c) then
        (case add_digit (http_version_major req) c of
           None \<Rightarrow> None
         | Some v \<Rightarrow> yield_at Co_major n (req\<lparr>http_version_major := v\<rparr>))
      else expect (CHR ''.'') Co_minor_first n req c)"

definition minor_loop :: "nat \<Rightarrow> request \<Rightarrow> char \<Rightarrow> (tribool \<times> consumer) option" where
  "minor_loop n req c =
     (if is_digit (char_int c) then
        (case add_digit (http_version_minor req) c of
           None \<Rightarrow> None
         | Some v \<Rightarrow> yield_at Co_minor n (req\<lparr>http_version_minor := v\<rparr>))
      else expect CR Co_line_lf n req c)"

text \<open>\<^verbatim>\<open>req.headers.back()\<close>, changed.\<close>

definition change_last :: "(header \<Rightarrow> header) \<Rightarrow> request \<Rightarrow> request" where
  "change_last f req = req\<lparr>req_headers := butlast (req_headers req) @ [f (last (req_headers req))]\<rparr>"

definition name_loop :: "nat \<Rightarrow> request \<Rightarrow> char \<Rightarrow> (tribool \<times> consumer) option" where
  "name_loop n req c =
     (if token_char c \<and> c \<noteq> CHR '':''
      then yield_at Co_name n (change_last (\<lambda>h. h\<lparr>h_name := h_name h @ [c]\<rparr>) req)
      else expect (CHR '':'') Co_colon_space n req c)"

definition value_loop :: "nat \<Rightarrow> request \<Rightarrow> char \<Rightarrow> (tribool \<times> consumer) option" where
  "value_loop n req c =
     (if is_char (char_int c) \<and> \<not> is_ctl (char_int c) \<and> c \<noteq> CR
      then yield_at Co_value n (change_last (\<lambda>h. h\<lparr>h_value := h_value h @ [c]\<rparr>) req)
      else expect CR Co_value_lf n req c)"

definition headers_loop :: "nat \<Rightarrow> request \<Rightarrow> char \<Rightarrow> (tribool \<times> consumer) option" where
  "headers_loop n req c =
     (if (token_char c \<and> c \<noteq> CR) \<or> (c = SP \<or> c = TAB) then
        (if c = SP \<or> c = TAB then
           (if req_headers req = [] then refuse n req else yield_at Co_indent n req)
         else name_loop n (req\<lparr>req_headers := req_headers req @ [\<lparr> h_name = [], h_value = [] \<rparr>]\<rparr>) c)
      else expect CR Co_last_lf n req c)"

text \<open>
  The loop over the headers for \<^verbatim>\<open>Content-Length\<close>: \<open>Inl\<close> is the return of false, with
  the value \<^verbatim>\<open>content_length_\<close> has by then.
\<close>

fun declared_length :: "boost \<Rightarrow> header list \<Rightarrow> nat \<Rightarrow> nat + nat" where
  "declared_length B [] n = Inr n"
| "declared_length B (h # hs) n =
     (if headers_equal (h_name h) content_length_name then
        (case to_size B (h_value h) of None \<Rightarrow> Inl n | Some m \<Rightarrow> declared_length B hs m)
      else declared_length B hs n)"

definition content_loop :: "nat \<Rightarrow> request \<Rightarrow> (tribool \<times> consumer) option" where
  "content_loop n req =
     (if length (req_content req) < n then yield_at Co_content n req else complete n req)"

definition consume :: "boost \<Rightarrow> consumer \<Rightarrow> char \<Rightarrow> (tribool \<times> consumer) option" where
  "consume B s c =
     (let n = co_length s; req = co_request s in
      case co_pc s of
        Co_start \<Rightarrow>
          method_loop 0 (req\<lparr>req_method := [], req_uri := [], http_version_major := 0,
            http_version_minor := 0, req_headers := [], req_content := []\<rparr>) c
      | Co_method \<Rightarrow> method_loop n req c
      | Co_uri \<Rightarrow> uri_loop n req c
      | Co_proto_H \<Rightarrow> expect (CHR ''H'') Co_proto_T n req c
      | Co_proto_T \<Rightarrow> expect (CHR ''T'') Co_proto_T2 n req c
      | Co_proto_T2 \<Rightarrow> expect (CHR ''T'') Co_proto_P n req c
      | Co_proto_P \<Rightarrow> expect (CHR ''P'') Co_slash n req c
      | Co_slash \<Rightarrow> expect (CHR ''/'') Co_major_first n req c
      | Co_major_first \<Rightarrow> if \<not> is_digit (char_int c) then refuse n req else major_loop n req c
      | Co_major \<Rightarrow> major_loop n req c
      | Co_minor_first \<Rightarrow> if \<not> is_digit (char_int c) then refuse n req else minor_loop n req c
      | Co_minor \<Rightarrow> minor_loop n req c
      | Co_line_lf \<Rightarrow> expect LF Co_headers n req c
      | Co_headers \<Rightarrow> headers_loop n req c
      | Co_indent \<Rightarrow> if c = SP \<or> c = TAB then yield_at Co_indent n req else value_loop n req c
      | Co_name \<Rightarrow> name_loop n req c
      | Co_colon_space \<Rightarrow> expect SP Co_value n req c
      | Co_value \<Rightarrow> value_loop n req c
      | Co_value_lf \<Rightarrow> expect LF Co_headers n req c
      | Co_last_lf \<Rightarrow>
          if c \<noteq> LF then refuse n req
          else (case declared_length B (req_headers req) n of
                  Inl m \<Rightarrow> refuse m req
                | Inr m \<Rightarrow> content_loop m req)
      | Co_content \<Rightarrow> content_loop n (req\<lparr>req_content := req_content req @ [c]\<rparr>)
      | Co_complete \<Rightarrow> complete n req)"

text \<open>The characters of an input, until the result is known; what is left of the input.\<close>

fun consume_chars :: "boost \<Rightarrow> consumer \<Rightarrow> string \<Rightarrow> (tribool \<times> consumer \<times> string) option" where
  "consume_chars B s [] = Some (Indeterminate, s, [])"
| "consume_chars B s (c # cs) =
     (case consume B s c of
        None \<Rightarrow> None
      | Some (r, s') \<Rightarrow> if r = Indeterminate then consume_chars B s' cs else Some (r, s', cs))"

section \<open>Requests it reads\<close>

text \<open>
  A request as RFC 2616 writes it, and the parts \<^verbatim>\<open>consume\<close> takes: a token for the method
  and for every header name, no control character or blank in the target, no control character in a
  header value, version numbers far enough below the largest \<^verbatim>\<open>int\<close>.
\<close>

definition printed_request :: "string \<Rightarrow> string \<Rightarrow> nat \<Rightarrow> nat \<Rightarrow> header list \<Rightarrow> string" where
  "printed_request m u major minor hs =
     m @ [SP] @ u @ [SP] @ ''HTTP/'' @ decimal major @ [CHR ''.''] @ decimal minor @ crlf @
     concat (map header_line hs) @ crlf"

definition uri_char :: "char \<Rightarrow> bool" where
  "uri_char c \<longleftrightarrow> \<not> is_ctl (char_int c) \<and> c \<noteq> SP"

definition value_char :: "char \<Rightarrow> bool" where
  "value_char c \<longleftrightarrow> is_char (char_int c) \<and> \<not> is_ctl (char_int c)"

definition token :: "string \<Rightarrow> bool" where
  "token s \<longleftrightarrow> s \<noteq> [] \<and> list_all token_char s"

definition consumable :: "string \<Rightarrow> string \<Rightarrow> nat \<Rightarrow> nat \<Rightarrow> header list \<Rightarrow> bool" where
  "consumable m u major minor hs \<longleftrightarrow>
     token m \<and> u \<noteq> [] \<and> list_all uri_char u \<and> major + 48 < 2 ^ 31 \<and> minor + 48 < 2 ^ 31 \<and>
     list_all (\<lambda>h. token (h_name h) \<and> list_all value_char (h_value h)) hs"

section \<open>One loop at a time\<close>

lemma consume_chars_run:
  assumes "\<And>req c. P c \<Longrightarrow> consume B \<lparr>co_pc = p, co_length = n, co_request = req\<rparr> c = yield_at p n (f c req)"
    and "list_all P cs"
  shows "consume_chars B \<lparr>co_pc = p, co_length = n, co_request = req\<rparr> (cs @ rest) =
    consume_chars B \<lparr>co_pc = p, co_length = n, co_request = fold f cs req\<rparr> rest"
  using assms(2) by (induction cs arbitrary: req) (simp_all add: assms(1) yield_at_def)

lemma special_chars [simp]:
  "\<not> token_char SP" "\<not> token_char CR" "\<not> token_char (CHR '':'')" "\<not> uri_char SP" "\<not> value_char CR"
  "is_ctl (char_int CR)" "\<not> is_digit (char_int CR)" "\<not> is_digit (char_int (CHR ''.''))"
  by (simp_all add: token_char_def uri_char_def value_char_def is_char_def is_ctl_def is_tspecial_def
      is_digit_def char_int_def)

abbreviation consuming :: "consume_pc \<Rightarrow> nat \<Rightarrow> request \<Rightarrow> consumer" where
  "consuming p n req \<equiv> \<lparr>co_pc = p, co_length = n, co_request = req\<rparr>"

lemma char_int_ascii: "(of_char c :: nat) < 128 \<Longrightarrow> char_int c = int (of_char c)"
  unfolding char_int_def of_nat_of_char[symmetric, where ?'a = u8]
  by (simp add: signed_of_nat signed_take_bit_int_eq_self)

lemma char_int_digit: "d < 10 \<Longrightarrow> char_int (digit_char d) = int (48 + d)"
  by (simp add: char_int_ascii)

lemma is_digit_digit [simp]: "d < 10 \<Longrightarrow> is_digit (char_int (digit_char d))"
  by (simp add: char_int_ascii is_digit_def)

lemma fold_method: "fold (\<lambda>c r. r\<lparr>req_method := req_method r @ [c]\<rparr>) cs req = req\<lparr>req_method := req_method req @ cs\<rparr>"
  by (induction cs arbitrary: req) simp_all

lemma fold_uri: "fold (\<lambda>c r. r\<lparr>req_uri := req_uri r @ [c]\<rparr>) cs req = req\<lparr>req_uri := req_uri req @ cs\<rparr>"
  by (induction cs arbitrary: req) simp_all

lemma fold_content: "fold (\<lambda>c r. r\<lparr>req_content := req_content r @ [c]\<rparr>) cs req = req\<lparr>req_content := req_content req @ cs\<rparr>"
  by (induction cs arbitrary: req) simp_all

lemma fold_change_last:
  assumes "\<And>c d h. g (d @ [c]) h = f c (g d h)" and "\<And>h. g [] h = h" and "req_headers req \<noteq> []"
  shows "fold (\<lambda>c. change_last (f c)) cs req = change_last (g cs) req"
  using assms(3)
  apply (induction cs rule: rev_induct)
  apply (simp_all add: change_last_def assms)
  done

lemma consume_method:
  assumes "token m"
  shows "consume_chars B (consuming Co_start n req) (m @ SP # rest) =
    consume_chars B (consuming Co_uri 0 (req\<lparr>req_uri := [], http_version_major := 0,
            http_version_minor := 0, req_headers := [], req_content := [], req_method := m\<rparr>)) rest"
proof -
  let ?clear = "\<lambda>r. r\<lparr>req_method := [], req_uri := [], http_version_major := 0,
            http_version_minor := 0, req_headers := [], req_content := []\<rparr>"
  have *: "consume_chars B (consuming Co_start n req) (m @ SP # rest) = consume_chars B (consuming Co_method 0 (?clear req)) (m @ SP # rest)"
    using assms by (cases m) (simp_all add: consume_def Let_def token_def)
  have **: "consume_chars B (consuming Co_method 0 (?clear req)) (m @ SP # rest) =
    consume_chars B (consuming Co_method 0 (?clear req\<lparr>req_method := m\<rparr>)) (SP # rest)"
    using assms by (subst consume_chars_run[where P=token_char and f="\<lambda>c r. r\<lparr>req_method := req_method r @ [c]\<rparr>"])
     (auto simp: fold_method token_def consume_def Let_def method_loop_def)
  show ?thesis using assms unfolding * **
    by (simp add: consume_def Let_def method_loop_def expect_def yield_at_def token_def)
qed

lemma consume_uri:
  assumes "list_all uri_char u" "u \<noteq> []" "req_uri req = []"
  shows "consume_chars B (consuming Co_uri n req) (u @ SP # rest) =
    consume_chars B (consuming Co_proto_H n (req\<lparr>req_uri := u\<rparr>)) rest"
  using assms special_chars by (subst consume_chars_run[where P=uri_char and f="\<lambda>c r. r\<lparr>req_uri := req_uri r @ [c]\<rparr>"])
     (auto simp: fold_uri consume_def Let_def uri_loop_def expect_def yield_at_def uri_char_def)

lemma consume_protocol:
  "consume_chars B (consuming Co_proto_H n req) (CHR ''H'' # CHR ''T'' # CHR ''T'' # CHR ''P'' # CHR ''/'' # rest) = consume_chars B (consuming Co_major_first n req) rest"
  by (simp add: consume_def expect_def yield_at_def Let_def)

lemma add_digit_char:
  assumes "d < 10" "v * 10 + d + 48 < 2 ^ 31"
  shows "add_digit (int v) (digit_char d) = Some (int (v * 10 + d))"
proof -
  have "char_int (CHR ''0'') = 48" by (simp add: char_int_def)
  then show ?thesis using assms char_int_digit[of d] by (auto simp: add_digit_def)
qed

lemma consume_major:
  assumes "n + 48 < 2 ^ 31"
  shows "consume_chars B (consuming Co_major k (req\<lparr>http_version_major := 0\<rparr>)) (decimal n @ rest) =
    consume_chars B (consuming Co_major k (req\<lparr>http_version_major := int n\<rparr>)) rest"
  using assms
proof (induction n arbitrary: rest rule: decimal.induct)
  case (1 n)
  have d: "n mod 10 < 10" by simp
  have step: "consume_chars B (consuming Co_major k (req\<lparr>http_version_major := int v\<rparr>)) (digit_char d # rest) =
    consume_chars B (consuming Co_major k (req\<lparr>http_version_major := int (v * 10 + d)\<rparr>)) rest"
    if "d < 10" "v * 10 + d + 48 < 2 ^ 31" for v d rest
    using that add_digit_char[OF that] by (simp add: consume_def Let_def major_loop_def yield_at_def)
  show ?case
  proof (cases "n < 10")
    case True
    then show ?thesis using step[of n 0 rest] 1 by (simp add: decimal.simps[of n])
  next
    case False
    then show ?thesis using step[of "n mod 10" "n div 10" rest] 1 by (simp add: decimal.simps[of n])
  qed
qed

lemma consume_minor:
  assumes "n + 48 < 2 ^ 31"
  shows "consume_chars B (consuming Co_minor k (req\<lparr>http_version_minor := 0\<rparr>)) (decimal n @ rest) =
    consume_chars B (consuming Co_minor k (req\<lparr>http_version_minor := int n\<rparr>)) rest"
  using assms
proof (induction n arbitrary: rest rule: decimal.induct)
  case (1 n)
  have d: "n mod 10 < 10" by simp
  have step: "consume_chars B (consuming Co_minor k (req\<lparr>http_version_minor := int v\<rparr>)) (digit_char d # rest) =
    consume_chars B (consuming Co_minor k (req\<lparr>http_version_minor := int (v * 10 + d)\<rparr>)) rest"
    if "d < 10" "v * 10 + d + 48 < 2 ^ 31" for v d rest
    using that add_digit_char[OF that] by (simp add: consume_def Let_def minor_loop_def yield_at_def)
  show ?case
  proof (cases "n < 10")
    case True
    then show ?thesis using step[of n 0 rest] 1 by (simp add: decimal.simps[of n])
  next
    case False
    then show ?thesis using step[of "n mod 10" "n div 10" rest] 1 by (simp add: decimal.simps[of n])
  qed
qed

lemma consume_version:
  assumes "major + 48 < 2 ^ 31" and "minor + 48 < 2 ^ 31"
    and "http_version_major req = 0" and "http_version_minor req = 0"
  shows "consume_chars B (consuming Co_major_first k req) (decimal major @ CHR ''.'' # decimal minor @ CR # LF # rest) =
    consume_chars B (consuming Co_headers k (req\<lparr>http_version_major := int major, http_version_minor := int minor\<rparr>)) rest"
proof -
  have digits: "\<exists>d cs. decimal n = digit_char d # cs \<and> d < 10" for n
  proof (induction n rule: decimal.induct)
    case (1 n)
    then show ?case by (cases "n < 10") (auto simp: decimal.simps[of n])
  qed
  have major: "consume_chars B (consuming Co_major_first k req) (decimal major @ t) =
      consume_chars B (consuming Co_major k (req\<lparr>http_version_major := 0\<rparr>)) (decimal major @ t)" for t
  proof -
    have "req\<lparr>http_version_major := 0\<rparr> = req" using assms(3) by (cases req) simp
    then show ?thesis using digits[of major] by (auto simp: consume_def)
  qed
  have minor: "consume_chars B (consuming Co_minor_first k r) (decimal minor @ t) =
      consume_chars B (consuming Co_minor k (r\<lparr>http_version_minor := 0\<rparr>)) (decimal minor @ t)"
    if "http_version_minor r = 0" for t r
  proof -
    have "r\<lparr>http_version_minor := 0\<rparr> = r" using that by (cases r) simp
    then show ?thesis using digits[of minor] by (auto simp: consume_def)
  qed
  have dot: "consume_chars B (consuming Co_major k r) (CHR ''.'' # t) = consume_chars B (consuming Co_minor_first k r) t" for r t
    by (simp add: consume_def major_loop_def expect_def yield_at_def)
  have eol: "consume_chars B (consuming Co_minor k r) (CR # LF # t) = consume_chars B (consuming Co_headers k r) t" for r t
    by (simp add: consume_def minor_loop_def expect_def yield_at_def)
  show ?thesis
    using assms by (simp add: major consume_major dot minor consume_minor eol del: consume_chars.simps)
qed

lemma consume_name:
  assumes "token nm" and "req_headers req = hs"
  shows "consume_chars B (consuming Co_headers n req) (nm @ CHR '':'' # SP # rest) =
    consume_chars B (consuming Co_value n (req\<lparr>req_headers := hs @ [\<lparr>h_name = nm, h_value = []\<rparr>]\<rparr>)) rest"
proof -
  let ?new = "req\<lparr>req_headers := hs @ [\<lparr>h_name = [], h_value = []\<rparr>]\<rparr>"
  obtain c cs where nm: "nm = c # cs" "token_char c" using assms by (cases nm) (auto simp: token_def)
  then have c: "c \<noteq> CR" "c \<noteq> SP" "c \<noteq> TAB" "c \<noteq> CHR '':''"
    by (auto simp: token_char_def is_tspecial_def)
  have first: "consume B (consuming Co_headers n req) c = consume B (consuming Co_name n ?new) c"
    using nm c assms(2) by (simp add: consume_def headers_loop_def)
  have loop: "consume B (consuming Co_name n r) c = yield_at Co_name n (change_last (\<lambda>h. h\<lparr>h_name := h_name h @ [c]\<rparr>) r)"
    if "token_char c" for r c
    using that special_chars by (auto simp: consume_def name_loop_def)
  have "consume_chars B (consuming Co_name n ?new) (nm @ CHR '':'' # SP # rest) =
      consume_chars B (consuming Co_name n (change_last (\<lambda>h. h\<lparr>h_name := h_name h @ nm\<rparr>) ?new)) (CHR '':'' # SP # rest)"
    using assms(1)
    by (subst consume_chars_run[where P=token_char, OF loop])
      (auto simp: token_def fold_change_last[where g="\<lambda>d h. h\<lparr>h_name := h_name h @ d\<rparr>"])
  then have *: "consume_chars B (consuming Co_headers n req) (nm @ CHR '':'' # SP # rest) =
      consume_chars B (consuming Co_name n (change_last (\<lambda>h. h\<lparr>h_name := h_name h @ nm\<rparr>) ?new)) (CHR '':'' # SP # rest)"
    by (simp add: nm(1) first)
  show ?thesis unfolding *
    by (simp add: consume_def name_loop_def expect_def yield_at_def change_last_def)
qed

lemma consume_value:
  assumes "list_all value_char v" and "req_headers req = hs @ [\<lparr>h_name = nm, h_value = []\<rparr>]"
  shows "consume_chars B (consuming Co_value n req) (v @ CR # LF # rest) =
    consume_chars B (consuming Co_headers n (req\<lparr>req_headers := hs @ [\<lparr>h_name = nm, h_value = v\<rparr>]\<rparr>)) rest"
proof -
  have loop: "consume B (consuming Co_value n r) c = yield_at Co_value n (change_last (\<lambda>h. h\<lparr>h_value := h_value h @ [c]\<rparr>) r)"
    if "value_char c" for r c
    using that special_chars by (auto simp: consume_def value_loop_def value_char_def)
  have *: "consume_chars B (consuming Co_value n req) (v @ CR # LF # rest) =
      consume_chars B (consuming Co_value n (change_last (\<lambda>h. h\<lparr>h_value := h_value h @ v\<rparr>) req)) (CR # LF # rest)"
    using assms
    by (subst consume_chars_run[where P=value_char, OF loop])
      (auto simp: fold_change_last[where g="\<lambda>d h. h\<lparr>h_value := h_value h @ d\<rparr>"])
  show ?thesis unfolding *
    by (simp add: consume_def value_loop_def expect_def yield_at_def change_last_def assms(2))
qed

lemma consume_headers:
  assumes "list_all (\<lambda>h. token (h_name h) \<and> list_all value_char (h_value h)) hs"
  shows "consume_chars B (consuming Co_headers n req) (concat (map header_line hs) @ rest) =
    consume_chars B (consuming Co_headers n (req\<lparr>req_headers := req_headers req @ hs\<rparr>)) rest"
  using assms
proof (induction hs arbitrary: req)
  case Nil
  then show ?case by simp
next
  case (Cons h hs)
  have "consume_chars B (consuming Co_headers n req) (header_line h @ t) =
    consume_chars B (consuming Co_headers n (req\<lparr>req_headers := req_headers req @ [h]\<rparr>)) t" for t
    using Cons.prems consume_name[of "h_name h" req] consume_value[of "h_value h"]
    by (cases h) (simp add: header_line_def name_value_separator_def crlf_def)
  with Cons show ?case by simp
qed

lemma declared_length_all:
  assumes "boost_ok B" and "\<forall>h \<in> set hs. headers_equal (h_name h) content_length_name \<longrightarrow> h_value h = decimal n"
    and "n < 2 ^ 64"
  shows "declared_length B hs m =
    Inr (if \<exists>h \<in> set hs. headers_equal (h_name h) content_length_name then n else m)"
  using assms(2)
  by (induction hs arbitrary: m) (use assms in \<open>auto simp: boost_ok_def\<close>)

lemma consume_content:
  assumes "length (req_content req) + length body = n" and "body \<noteq> []"
  shows "consume_chars B (consuming Co_content n req) (body @ rest) =
    Some (Tri_true, consuming Co_complete n (req\<lparr>req_content := req_content req @ body\<rparr>), rest)"
  using assms
proof (induction body arbitrary: req)
  case (Cons c cs)
  have "Suc (length (req_content req)) < n \<longleftrightarrow> cs \<noteq> []" using Cons.prems by (cases cs) auto
  then show ?case using Cons.prems Cons.IH[of "req\<lparr>req_content := req_content req @ [c]\<rparr>"]
    by (cases "cs = []") (simp_all add: consume_def content_loop_def complete_def yield_at_def)
qed simp

lemma consume_printed_request:
  assumes "boost_ok B" and "consumable m u major minor hs" and "declares_length hs (length body)"
  shows "consume_chars B \<lparr>co_pc = Co_start, co_length = n, co_request = req\<rparr>
      (printed_request m u major minor hs @ body @ rest) =
    Some (Tri_true,
      \<lparr>co_pc = Co_complete, co_length = length body,
       co_request = req\<lparr>req_method := m, req_uri := u, http_version_major := int major,
         http_version_minor := int minor, req_headers := hs, req_content := body\<rparr>\<rparr>,
      rest)"
proof -
  have parts: "token m" "list_all uri_char u" "u \<noteq> []" "major + 48 < 2 ^ 31" "minor + 48 < 2 ^ 31"
    "list_all (\<lambda>h. token (h_name h) \<and> list_all value_char (h_value h)) hs"
    using assms(2) by (simp_all add: consumable_def)
  have len: "declared_length B hs 0 = Inr (length body)"
    using declared_length_all[OF assms(1)] assms(3) by (simp add: declares_length_def)
  have last: "consume_chars B (consuming Co_headers 0 r) (CR # LF # body @ rest) =
      Some (Tri_true, consuming Co_complete (length body) (r\<lparr>req_content := body\<rparr>), rest)"
    if "req_headers r = hs" "req_content r = []" for r
  proof (cases "body = []")
    case True
    then show ?thesis using that len
      by (simp add: consume_def headers_loop_def expect_def yield_at_def content_loop_def complete_def)
  next
    case False
    then show ?thesis using that len consume_content[of r body "length body"]
      by (simp add: consume_def headers_loop_def expect_def yield_at_def content_loop_def)
  qed
  show ?thesis
    using parts
    by (simp add: printed_request_def crlf_def consume_method consume_uri consume_protocol
      consume_version consume_headers last del: consume_chars.simps)
qed

section \<open>Version numbers\<close>

definition versions_ok :: "request \<Rightarrow> bool" where
  "versions_ok req \<longleftrightarrow> http_version_major req \<in> {0..<2 ^ 31 - 48} \<and> http_version_minor req \<in> {0..<2 ^ 31 - 48}"

definition version_overflow :: "consumer \<Rightarrow> char \<Rightarrow> bool" where
  "version_overflow s c \<longleftrightarrow> is_digit (char_int c) \<and>
     (co_pc s \<in> {Co_major_first, Co_major} \<and> http_version_major (co_request s) * 10 + char_int c \<ge> 2 ^ 31 \<or>
      co_pc s \<in> {Co_minor_first, Co_minor} \<and> http_version_minor (co_request s) * 10 + char_int c \<ge> 2 ^ 31)"

lemma add_digit_Some:
  assumes "add_digit v c = Some w" and "is_digit (char_int c)" and "0 \<le> v"
  shows "w \<in> {0..<2 ^ 31 - 48}"
proof -
  have "char_int (CHR ''0'') = 48" by (simp add: char_int_def)
  then show ?thesis using assms by (auto simp: add_digit_def is_digit_def split: if_splits)
qed

lemmas leave_defs = yield_at_def refuse_def complete_def expect_def
lemmas loop_defs = method_loop_def uri_loop_def major_loop_def minor_loop_def name_loop_def value_loop_def
  headers_loop_def content_loop_def change_last_def

lemma consume_None_iff: "consume B s c = None \<longleftrightarrow> version_overflow s c"
  by (cases "co_pc s") (auto simp: consume_def Let_def loop_defs leave_defs version_overflow_def
      add_digit_def split: if_splits option.splits sum.splits)

lemma consume_versions_ok:
  assumes "versions_ok (co_request s)" and "consume B s c = Some (r, s')"
  shows "versions_ok (co_request s')"
proof -
  note major = add_digit_Some[of "http_version_major (co_request s)" c]
  note minor = add_digit_Some[of "http_version_minor (co_request s)" c]
  show ?thesis using assms
    by (cases "co_pc s") (auto simp: consume_def Let_def loop_defs leave_defs versions_ok_def
        dest: major minor split: if_splits option.splits sum.splits)
qed

text \<open>One character makes \<^verbatim>\<open>consume\<close> do something undefined in exactly one case, a digit
  of a version number that takes \<^verbatim>\<open>version * 10 + c\<close> past the largest \<^verbatim>\<open>int\<close> (which it can
  do although the version itself would fit). In every other case the call returns, and the version
  numbers stay between 0 and \<^verbatim>\<open>2147483648 - 48\<close> when they were there before.\<close>

lemma consume_version_bounds:
  assumes "versions_ok (co_request s)"
  shows "(consume B s c = None \<longleftrightarrow> version_overflow s c) \<and>
    (\<forall>r s'. consume B s c = Some (r, s') \<longrightarrow> versions_ok (co_request s'))"
  using consume_None_iff consume_versions_ok[OF assms] by blast

lemma consume_version_bounds_witness:
  "consume plain_boost \<lparr>co_pc = Co_major, co_length = 0,
     co_request = blank_request\<lparr>http_version_major := 214748360\<rparr>\<rparr> (CHR ''9'') = None"
proof -
  let ?s = "\<lparr>co_pc = Co_major, co_length = 0, co_request = blank_request\<lparr>http_version_major := 214748360\<rparr>\<rparr>"
  have "versions_ok (co_request ?s)" by (simp add: versions_ok_def blank_request_def)
  moreover have "version_overflow ?s (CHR ''9'')"
    by (simp add: version_overflow_def is_digit_def char_int_def)
  ultimately show ?thesis using consume_version_bounds[of ?s] by blast
qed

section \<open>Properties\<close>

lemma declared_three:
  "headers_equal ''content-length'' content_length_name" "\<not> headers_equal ''X'' content_length_name" "decimal 3 = ''3''"
proof -
  show "headers_equal ''content-length'' content_length_name" "\<not> headers_equal ''X'' content_length_name"
    by code_simp+
  show "decimal 3 = ''3''" by (simp add: decimal.simps digit_char_def) code_simp
qed

text \<open> a request printed the way RFC 2616 writes it, its \<^verbatim>\<open>Content-Length\<close> true, is read back by
  \<^verbatim>\<open>consume\<close> field by field: method, target, both version numbers, every header in order and
  exactly the declared content. The parser is finished with the last character of the content, so
  whatever follows is left unread, and nothing an earlier request left in the object survives.\<close>

lemma consume_reads_printed_request:
  assumes "boost_ok B" and "consumable m u major minor hs" and "declares_length hs (length body)"
  shows "consume_chars B \<lparr>co_pc = Co_start, co_length = n, co_request = req\<rparr>
      (printed_request m u major minor hs @ body @ rest) =
    Some (Tri_true,
      \<lparr>co_pc = Co_complete, co_length = length body,
       co_request = req\<lparr>req_method := m, req_uri := u, http_version_major := int major,
         http_version_minor := int minor, req_headers := hs, req_content := body\<rparr>\<rparr>,
      rest)"
  using assms by (rule consume_printed_request)

lemma consume_reads_printed_request_witness:
  "consume_chars plain_boost \<lparr>co_pc = Co_start, co_length = 9, co_request = blank_request\<rparr>
      (printed_request ''PUT'' ''/a?b=1'' 1 10 [\<lparr>h_name = ''X'', h_value = ''''\<rparr>,
        \<lparr>h_name = ''content-length'', h_value = ''3''\<rparr>] @ ''abc'' @ ''GET /'') =
    Some (Tri_true,
      \<lparr>co_pc = Co_complete, co_length = 3,
       co_request = blank_request\<lparr>req_method := ''PUT'', req_uri := ''/a?b=1'', http_version_major := 1,
         http_version_minor := 10, req_headers := [\<lparr>h_name = ''X'', h_value = ''''\<rparr>,
           \<lparr>h_name = ''content-length'', h_value = ''3''\<rparr>], req_content := ''abc''\<rparr>\<rparr>,
      ''GET /'')"
proof -
  let ?hs = "[\<lparr>h_name = ''X'', h_value = ''''\<rparr>, \<lparr>h_name = ''content-length'', h_value = ''3''\<rparr>]"
  have "consumable ''PUT'' ''/a?b=1'' 1 10 ?hs"
    by (simp add: consumable_def token_def token_char_def uri_char_def value_char_def is_char_def
        is_ctl_def is_tspecial_def char_int_def)
  moreover have "declares_length ?hs (length ''abc'')"
  proof -
    have "length ''abc'' = 3" by simp
    with declared_three show ?thesis by (simp add: declares_length_def del: list.size)
  qed
  ultimately show ?thesis
    using consume_reads_printed_request[OF plain_boost_ok, of "''PUT''" "''/a?b=1''" 1 10 ?hs "''abc''" 9 blank_request "''GET /''"]
    by simp
qed

text \<open>C32: the two parsers of the class agree on what both accept. When a request that
  \<^verbatim>\<open>prase_http\<close> reads in whatever pieces the network cuts it into is also one \<^verbatim>\<open>consume\<close>
  takes, both end with true and the same method, headers and content; the path differs only by the
  leading slash, which \<^verbatim>\<open>prase_http\<close> drops, and \<^verbatim>\<open>consume\<close> alone fills in the version.\<close>

theorem parsers_agree:
  assumes "incoming B r t hs body" and "consumable ''POST'' (CHR ''/'' # t) 1 1 hs"
    and "\<forall>(c, stale) \<in> set cs. c \<noteq> []" and "concat (map fst cs) = request_head t hs @ body"
    and "length (fst (hd cs)) < length (request_head t hs) \<longrightarrow> quiet_tail (fst (hd cs)) (snd (hd cs))"
  shows "\<exists>p q s q'. feed B new_request_parser r cs = Some (Tri_true, p, q) \<and>
    consume_chars B \<lparr>co_pc = Co_start, co_length = 0, co_request = r\<rparr> (concat (map fst cs)) =
      Some (Tri_true, s, []) \<and> co_request s = q' \<and>
    req_method q' = req_method q \<and> req_uri q' = CHR ''/'' # req_uri q \<and>
    req_headers q' = req_headers q \<and> req_content q' = req_content q \<and> co_length s = content_length q \<and>
    (http_version_major q', http_version_minor q') = (1, 1)"
proof -
  have B: "boost_ok B" "declares_length hs (length body)" using assms(1) by (simp_all add: incoming_def)
  have one: "decimal 1 = ''1''" by (simp add: decimal.simps digit_char_def) code_simp
  have sent: "request_head t hs @ body = printed_request ''POST'' (CHR ''/'' # t) 1 1 hs @ body @ []"
    by (simp add: request_head_def printed_request_def one[simplified])
  obtain p where "feed B new_request_parser r cs = Some (Tri_true, p, received_request r t hs body)"
    using feed_request[OF assms(1,3), of "[]" new_request_parser r] assms(4,5) by (auto simp: parse_after_def)
  moreover note consume_printed_request[OF B(1) assms(2) B(2), of 0 r "[]"]
  ultimately show ?thesis unfolding assms(4) sent by (simp add: received_request_def)
qed

lemma parsers_agree_witness:
  "\<exists>p q s q'. feed plain_boost new_request_parser blank_request
      [(request_head ''a'' [\<lparr>h_name = ''content-length'', h_value = ''3''\<rparr>], []), (''xyz'', [])] = Some (Tri_true, p, q) \<and>
    consume_chars plain_boost \<lparr>co_pc = Co_start, co_length = 0, co_request = blank_request\<rparr>
      (request_head ''a'' [\<lparr>h_name = ''content-length'', h_value = ''3''\<rparr>] @ ''xyz'') = Some (Tri_true, s, []) \<and>
    co_request s = q' \<and> req_uri q' = CHR ''/'' # req_uri q \<and> req_content q' = req_content q"
proof -
  let ?hs = "[\<lparr>h_name = ''content-length'', h_value = ''3''\<rparr>]"
  have len: "length ''xyz'' = 3" by simp
  have "declares_length ?hs 3"
    using declared_three by (simp add: declares_length_def)
  then have "incoming plain_boost blank_request ''a'' ?hs ''xyz''"
    unfolding incoming_def len
    by (simp add: target_ok_def header_ok_def unpadded_def is_space_def fresh_request_def blank_request_def
        request_head_def header_line_def name_value_separator_def crlf_def)
  moreover have "consumable ''POST'' ''/a'' 1 1 ?hs"
    by (simp add: consumable_def token_def token_char_def uri_char_def value_char_def is_char_def
        is_ctl_def is_tspecial_def char_int_def)
  ultimately show ?thesis
    using parsers_agree[of plain_boost blank_request "''a''" ?hs "''xyz''" "[(request_head ''a'' ?hs, []), (''xyz'', [])]"]
    by (fastforce simp: request_head_def)
qed

end
