(* ===== verification/Mime_Types.thy ===== *)
theory Mime_Types imports Prelude
begin

text \<open>
  The table of \<^verbatim>\<open>server_base/mime_types.cpp\<close>, from file extensions to MIME types, and the
  search in it. The build file of the directory does not list it.
\<close>

text \<open>The table, without the null entry that marks its end.\<close>

definition mime_mappings :: "(string \<times> string) list" where
  "mime_mappings =
     [(''gif'', ''image/gif''), (''htm'', ''text/html''), (''html'', ''text/html''),
      (''jpg'', ''image/jpeg''), (''png'', ''image/png'')]"

definition extension_to_type :: "string \<Rightarrow> string" where
  "extension_to_type extension =
     (case find (\<lambda>m. fst m = extension) mime_mappings of
        Some m \<Rightarrow> snd m
      | None \<Rightarrow> ''text/plain'')"

text \<open>The search is the look-up in a map with a default, since no extension occurs twice.\<close>

lemma extension_to_type_map:
  "extension_to_type e = (case map_of mime_mappings e of Some t \<Rightarrow> t | None \<Rightarrow> ''text/plain'')"
  by (simp add: extension_to_type_def mime_mappings_def)

lemma extension_to_type_cases:
  "extension_to_type e \<in> {''image/gif'', ''text/html'', ''image/jpeg'', ''image/png'', ''text/plain''}"
  by (simp add: extension_to_type_def mime_mappings_def)

end
