(* ===== verification/Config.thy ===== *)
theory Config imports Prelude
begin

text \<open>
  The command-line flags of \<^verbatim>\<open>src/src/config.cc\<close>: the values the rest of the program
  reads through gflags, with the defaults the definitions of the flags give them. A
  \<^verbatim>\<open>DEFINE_int32\<close> flag is an integer, assumed to lie in the range of its type.
\<close>

record flags =
  FLAGS_listen_ip :: string
  FLAGS_listen_port :: string
  FLAGS_m_retry_times :: int
  FLAGS_rpc_call_times :: int
  FLAGS_conn_timeout_ms :: int
  FLAGS_send_timeout_ms :: int
  FLAGS_recv_timeout_ms :: int
  FLAGS_sp_trade_info_server_ip :: string
  FLAGS_sp_trade_info_server_port :: int
  FLAGS_futures_account_open_url :: string
  FLAGS_futures_search_url :: string
  FLAGS_buy_icon_url :: string
  FLAGS_sell_icon_url :: string
  FLAGS_fund_in_icon_url :: string
  FLAGS_fund_out_icon_url :: string
  FLAGS_authen_server_ip :: string
  FLAGS_authen_server_port :: int
  FLAGS_futures_fund_in_url :: string
  FLAGS_futures_fund_out_url :: string

definition unset_flag :: string where
  "unset_flag = ''please checkout the config file''"

definition default_flags :: flags where
  "default_flags = \<lparr>
     FLAGS_listen_ip = ''0.0.0.0'', FLAGS_listen_port = ''8877'',
     FLAGS_m_retry_times = 3, FLAGS_rpc_call_times = 1,
     FLAGS_conn_timeout_ms = 10000, FLAGS_send_timeout_ms = 10000, FLAGS_recv_timeout_ms = 10000,
     FLAGS_sp_trade_info_server_ip = unset_flag, FLAGS_sp_trade_info_server_port = 0,
     FLAGS_futures_account_open_url = unset_flag, FLAGS_futures_search_url = unset_flag,
     FLAGS_buy_icon_url = unset_flag, FLAGS_sell_icon_url = unset_flag,
     FLAGS_fund_in_icon_url = unset_flag, FLAGS_fund_out_icon_url = unset_flag,
     FLAGS_authen_server_ip = unset_flag, FLAGS_authen_server_port = 0,
     FLAGS_futures_fund_in_url = unset_flag, FLAGS_futures_fund_out_url = unset_flag \<rparr>"

lemma default_flags_simps [simp]:
  "FLAGS_m_retry_times default_flags = 3"
  "FLAGS_rpc_call_times default_flags = 1"
  by (simp_all add: default_flags_def)

end
