(* ===== verification/Thrift_Types.thy ===== *)
theory Thrift_Types imports Prelude
begin

text \<open>
  The messages exchanged with the two back ends, the trading service (SPTradeInfoService) and the
  authentication service. Their Thrift definitions are not part of the repository; the records below
  hold exactly the fields that the program sets in a request or reads from a response. Enumerations
  are the integers Thrift encodes them as, and the enumerators the program names are the parameters
  in \<open>enumerators\<close>. Prices, amounts and quantities that the program only computes with or
  prints are taken to be doubles, since their declarations cannot be read. A C++ \<^verbatim>\<open>double\<close> is its 64-bit pattern, on which only the
  operations of \<open>floating\<close> act.
\<close>

type_synonym double = "64 word"

section \<open>Parameters: enumerators and floating-point arithmetic\<close>

record enumerators =
  auth_SUCCESS :: int
  auth_UNKNOWN :: int
  trade_SUCCESS :: int
  CELL_PROXY :: int
  ORDSTAT_TRADED :: int
  ORDSTAT_PARTTRD_WRK :: int
  COND_NONE :: int
  ORD_LIMIT :: int
  VLD_REST_OF_DAY :: int

text \<open>Some numbering of the enumerators, for examples.\<close>

definition sample_enumerators :: enumerators where
  "sample_enumerators =
     \<lparr> auth_SUCCESS = 0, auth_UNKNOWN = -1, trade_SUCCESS = 0, CELL_PROXY = 7, ORDSTAT_TRADED = 9,
       ORDSTAT_PARTTRD_WRK = 8, COND_NONE = 0, ORD_LIMIT = 0, VLD_REST_OF_DAY = 0 \<rparr>"

text \<open>
  The arithmetic of \<^verbatim>\<open>double\<close> and its conversions: \<open>fp_literal n d\<close> is the constant
  \<open>n / 10^d\<close>, \<open>fp_fixed2\<close> the output of \<^verbatim>\<open>snprintf\<close> with format \<^verbatim>\<open>%.2f\<close>
  (without a bound), \<open>fp_to_string\<close> that of \<^verbatim>\<open>std::to_string\<close>, \<open>fp_parse\<close> the
  result of \<^verbatim>\<open>strtod\<close> and \<^verbatim>\<open>atof\<close> on a C string.
\<close>

record floating =
  fp_literal :: "int \<Rightarrow> nat \<Rightarrow> double"
  fp_add :: "double \<Rightarrow> double \<Rightarrow> double"
  fp_sub :: "double \<Rightarrow> double \<Rightarrow> double"
  fp_div :: "double \<Rightarrow> double \<Rightarrow> double"
  fp_less :: "double \<Rightarrow> double \<Rightarrow> bool"
  fp_fixed2 :: "double \<Rightarrow> string"
  fp_to_string :: "double \<Rightarrow> string"
  fp_parse :: "string \<Rightarrow> double"

section \<open>Requests\<close>

record AccessInfo =
  request_id :: string
  access_name :: string
  access_type :: int

record SessionInfo =
  m_session_id :: string
  m_uid :: int

record GetAccInfoReq =
  accq_access_info :: AccessInfo
  accq_user_id :: int
  accq_AccNo :: string
  accq_NeedProfit :: int

record AddOrderReq =
  addq_access_info :: AccessInfo
  addq_AccNo :: string
  addq_user_id :: int
  addq_ProdCode :: string
  addq_Qty :: double
  addq_ClOrderId :: string
  addq_OrderOptions :: int
  addq_CondType :: int
  addq_OrderType :: int
  addq_ValidType :: int
  addq_DecInPrice :: int
  addq_OrderAction :: int
  addq_BuySell :: char
  addq_Price :: double

record GetOrderByNoReq =
  onoq_access_info :: AccessInfo
  onoq_user_id :: int
  onoq_AccNo :: string
  onoq_IntOrderNo :: int

record GetActiveOrderReq =
  actq_access_info :: AccessInfo
  actq_AccNo :: string
  actq_user_id :: int
  actq_start_index :: int
  actq_batch_num :: int

record GetPositionReq =
  posq_access_info :: AccessInfo
  posq_user_id :: int
  posq_AccNo :: string
  posq_Type :: int
  posq_start_index :: int
  posq_batch_num :: int

record DeleteOrderReq =
  delq_access_info :: AccessInfo
  delq_user_id :: int
  delq_AccNo :: string
  delq_IntOrderNo :: int
  delq_DeleteMode :: int
  delq_ProdCode :: string

record GetUserAccountStatusReq =
  staq_access_info :: AccessInfo
  staq_user_id :: int

record GetHisOrderReq =
  hisq_access_info :: AccessInfo
  hisq_user_id :: int
  hisq_AccNo :: string
  hisq_start_index :: int
  hisq_batch_num :: int

record GetFundInOutRecordReq =
  funq_access_info :: AccessInfo
  funq_user_id :: int
  funq_AccNo :: string
  funq_index :: int
  funq_batch_num :: int

record GetFuturesQuoteFeeInfoReq =
  feeq_quote_id :: string
  feeq_access_info :: AccessInfo
  feeq_user_id :: int
  feeq_AccNo :: string

section \<open>Responses\<close>

record AccInfo =
  NAV :: double
  BuyingPower :: double
  acc_IMargin :: double
  MMargin :: double
  TodayProfitFlag :: int
  TodayProfit :: string

record GetAccInfoResp =
  accr_err_no :: int
  accInfo :: AccInfo

record AddOrderResp =
  addr_err_no :: int

record OrderInfo =
  ord_IntOrderNo :: int
  ord_BuySell :: char
  ord_Status :: int
  ord_ValidTime :: int
  ord_TotalQty :: double
  ord_TradedQty :: double
  ord_EntrustPrice :: double
  ord_Price :: double
  ord_TimeStamp :: int
  ord_Fees :: double
  ord_Profit :: double
  ord_Deposit :: double

record GetOrderByNoResp =
  onor_err_no :: int
  isset_orderInfo :: bool
  orderInfo :: OrderInfo

record ActiveOrder =
  act_IntOrderNo :: int
  act_ProdCode :: string
  act_BuySell :: char
  act_ValidTime :: int
  act_Price :: double
  act_Qty :: double
  act_CurrentPrice :: double

record GetActiveOrderResp =
  actr_err_no :: int
  ActiveOrders :: "ActiveOrder list"
  actr_has_more :: bool

record Position =
  pos_ProdCode :: string
  LongShort :: char
  pos_Qty :: double
  LongQty :: double
  ShortQty :: double
  DepTotalAmt :: double
  LongTotalAmt :: double
  ShortTotalAmt :: double
  MarketPrice :: double
  PL :: double

record GetPositionResp =
  posr_err_no :: int
  PositionList :: "Position list"
  posr_has_more :: bool

record DeleteOrderResp =
  delr_err_no :: int

record GetUserAccountStatusResp =
  star_err_no :: int
  account_status :: int

record HisOrder =
  his_IntOrderNo :: int
  his_ProdCode :: string
  his_BuySell :: char
  his_Status :: int
  his_ValidTime :: int

record GetHisOrderResp =
  hisr_err_no :: int
  his_orders :: "HisOrder list"

record FundInOut =
  fun_description :: int
  fun_money :: string
  fun_create_time :: int

record GetFundInOutRecordResp =
  funr_err_no :: int
  fund_in_out_list :: "FundInOut list"
  funr_has_more :: bool

record QuoteFeeInfo =
  trade_cost :: double
  exchange_cost :: double
  securities_cost :: double
  fee_IMargin :: double

record GetFuturesQuoteFeeInfoResp =
  feer_err_no :: int
  quote_fee_info :: QuoteFeeInfo

end
