(* ===== verification/Rpc_Client.thy ===== *)
theory Rpc_Client imports Config Thrift_Types
begin

text \<open>
  The wrappers around the Thrift clients: \<^verbatim>\<open>SPTradeInfoWrapper\<close>
  (\<^verbatim>\<open>src/src/rpc/sp_trade_info_wrapper.*\<close>) and \<^verbatim>\<open>AuthenServerWrapper\<close>
  (\<^verbatim>\<open>src/src/rpc/authen_user_server_wrapper.*\<close>): the connection they open lazily and
  the loop that retries a call. The Thrift library and the two servers are parameters that act on a
  state \<open>'w\<close> of the world outside the process. \<open>None\<close> stands for behaviour the code leaves
  undefined: the use of a null client, and the overflow of the retry counter. Log output is left
  out, and so is the release of a connection that \<^verbatim>\<open>shared_ptr\<close> closes.
\<close>

section \<open>Thrift\<close>

text \<open>
  A connection is named by a number. \<open>new_transport\<close> is the construction of the socket, the
  framed transport, the protocol and the client over it; \<open>open_transport\<close> is
  \<^verbatim>\<open>TTransport::open\<close>, and False says that it throws.
\<close>

type_synonym connection = nat

record 'w network =
  new_transport :: "string \<Rightarrow> int \<Rightarrow> int \<Rightarrow> int \<Rightarrow> int \<Rightarrow> 'w \<Rightarrow> connection \<times> 'w"
  open_transport :: "connection \<Rightarrow> 'w \<Rightarrow> bool \<times> 'w"

text \<open>
  A remote method gets the connection, the request, the response object as the caller has it and the
  world; it says whether it returned (True) or threw a \<^verbatim>\<open>std::exception\<close> (False), and
  what it left in the response object either way.
\<close>

type_synonym ('q, 'r, 'w) remote = "connection \<Rightarrow> 'q \<Rightarrow> 'r \<Rightarrow> 'w \<Rightarrow> bool \<times> 'r \<times> 'w"

record 'w trade_service =
  rpc_GetAccInfo :: "(GetAccInfoReq, GetAccInfoResp, 'w) remote"
  rpc_AddOrder :: "(AddOrderReq, AddOrderResp, 'w) remote"
  rpc_GetOrderByNo :: "(GetOrderByNoReq, GetOrderByNoResp, 'w) remote"
  rpc_GetActiveOrder :: "(GetActiveOrderReq, GetActiveOrderResp, 'w) remote"
  rpc_GetPosition :: "(GetPositionReq, GetPositionResp, 'w) remote"
  rpc_DeleteOrder :: "(DeleteOrderReq, DeleteOrderResp, 'w) remote"
  rpc_GetUserAccountStatus :: "(GetUserAccountStatusReq, GetUserAccountStatusResp, 'w) remote"
  rpc_GetHisOrder :: "(GetHisOrderReq, GetHisOrderResp, 'w) remote"
  rpc_GetFundInOutRecord :: "(GetFundInOutRecordReq, GetFundInOutRecordResp, 'w) remote"
  rpc_GetFuturesQuoteFeeInfo :: "(GetFuturesQuoteFeeInfoReq, GetFuturesQuoteFeeInfoResp, 'w) remote"

text \<open>The one method of the authentication service returns its error number, or throws (None).\<close>

type_synonym 'w authen_service = "connection \<Rightarrow> SessionInfo \<Rightarrow> 'w \<Rightarrow> int option \<times> 'w"

section \<open>The wrapper objects\<close>

record rpc_client =
  m_server_ip :: string
  m_server_port :: int
  m_retry_time :: int
  m_is_inited :: bool
  m_transport :: "connection option"
  m_client :: "connection option"

definition SPTradeInfo_InitClient ::
  "'w network \<Rightarrow> flags \<Rightarrow> rpc_client \<Rightarrow> 'w \<Rightarrow> bool \<times> rpc_client \<times> 'w" where
  "SPTradeInfo_InitClient net fl c w =
     (if m_is_inited c then (True, c, w)
      else
        let c1 = c\<lparr>m_client := None\<rparr>;
            (k, w1) = new_transport net (m_server_ip c1) (m_server_port c1) (FLAGS_conn_timeout_ms fl)
                        (FLAGS_recv_timeout_ms fl) (FLAGS_send_timeout_ms fl) w;
            c2 = c1\<lparr>m_transport := Some k\<rparr>;
            (opened, w2) = open_transport net k w1
        in if opened then (True, c2\<lparr>m_client := Some k, m_is_inited := True\<rparr>, w2)
           else (False, c2\<lparr>m_is_inited := False\<rparr>, w2))"

definition Authen_InitClient ::
  "'w network \<Rightarrow> flags \<Rightarrow> rpc_client \<Rightarrow> 'w \<Rightarrow> bool \<times> rpc_client \<times> 'w" where
  "Authen_InitClient net fl c w =
     (if m_is_inited c then (True, c, w)
      else
        let (k, w1) = new_transport net (m_server_ip c) (m_server_port c) (FLAGS_conn_timeout_ms fl)
                        (FLAGS_recv_timeout_ms fl) (FLAGS_send_timeout_ms fl) w;
            c1 = c\<lparr>m_transport := Some k\<rparr>;
            (opened, w2) = open_transport net k w1
        in if opened then (True, c1\<lparr>m_client := Some k, m_is_inited := True\<rparr>, w2)
           else (False, c1, w2))"

text \<open>The constructors, which try to connect at once and ignore the outcome.\<close>

definition unconnected :: "flags \<Rightarrow> string \<Rightarrow> int \<Rightarrow> rpc_client" where
  "unconnected fl ip port =
     \<lparr> m_server_ip = ip, m_server_port = port, m_retry_time = FLAGS_m_retry_times fl,
       m_is_inited = False, m_transport = None, m_client = None \<rparr>"

definition new_SPTradeInfoWrapper ::
  "'w network \<Rightarrow> flags \<Rightarrow> string \<Rightarrow> int \<Rightarrow> 'w \<Rightarrow> rpc_client \<times> 'w" where
  "new_SPTradeInfoWrapper net fl ip port w = snd (SPTradeInfo_InitClient net fl (unconnected fl ip port) w)"

definition new_AuthenServerWrapper ::
  "'w network \<Rightarrow> flags \<Rightarrow> string \<Rightarrow> int \<Rightarrow> 'w \<Rightarrow> rpc_client \<times> 'w" where
  "new_AuthenServerWrapper net fl ip port w = snd (Authen_InitClient net fl (unconnected fl ip port) w)"

section \<open>The retry loop\<close>

text \<open>
  The loop all methods share, \<^verbatim>\<open>while (retry_time--) { if (!InitClient()) continue; try {
  call; return true; } catch { m_is_inited = false; continue; } } return false;\<close>. The counter is an
  \<^verbatim>\<open>int32_t\<close>: it is tested before it is decremented, and the decrement of its least value
  is undefined. \<open>connect\<close> is \<^verbatim>\<open>InitClient\<close>; \<open>call\<close> is the body of the
  \<^verbatim>\<open>try\<close> with its handler, None when it is undefined.
\<close>

function retry_loop :: "('s \<Rightarrow> bool \<times> 's) \<Rightarrow> ('s \<Rightarrow> (bool \<times> 's) option) \<Rightarrow> int \<Rightarrow> 's \<Rightarrow> (bool \<times> 's) option" where
  "retry_loop connect call retry_time s =
     (if retry_time = 0 then Some (False, s)
      else if retry_time \<le> - (2 ^ 31) then None
      else
        case connect s of (connected, s1) \<Rightarrow>
          if \<not> connected then retry_loop connect call (retry_time - 1) s1
          else
            (case call s1 of
               None \<Rightarrow> None
             | Some (returned, s2) \<Rightarrow>
                 if returned then Some (True, s2)
                 else retry_loop connect call (retry_time - 1) s2))"
  by pat_completeness auto

termination retry_loop
  by (relation "measure (\<lambda>(connect, call, retry_time, s). nat (retry_time + 2 ^ 31))") auto

declare retry_loop.simps [simp del]

section \<open>The trading service\<close>

type_synonym ('r, 'w) call_state = "rpc_client \<times> 'r \<times> 'w"

text \<open>\<^verbatim>\<open>m_client->Method( *resp, req)\<close> with its \<^verbatim>\<open>catch\<close>.\<close>

definition invoke ::
  "('q, 'r, 'w) remote \<Rightarrow> 'q \<Rightarrow> ('r, 'w) call_state \<Rightarrow> (bool \<times> ('r, 'w) call_state) option" where
  "invoke remote req = (\<lambda>(c, resp, w).
     case m_client c of
       None \<Rightarrow> None
     | Some k \<Rightarrow>
         (case remote k req resp w of (returned, resp', w') \<Rightarrow>
            if returned then Some (True, c, resp', w')
            else Some (False, c\<lparr>m_is_inited := False\<rparr>, resp', w')))"

definition connect_sp ::
  "'w network \<Rightarrow> flags \<Rightarrow> ('r, 'w) call_state \<Rightarrow> bool \<times> ('r, 'w) call_state" where
  "connect_sp net fl = (\<lambda>(c, resp, w).
     case SPTradeInfo_InitClient net fl c w of (connected, c', w') \<Rightarrow> (connected, c', resp, w'))"

type_synonym ('q, 'r, 'w) trade_method =
  "'w network \<Rightarrow> flags \<Rightarrow> 'w trade_service \<Rightarrow> 'q \<Rightarrow> rpc_client \<Rightarrow> 'r \<Rightarrow> 'w \<Rightarrow>
   (bool \<times> ('r, 'w) call_state) option"

definition SPTradeInfo_GetAccInfo ::
  "(GetAccInfoReq, GetAccInfoResp, 'w) trade_method" where
  "SPTradeInfo_GetAccInfo net fl sv req c resp w =
     retry_loop (connect_sp net fl) (invoke (rpc_GetAccInfo sv) req) (m_retry_time c) (c, resp, w)"

definition SPTradeInfo_AddOrder ::
  "(AddOrderReq, AddOrderResp, 'w) trade_method" where
  "SPTradeInfo_AddOrder net fl sv req c resp w =
     retry_loop (connect_sp net fl) (invoke (rpc_AddOrder sv) req) (FLAGS_rpc_call_times fl) (c, resp, w)"

definition SPTradeInfo_GetOrderByNo ::
  "(GetOrderByNoReq, GetOrderByNoResp, 'w) trade_method" where
  "SPTradeInfo_GetOrderByNo net fl sv req c resp w =
     retry_loop (connect_sp net fl) (invoke (rpc_GetOrderByNo sv) req) (m_retry_time c) (c, resp, w)"

definition SPTradeInfo_GetActiveOrder ::
  "(GetActiveOrderReq, GetActiveOrderResp, 'w) trade_method" where
  "SPTradeInfo_GetActiveOrder net fl sv req c resp w =
     retry_loop (connect_sp net fl) (invoke (rpc_GetActiveOrder sv) req) (m_retry_time c) (c, resp, w)"

definition SPTradeInfo_GetPosition ::
  "(GetPositionReq, GetPositionResp, 'w) trade_method" where
  "SPTradeInfo_GetPosition net fl sv req c resp w =
     retry_loop (connect_sp net fl) (invoke (rpc_GetPosition sv) req) (m_retry_time c) (c, resp, w)"

definition SPTradeInfo_DeleteOrder ::
  "(DeleteOrderReq, DeleteOrderResp, 'w) trade_method" where
  "SPTradeInfo_DeleteOrder net fl sv req c resp w =
     retry_loop (connect_sp net fl) (invoke (rpc_DeleteOrder sv) req) (FLAGS_rpc_call_times fl) (c, resp, w)"

definition SPTradeInfo_GetUserAccountStatus ::
  "(GetUserAccountStatusReq, GetUserAccountStatusResp, 'w) trade_method" where
  "SPTradeInfo_GetUserAccountStatus net fl sv req c resp w =
     retry_loop (connect_sp net fl) (invoke (rpc_GetUserAccountStatus sv) req) (m_retry_time c) (c, resp, w)"

definition SPTradeInfo_GetHisOrder ::
  "(GetHisOrderReq, GetHisOrderResp, 'w) trade_method" where
  "SPTradeInfo_GetHisOrder net fl sv req c resp w =
     retry_loop (connect_sp net fl) (invoke (rpc_GetHisOrder sv) req) (m_retry_time c) (c, resp, w)"

definition SPTradeInfo_GetFundInOutRecord ::
  "(GetFundInOutRecordReq, GetFundInOutRecordResp, 'w) trade_method" where
  "SPTradeInfo_GetFundInOutRecord net fl sv req c resp w =
     retry_loop (connect_sp net fl) (invoke (rpc_GetFundInOutRecord sv) req) (m_retry_time c) (c, resp, w)"

definition SPTradeInfo_GetFuturesQuoteFeeInfo ::
  "(GetFuturesQuoteFeeInfoReq, GetFuturesQuoteFeeInfoResp, 'w) trade_method" where
  "SPTradeInfo_GetFuturesQuoteFeeInfo net fl sv req c resp w =
     retry_loop (connect_sp net fl) (invoke (rpc_GetFuturesQuoteFeeInfo sv) req) (m_retry_time c) (c, resp, w)"

section \<open>The authentication service\<close>

definition authenticate ::
  "'w authen_service \<Rightarrow> SessionInfo \<Rightarrow> (int, 'w) call_state \<Rightarrow> (bool \<times> (int, 'w) call_state) option" where
  "authenticate service session = (\<lambda>(c, ret, w).
     case m_client c of
       None \<Rightarrow> None
     | Some k \<Rightarrow>
         (case service k session w of
            (Some err, w') \<Rightarrow> Some (True, c, err, w')
          | (None, w') \<Rightarrow> Some (False, c\<lparr>m_is_inited := False\<rparr>, ret, w')))"

definition connect_authen ::
  "'w network \<Rightarrow> flags \<Rightarrow> ('r, 'w) call_state \<Rightarrow> bool \<times> ('r, 'w) call_state" where
  "connect_authen net fl = (\<lambda>(c, resp, w).
     case Authen_InitClient net fl c w of (connected, c', w') \<Rightarrow> (connected, c', resp, w'))"

definition Authen_ValidateSession ::
  "'w network \<Rightarrow> flags \<Rightarrow> enumerators \<Rightarrow> 'w authen_service \<Rightarrow> SessionInfo \<Rightarrow> rpc_client \<Rightarrow> 'w \<Rightarrow>
   (bool \<times> (int, 'w) call_state) option" where
  "Authen_ValidateSession net fl en service session c w =
     retry_loop (connect_authen net fl) (authenticate service session) (m_retry_time c)
       (c, auth_UNKNOWN en, w)"

section \<open>The objects stay usable\<close>

text \<open>A wrapper that counts as initialised has a client.\<close>

definition client_ok :: "rpc_client \<Rightarrow> bool" where
  "client_ok c \<longleftrightarrow> (m_is_inited c \<longrightarrow> m_client c \<noteq> None)"

lemma client_ok_unconnected [simp]: "client_ok (unconnected fl ip port)"
  by (simp add: client_ok_def unconnected_def)

lemma retry_time_unconnected [simp]: "m_retry_time (unconnected fl ip port) = FLAGS_m_retry_times fl"
  by (simp add: unconnected_def)

lemma client_ok_failed [simp]: "client_ok (c\<lparr>m_is_inited := False\<rparr>)"
  by (simp add: client_ok_def)

lemma SPTradeInfo_InitClient_ok:
  assumes "SPTradeInfo_InitClient net fl c w = (b, c', w')" and "client_ok c"
  shows "client_ok c' \<and> m_retry_time c' = m_retry_time c \<and> m_is_inited c' = b"
  using assms by (auto simp: SPTradeInfo_InitClient_def client_ok_def Let_def split: if_splits prod.splits)

lemma Authen_InitClient_ok:
  assumes "Authen_InitClient net fl c w = (b, c', w')" and "client_ok c"
  shows "client_ok c' \<and> m_retry_time c' = m_retry_time c \<and> m_is_inited c' = b"
  using assms by (auto simp: Authen_InitClient_def client_ok_def Let_def split: if_splits prod.splits)

section \<open>What every retried call guarantees\<close>

text \<open>
  One attempt of the loop, and the state after a number of attempts that all failed.
\<close>

definition attempt :: "('s \<Rightarrow> bool \<times> 's) \<Rightarrow> ('s \<Rightarrow> (bool \<times> 's) option) \<Rightarrow> 's \<Rightarrow> (bool \<times> 's) option" where
  "attempt connect call s = (case connect s of (connected, s1) \<Rightarrow>
     if connected then call s1 else Some (False, s1))"

primrec failures :: "('s \<Rightarrow> bool \<times> 's) \<Rightarrow> ('s \<Rightarrow> (bool \<times> 's) option) \<Rightarrow> nat \<Rightarrow> 's \<Rightarrow> 's option" where
  "failures connect call 0 s = Some s"
| "failures connect call (Suc n) s =
     (case attempt connect call s of Some (False, s') \<Rightarrow> failures connect call n s' | _ \<Rightarrow> None)"

lemma retry_loop_attempt:
  "retry_loop connect call r s =
     (if r = 0 then Some (False, s) else if r \<le> - (2 ^ 31) then None
      else case attempt connect call s of
             None \<Rightarrow> None
           | Some (True, s') \<Rightarrow> Some (True, s')
           | Some (False, s') \<Rightarrow> retry_loop connect call (r - 1) s')"
  by (subst retry_loop.simps) (auto simp: attempt_def split: prod.splits option.splits bool.splits)

lemma retry_loop_0 [simp]: "retry_loop connect call 0 s = Some (False, s)"
  by (simp add: retry_loop_attempt)

lemma retry_loop_Suc:
  "retry_loop connect call (int (Suc n)) s =
     (case attempt connect call s of
        None \<Rightarrow> None
      | Some (True, s') \<Rightarrow> Some (True, s')
      | Some (False, s') \<Rightarrow> retry_loop connect call (int n) s')"
proof -
  have "int (Suc n) - 1 = int n" by simp
  then show ?thesis by (subst retry_loop_attempt) (simp only:, simp)
qed

text \<open>A rule for the loop: what holds before and after every failed attempt, and after the good one.\<close>

lemma retry_loop_rule:
  assumes "Q s"
    and "\<And>s t. \<lbrakk>Q s; attempt connect call s = Some (False, t)\<rbrakk> \<Longrightarrow> Q t"
    and "\<And>s t. \<lbrakk>Q s; attempt connect call s = Some (True, t)\<rbrakk> \<Longrightarrow> R t"
    and "retry_loop connect call r s = Some (b, s')"
  shows "if b then R s' else Q s'"
  using assms(1,4)
proof (induction "nat (r + 2 ^ 31)" arbitrary: r s rule: less_induct)
  case less
  show ?case
  proof (cases "r = 0 \<or> r \<le> - (2 ^ 31)")
    case True
    with less.prems show ?thesis by (auto simp: retry_loop_attempt [of _ _ r] split: if_splits)
  next
    case False
    with less.prems(2) obtain a t where att: "attempt connect call s = Some (a, t)"
      by (auto simp: retry_loop_attempt [of _ _ r] split: option.splits)
    show ?thesis
    proof (cases a)
      case True
      with att less.prems False assms(3) [OF less.prems(1)] show ?thesis
        by (auto simp: retry_loop_attempt [of _ _ r])
    next
      case a: False
      with att less.prems(2) False have "retry_loop connect call (r - 1) t = Some (b, s')"
        by (simp add: retry_loop_attempt [of _ _ r])
      moreover have "Q t" using assms(2) [OF less.prems(1)] att a by simp
      moreover have "nat (r - 1 + 2 ^ 31) < nat (r + 2 ^ 31)" using False by simp
      ultimately show ?thesis using less.hyps by blast
    qed
  qed
qed

text \<open>
  The interface of a client under a retry loop: connecting keeps the object valid and makes it
  ready, and a call on a ready object is defined and keeps it valid.
\<close>

locale retried_call =
  fixes connect :: "'s \<Rightarrow> bool \<times> 's"
    and call :: "'s \<Rightarrow> (bool \<times> 's) option"
    and valid :: "'s \<Rightarrow> bool"
    and ready :: "'s \<Rightarrow> bool"
  assumes connect_valid: "\<lbrakk>connect s = (b, s'); valid s\<rbrakk> \<Longrightarrow> valid s'"
    and connect_ready: "\<lbrakk>connect s = (True, s'); valid s\<rbrakk> \<Longrightarrow> ready s'"
    and call_defined: "\<lbrakk>valid s; ready s\<rbrakk> \<Longrightarrow> \<exists>b s'. call s = Some (b, s') \<and> valid s'"
begin

lemma attempt_defined: "valid s \<Longrightarrow> \<exists>b s'. attempt connect call s = Some (b, s') \<and> valid s'"
proof -
  assume valid: "valid s"
  obtain b s1 where conn: "connect s = (b, s1)" by fastforce
  show ?thesis
  proof (cases b)
    case True
    with conn valid show ?thesis
      by (simp add: attempt_def call_defined connect_valid [OF conn] connect_ready)
  next
    case False
    with conn valid show ?thesis by (simp add: attempt_def connect_valid [OF conn] ex_bool_eq)
  qed
qed

lemma loop_defined: "valid s \<Longrightarrow> \<exists>b s'. retry_loop connect call (int n) s = Some (b, s') \<and> valid s'"
proof (induction n arbitrary: s)
  case (Suc n)
  then obtain b s' where "attempt connect call s = Some (b, s')" "valid s'"
    using attempt_defined by blast
  with Suc.IH show ?case by (cases b) (simp_all only: retry_loop_Suc, auto)
qed (simp add: ex_bool_eq)

lemma loop_returns:
  assumes "valid s" and "0 \<le> r"
  shows "\<exists>b s'. retry_loop connect call r s = Some (b, s') \<and> valid s'"
  using loop_defined [of s "nat r"] assms by simp

end

text \<open>
  A resource that a call consumes at most once and that connecting does not touch is consumed at
  most once per attempt.
\<close>

lemma loop_consumes:
  fixes sent :: "'s \<Rightarrow> nat"
  assumes "\<And>s b s'. connect s = (b, s') \<Longrightarrow> sent s' = sent s"
    and "\<And>s b s'. call s = Some (b, s') \<Longrightarrow> sent s' \<le> Suc (sent s)"
    and "retry_loop connect call (int n) s = Some (b, s')"
  shows "sent s' \<le> sent s + n"
  using assms(3)
proof (induction n arbitrary: s)
  case (Suc n)
  have one: "sent t \<le> Suc (sent s)" if "attempt connect call s = Some (a, t)" for a t
    using that assms(1) [of s] assms(2) unfolding attempt_def
    by (fastforce split: prod.splits if_splits)
  from Suc.prems obtain a t where att: "attempt connect call s = Some (a, t)"
    unfolding retry_loop_Suc by (cases "attempt connect call s") auto
  show ?case
  proof (cases a)
    case True
    with Suc.prems att one [OF att] show ?thesis unfolding retry_loop_Suc by simp
  next
    case False
    with Suc.prems att have "retry_loop connect call (int n) t = Some (b, s')"
      unfolding retry_loop_Suc by simp
    from Suc.IH [OF this] one [OF att] show ?thesis by simp
  qed
qed simp

text \<open>A call works on an object that is in order and whose retry count is \<open>r\<close>.\<close>

definition valid_call :: "int \<Rightarrow> ('r, 'w) call_state \<Rightarrow> bool" where
  "valid_call r = (\<lambda>(c, resp, w). client_ok c \<and> m_retry_time c = r)"

definition ready_call :: "('r, 'w) call_state \<Rightarrow> bool" where
  "ready_call = (\<lambda>(c, resp, w). m_client c \<noteq> None)"

lemma invoke_defined:
  "ready_call s \<Longrightarrow> valid_call r s \<Longrightarrow> \<exists>b s'. invoke remote req s = Some (b, s') \<and> valid_call r s'"
  by (auto simp: invoke_def ready_call_def valid_call_def split: prod.splits)

lemma authenticate_defined:
  "ready_call s \<Longrightarrow> valid_call r s \<Longrightarrow> \<exists>b s'. authenticate service session s = Some (b, s') \<and> valid_call r s'"
  by (auto simp: authenticate_def ready_call_def valid_call_def split: prod.splits option.splits)

lemma connect_sp_valid: "\<lbrakk>connect_sp net fl s = (b, s'); valid_call r s\<rbrakk> \<Longrightarrow> valid_call r s'"
  by (auto simp: connect_sp_def valid_call_def dest: SPTradeInfo_InitClient_ok split: prod.splits)

lemma connect_sp_ready: "\<lbrakk>connect_sp net fl s = (True, s'); valid_call r s\<rbrakk> \<Longrightarrow> ready_call s'"
  by (auto simp: connect_sp_def valid_call_def ready_call_def client_ok_def
      dest!: SPTradeInfo_InitClient_ok split: prod.splits)

lemma connect_authen_valid:
  "\<lbrakk>connect_authen net fl s = (b, s'); valid_call r s\<rbrakk> \<Longrightarrow> valid_call r s'"
  by (auto simp: connect_authen_def valid_call_def dest: Authen_InitClient_ok split: prod.splits)

lemma connect_authen_ready:
  "\<lbrakk>connect_authen net fl s = (True, s'); valid_call r s\<rbrakk> \<Longrightarrow> ready_call s'"
  by (auto simp: connect_authen_def valid_call_def ready_call_def client_ok_def
      dest!: Authen_InitClient_ok split: prod.splits)

interpretation sp_call: retried_call "connect_sp net fl" "invoke remote req" "valid_call r" ready_call
  for net fl remote req r
  by unfold_locales (rule connect_sp_valid connect_sp_ready invoke_defined; assumption)+

interpretation authen_call: retried_call "connect_authen net fl" "authenticate service session"
    "valid_call r" ready_call
  for net fl service session r
  by unfold_locales (rule connect_authen_valid connect_authen_ready authenticate_defined; assumption)+

end
