(* ===== verification/Client_Pool.thy ===== *)
theory Client_Pool imports Rpc_Client
begin

text \<open>
  The pools that the request threads borrow Thrift clients from: the template
  \<^verbatim>\<open>ClientPool\<close> of \<^verbatim>\<open>src/src/rpc/client_tmplate.h\<close> and its two instances,
  \<^verbatim>\<open>AuthenClientPool\<close> and \<^verbatim>\<open>SPTradeInfoClientPool\<close>. Both operations run under
  the pool's mutex, so that an interleaving of threads is a sequence of whole operations.
\<close>

section \<open>The pool\<close>

text \<open>
  A \<^verbatim>\<open>shared_ptr\<close> to a client is its address, and \<^verbatim>\<open>std::set\<close> orders the
  addresses. \<open>heap\<close> holds the client objects that are alive; the allocator is a parameter that
  picks an address for a new object, given those in use.
\<close>

type_synonym pointer = nat

record client_pool =
  m_client_set :: "pointer set"
  heap :: "pointer \<Rightarrow> rpc_client option"

definition empty_pool :: client_pool where
  "empty_pool = \<lparr> m_client_set = {}, heap = Map.empty \<rparr>"

type_synonym allocator = "pointer set \<Rightarrow> pointer"

definition GetClientPtr ::
  "allocator \<Rightarrow> ('w \<Rightarrow> rpc_client \<times> 'w) \<Rightarrow> client_pool \<Rightarrow> 'w \<Rightarrow> pointer \<times> client_pool \<times> 'w" where
  "GetClientPtr malloc NewClientPtr p w =
     (if m_client_set p \<noteq> {}
      then let client = Min (m_client_set p)
           in (client, p\<lparr>m_client_set := m_client_set p - {client}\<rparr>, w)
      else let (object, w') = NewClientPtr w;
               client = malloc (dom (heap p))
           in (client, p\<lparr>heap := (heap p)(client \<mapsto> object)\<rparr>, w'))"

definition FreeClientPtr :: "pointer \<Rightarrow> bool \<Rightarrow> client_pool \<Rightarrow> client_pool" where
  "FreeClientPtr client usable p =
     (if usable then p\<lparr>m_client_set := insert client (m_client_set p)\<rparr> else p)"

text \<open>
  A borrower's own \<^verbatim>\<open>shared_ptr\<close> goes out of scope: the object is deleted unless the pool
  holds another pointer to it.
\<close>

definition drop_client :: "pointer \<Rightarrow> client_pool \<Rightarrow> client_pool" where
  "drop_client client p =
     (if client \<in> m_client_set p then p else p\<lparr>heap := (heap p)(client := None)\<rparr>)"

text \<open>The end of a borrower's use of a client: it calls \<^verbatim>\<open>FreeClientPtr\<close> or not, and its pointer goes.\<close>

definition release_client :: "pointer \<Rightarrow> bool \<Rightarrow> client_pool \<Rightarrow> client_pool" where
  "release_client client usable p = drop_client client (FreeClientPtr client usable p)"

definition AuthenClientPool_NewClientPtr :: "'w network \<Rightarrow> flags \<Rightarrow> 'w \<Rightarrow> rpc_client \<times> 'w" where
  "AuthenClientPool_NewClientPtr net fl w =
     new_AuthenServerWrapper net fl (FLAGS_authen_server_ip fl) (FLAGS_authen_server_port fl) w"

definition SPTradeInfoClientPool_NewClientPtr :: "'w network \<Rightarrow> flags \<Rightarrow> 'w \<Rightarrow> rpc_client \<times> 'w" where
  "SPTradeInfoClientPool_NewClientPtr net fl w =
     new_SPTradeInfoWrapper net fl (FLAGS_sp_trade_info_server_ip fl) (FLAGS_sp_trade_info_server_port fl) w"

section \<open>Borrowing and returning, by many threads\<close>

text \<open>
  The state of a pool with its borrowers: the pool, the pairs of a thread and an address it holds,
  and the world. A thread that holds a client may use it, which replaces the object; it may end its
  use by returning the client (\<open>usable\<close>) or by just dropping its pointer.
\<close>

type_synonym 'w pool_system = "client_pool \<times> (nat \<times> pointer) set \<times> 'w"

inductive pool_step ::
  "allocator \<Rightarrow> ('w \<Rightarrow> rpc_client \<times> 'w) \<Rightarrow> 'w pool_system \<Rightarrow> 'w pool_system \<Rightarrow> bool"
  for malloc and new_client where
  borrow: "GetClientPtr malloc new_client p w = (client, p', w') \<Longrightarrow>
    pool_step malloc new_client (p, H, w) (p', insert (t, client) H, w')"
| use_client: "\<lbrakk>(t, client) \<in> H; heap p client = Some c\<rbrakk> \<Longrightarrow>
    pool_step malloc new_client (p, H, w) (p\<lparr>heap := (heap p)(client \<mapsto> c')\<rparr>, H, w')"
| hand_back: "(t, client) \<in> H \<Longrightarrow>
    pool_step malloc new_client (p, H, w)
      (release_client client usable p, H - {(t, client)}, w)"

inductive pool_reachable ::
  "allocator \<Rightarrow> ('w \<Rightarrow> rpc_client \<times> 'w) \<Rightarrow> 'w pool_system \<Rightarrow> bool"
  for malloc and new_client where
  start: "pool_reachable malloc new_client (empty_pool, {}, w)"
| step: "\<lbrakk>pool_reachable malloc new_client s; pool_step malloc new_client s s'\<rbrakk> \<Longrightarrow>
    pool_reachable malloc new_client s'"

section \<open>Ownership\<close>

text \<open>
  The contract of a pool of exclusive resources: the idle ones are among the live ones, acquiring
  gives an idle resource or, if the names of new resources are fresh, one that was not alive, and
  releasing makes a resource idle or ends its life.
\<close>

locale exclusive_pool =
  fixes acquire :: "'p \<Rightarrow> 'w \<Rightarrow> 'r \<times> 'p \<times> 'w"
    and release :: "'r \<Rightarrow> bool \<Rightarrow> 'p \<Rightarrow> 'p"
    and idle :: "'p \<Rightarrow> 'r set"
    and live :: "'p \<Rightarrow> 'r set"
    and fresh_names :: bool
  assumes acquire_idle: "\<lbrakk>fresh_names; acquire p w = (r, p', w'); finite (live p); idle p \<subseteq> live p\<rbrakk> \<Longrightarrow>
      idle p' = idle p - {r} \<and> live p' = insert r (live p) \<and> (r \<in> idle p \<or> r \<notin> live p)"
    and release_usable: "r \<in> live p \<Longrightarrow>
      idle (release r True p) = insert r (idle p) \<and> live (release r True p) = live p"
    and release_broken: "r \<notin> idle p \<Longrightarrow>
      idle (release r False p) = idle p \<and> live (release r False p) = live p - {r}"

text \<open>
  Who owns what: the live resources are the idle ones and the held ones, no resource is both, and
  no two holders share one.
\<close>

definition owned :: "'r set \<Rightarrow> 'r set \<Rightarrow> ('t \<times> 'r) set \<Rightarrow> bool" where
  "owned idles lives H \<longleftrightarrow>
     finite lives \<and> idles \<union> snd ` H = lives \<and> idles \<inter> snd ` H = {} \<and> inj_on snd H"

lemma owned_holder:
  assumes "owned I L H" and "(t, r) \<in> H" and "(t', r) \<in> H"
  shows "t' = t"
  using assms inj_onD [of snd H "(t, r)" "(t', r)"] by (simp add: owned_def)

lemma owned_live: "owned I L H \<Longrightarrow> (t, r) \<in> H \<Longrightarrow> r \<in> L"
  unfolding owned_def by (metis UnI2 image_eqI snd_conv)

lemma owned_image_minus:
  assumes "owned I L H" and "(t, r) \<in> H"
  shows "snd ` (H - {(t, r)}) = snd ` H - {r}"
  using assms by (subst inj_on_image_set_diff [of snd H]) (auto simp: owned_def)

context exclusive_pool
begin

lemma acquire_owned:
  assumes "fresh_names" and "owned (idle p) (live p) H" and "acquire p w = (r, p', w')"
  shows "owned (idle p') (live p') (insert (t, r) H) \<and> r \<notin> snd ` H"
proof -
  from assms(2) have sets: "finite (live p)" "idle p \<union> snd ` H = live p" "idle p \<inter> snd ` H = {}"
    "inj_on snd H" by (simp_all add: owned_def)
  then have "idle p \<subseteq> live p" by blast
  from acquire_idle [OF assms(1,3) sets(1) this]
  have new: "idle p' = idle p - {r}" "live p' = insert r (live p)" "r \<in> idle p \<or> r \<notin> live p" by auto
  from new(3) sets have fresh: "r \<notin> snd ` H" by blast
  moreover have "idle p' \<union> snd ` insert (t, r) H = live p'" using new(1,2) sets(2) by auto
  moreover have "idle p' \<inter> snd ` insert (t, r) H = {}" using new(1) sets(3) by auto
  moreover have "inj_on snd (insert (t, r) H)" using sets(4) fresh by (auto simp: inj_on_def)
  ultimately show ?thesis using sets(1) new(2) by (simp add: owned_def)
qed

lemma release_owned:
  assumes "owned (idle p) (live p) H" and "(t, r) \<in> H"
  shows "owned (idle (release r usable p)) (live (release r usable p)) (H - {(t, r)})"
proof -
  from assms(1) have sets: "finite (live p)" "idle p \<union> snd ` H = live p" "idle p \<inter> snd ` H = {}"
    "inj_on snd H" by (simp_all add: owned_def)
  moreover have "r \<in> snd ` H" using assms(2) by (rule image_eqI [rotated]) simp
  ultimately have member: "r \<in> live p" "r \<notin> idle p" by auto
  have held: "snd ` (H - {(t, r)}) = snd ` H - {r}" using assms by (rule owned_image_minus)
  have inj: "inj_on snd (H - {(t, r)})" using sets(4) by (rule inj_on_subset) blast
  show ?thesis
  proof (cases usable)
    case True
    with release_usable [OF member(1)] sets held inj member(1) show ?thesis
      unfolding owned_def by auto
  next
    case False
    with release_broken [OF member(2)] sets held inj member show ?thesis
      unfolding owned_def by auto
  qed
qed

end

text \<open>The allocator never hands out the address of a live object.\<close>

definition allocates :: "allocator \<Rightarrow> bool" where
  "allocates malloc \<longleftrightarrow> (\<forall>A. finite A \<longrightarrow> malloc A \<notin> A)"

definition next_address :: allocator where
  "next_address A = (if A = {} then 1 else Suc (Max A))"

lemma next_address_allocates [simp]: "allocates next_address"
  unfolding allocates_def next_address_def by (metis Max_ge Suc_n_not_le_n empty_iff)

lemma GetClientPtr_acquires:
  assumes "GetClientPtr malloc new p w = (r, p', w')"
    and "finite (dom (heap p))" and "m_client_set p \<subseteq> dom (heap p)" and "allocates malloc"
  shows "m_client_set p' = m_client_set p - {r} \<and> dom (heap p') = insert r (dom (heap p)) \<and>
    (r \<in> m_client_set p \<or> r \<notin> dom (heap p))"
proof (cases "m_client_set p = {}")
  case True
  have "malloc (dom (heap p)) \<notin> dom (heap p)" using assms(2,4) by (simp add: allocates_def)
  with assms(1) True show ?thesis
    by (auto simp: GetClientPtr_def Let_def split: prod.splits)
next
  case False
  have "Min (m_client_set p) \<in> m_client_set p"
    using False finite_subset [OF assms(3,2)] by simp
  with assms(1,3) False show ?thesis by (auto simp: GetClientPtr_def Let_def)
qed

lemma release_client_simps [simp]:
  "m_client_set (release_client r True p) = insert r (m_client_set p)"
  "heap (release_client r True p) = heap p"
  "m_client_set (release_client r False p) = m_client_set p"
  "r \<notin> m_client_set p \<Longrightarrow> heap (release_client r False p) = (heap p)(r := None)"
  by (simp_all add: release_client_def drop_client_def FreeClientPtr_def)

interpretation pool: exclusive_pool
  "GetClientPtr malloc new_client" release_client
  m_client_set "\<lambda>p. dom (heap p)" "allocates malloc" for malloc new_client
  by unfold_locales (blast dest: GetClientPtr_acquires, simp_all)

text \<open>Every step of any thread keeps the ownership of a pool, whatever its clients are.\<close>

lemma pool_step_owned:
  assumes "pool_step malloc new_client s s'"
    and "allocates malloc" and "owned (m_client_set (fst s)) (dom (heap (fst s))) (fst (snd s))"
  shows "owned (m_client_set (fst s')) (dom (heap (fst s'))) (fst (snd s'))"
  using assms(1,3)
proof (cases rule: pool_step.cases)
  case (borrow p w client p' w' H t)
  then show ?thesis using pool.acquire_owned [OF assms(2), of p H new_client w client p' w' t] assms(3) by simp
next
  case (use_client t client H p c w c' w')
  then show ?thesis using assms(3) by (simp add: insert_absorb domI)
next
  case (hand_back t client H p w usable)
  then show ?thesis using pool.release_owned [of p H t client] assms(3) by simp
qed

lemma pool_reachable_owned:
  assumes "pool_reachable malloc new_client s" and "allocates malloc"
  shows "owned (m_client_set (fst s)) (dom (heap (fst s))) (fst (snd s))"
  using assms(1)
proof (induction rule: pool_reachable.induct)
  case (start w)
  show ?case by (simp add: owned_def empty_pool_def)
next
  case (step s s')
  then show ?case using pool_step_owned [OF _ assms(2)] by blast
qed

section \<open>No client is shared, none is lost\<close>

text \<open>C12:
  Whatever the request threads do and however their operations interleave, a client is never in the
  hands of two threads, a client that a thread holds is not in the pool, and the next borrower gets
  a client that nobody holds. Moreover no client object is lost: those alive are exactly the ones
  idle in the pool and the ones some thread holds. This is the property of the pool template, so it
  holds of \<^verbatim>\<open>AuthenClientPool\<close> and \<^verbatim>\<open>SPTradeInfoClientPool\<close> alike; the allocator is
  assumed to return addresses that are not in use.
\<close>

theorem clients_exclusive:
  assumes "pool_reachable malloc new_client (p, H, w)" and "allocates malloc"
    and "GetClientPtr malloc new_client p w = (client, p', w')"
  shows "inj_on snd H \<and> m_client_set p \<inter> snd ` H = {} \<and> dom (heap p) = m_client_set p \<union> snd ` H \<and>
     client \<notin> snd ` H \<and> client \<in> dom (heap p')"
proof -
  have own: "owned (m_client_set p) (dom (heap p)) H"
    using pool_reachable_owned [OF assms(1,2)] by simp
  then have parts: "inj_on snd H" "m_client_set p \<inter> snd ` H = {}" "m_client_set p \<union> snd ` H = dom (heap p)"
    unfolding owned_def by - (elim conjE, assumption)+
  have after: "owned (m_client_set p') (dom (heap p')) (insert (0, client) H) \<and> client \<notin> snd ` H"
    using pool.acquire_owned [OF assms(2) own assms(3)] .
  have "client \<in> dom (heap p')" by (rule owned_live [OF after [THEN conjunct1], of 0]) simp
  with parts after show ?thesis by (intro conjI) simp_all
qed

definition sample_client :: rpc_client where
  "sample_client = unconnected default_flags ''h'' 1"

lemma sample_pool_reachable:
  "pool_reachable next_address (Pair sample_client)
     (release_client 1 True \<lparr> m_client_set = {}, heap = [1 \<mapsto> sample_client] \<rparr>, {}, 0 :: nat)"
proof -
  have new: "GetClientPtr next_address (Pair sample_client) empty_pool 0 =
      (1, \<lparr> m_client_set = {}, heap = [1 \<mapsto> sample_client] \<rparr>, 0 :: nat)"
    by (simp add: GetClientPtr_def empty_pool_def next_address_def)
  have "pool_reachable next_address (Pair sample_client)
      (\<lparr> m_client_set = {}, heap = [1 \<mapsto> sample_client] \<rparr>, {(7, 1)}, 0 :: nat)"
    using pool_reachable.step [OF pool_reachable.start pool_step.borrow [OF new, where H = "{}" and t = 7]]
    by simp
  from pool_reachable.step [OF this pool_step.hand_back [where t = 7 and client = 1 and usable = True]]
  show ?thesis by simp
qed

theorem clients_exclusive_witness:
  "(1 :: nat) \<in> dom (heap \<lparr> m_client_set = {}, heap = [1 \<mapsto> sample_client] \<rparr>)"
  using clients_exclusive [OF sample_pool_reachable next_address_allocates, of 1
      "\<lparr> m_client_set = {}, heap = [1 \<mapsto> sample_client] \<rparr>" 0]
  by (simp add: GetClientPtr_def release_client_def FreeClientPtr_def drop_client_def)

end
