(* ===== verification/Proto_Types.thy ===== *)
theory Proto_Types imports Thrift_Types
begin

text \<open>
  The protocol-buffer messages of the HTTP interface, from \<^verbatim>\<open>src/proto/futures_service.proto\<close>
  and \<^verbatim>\<open>src/proto/cell_proxy_common.proto\<close>. A singular field is an option, None when it is
  not set, whether the schema calls it optional or required: the program ignores the result of
  \<^verbatim>\<open>ParseFromString\<close>, so that it can meet a message without a required field. A repeated
  field is a list. The requests have all fields of the schema; of a session, a status and the
  responses those are left out that neither the server nor its test clients read or write.
\<close>

text \<open>Reading an unset field gives the default of its type.\<close>

definition str_field :: "string option \<Rightarrow> string" where
  "str_field x = (case x of None \<Rightarrow> '''' | Some s \<Rightarrow> s)"

definition int_field :: "int option \<Rightarrow> int" where
  "int_field x = (case x of None \<Rightarrow> 0 | Some i \<Rightarrow> i)"

lemma field_simps_set [simp]:
  "str_field (Some s) = s" "str_field None = ''''" "int_field (Some i) = i" "int_field None = 0"
  by (simp_all add: str_field_def int_field_def)

text \<open>Storing an integer in an \<^verbatim>\<open>int32\<close> field keeps its low 32 bits, read as a signed number.\<close>

definition store_int32 :: "int \<Rightarrow> int" where
  "store_int32 i = signed_take_bit 31 i"

section \<open>Shared messages\<close>

record StatusInfo =
  status_no :: int
  status_message :: string

text \<open>A new status, with the defaults of its schema.\<close>

definition blank_status :: StatusInfo where
  "blank_status = \<lparr> status_no = -1, status_message = ''unknown'' \<rparr>"

record LoginSession =
  session_str :: "string option"
  uid :: "int option"

datatype FuturesError =
  ErrCode_UNKNOWN | ErrCode_SUCCESS | ErrCode_FUTURES_NOT_FOUND | ErrCode_FUTURES_INFO_BUSY
| ErrCode_FUTURES_RETURN_ERR | ErrCode_FUTURES_REQ_ERR | ErrCode_FUTURES_TRADE_ERR
| ErrCode_FUTURES_SESSION_ERR

primrec error_number :: "FuturesError \<Rightarrow> int" where
  "error_number ErrCode_UNKNOWN = 0"
| "error_number ErrCode_SUCCESS = 1"
| "error_number ErrCode_FUTURES_NOT_FOUND = 3"
| "error_number ErrCode_FUTURES_INFO_BUSY = 30002"
| "error_number ErrCode_FUTURES_RETURN_ERR = 30003"
| "error_number ErrCode_FUTURES_REQ_ERR = 30004"
| "error_number ErrCode_FUTURES_TRADE_ERR = 30005"
| "error_number ErrCode_FUTURES_SESSION_ERR = 30006"

record LableValue =
  lv_label :: "string option"
  lv_value :: "string option"

definition blank_label :: LableValue where
  "blank_label = \<lparr> lv_label = None, lv_value = None \<rparr>"

record FuturesSymbolItem =
  symbol :: "string option"
  symbol_name :: "string option"

definition blank_symbol :: FuturesSymbolItem where
  "blank_symbol = \<lparr> symbol = None, symbol_name = None \<rparr>"

record FututesOrderInfo =
  order_id :: "int option"
  symbol_item :: "FuturesSymbolItem option"
  trade_cmd :: "int option"
  trade_time :: "int option"
  order_state :: "string option"
  atts :: "LableValue list"

definition blank_order :: FututesOrderInfo where
  "blank_order = \<lparr> order_id = None, symbol_item = None, trade_cmd = None, trade_time = None,
     order_state = None, atts = [] \<rparr>"

text \<open>
  What a client tells about its device; \<^verbatim>\<open>DeviceType\<close> and \<^verbatim>\<open>AppType\<close> by their numbers.
\<close>

datatype DeviceType = DEFAULTDEVICE | ANDROID | IOS | IOS_INHOUSE | PC | MOBILE | HTML5 | OTHER

datatype AppType = JRQ | STOCK | WEB | LIFE | BaoXian | SimplifyP2P | Credit | Security

primrec app_number :: "AppType \<Rightarrow> int" where
  "app_number JRQ = 1"
| "app_number STOCK = 2"
| "app_number WEB = 3"
| "app_number LIFE = 4"
| "app_number BaoXian = 5"
| "app_number SimplifyP2P = 6"
| "app_number Credit = 7"
| "app_number Security = 8"

record TerminalInfo =
  ti_market_palace :: "int option"
  ti_version :: "int option"
  ti_device_type :: "DeviceType option"
  ti_device_key :: "string option"
  ti_lang :: "string option"
  ti_app_type :: "int option"
  ti_sys_version :: "int option"
  ti_idfa :: "string option"
  ti_refid :: "string option"
  ti_activity_refid :: "string option"
  ti_beta_version :: "int option"
  ti_network_type :: "string option"
  ti_version_code :: "int option"
  ti_mobile_phone_type :: "string option"
  ti_debug :: "bool option"
  ti_patch_version :: "string option"

section \<open>Requests\<close>

text \<open>The requests that carry an account and a session, and an index range for those that page.\<close>

record QueryMyFuturesAssetsRequest =
  assets_futures_id :: "string option"
  assets_login_session :: "LoginSession option"
  assets_terminal_info :: "TerminalInfo option"

record QueryFuturesAcconutConfigRequest =
  config_type :: "int option"
  config_login_session :: "LoginSession option"
  config_futures_id :: "string option"
  config_terminal_info :: "TerminalInfo option"

record QueryUserStatusRequest =
  ustatus_login_session :: "LoginSession option"
  ustatus_futures_id :: "string option"
  ustatus_terminal_info :: "TerminalInfo option"

record QueryPendingOrdersRequest =
  pending_futures_id :: "string option"
  pending_login_session :: "LoginSession option"
  pending_start_index :: "int option"
  pending_batch_num :: "int option"
  pending_terminal_info :: "TerminalInfo option"

record QueryHoldingOrdersRequest =
  holding_futures_id :: "string option"
  holding_login_session :: "LoginSession option"
  holding_start_index :: "int option"
  holding_batch_num :: "int option"
  holding_terminal_info :: "TerminalInfo option"

record QueryHistoryOrderRequest =
  history_futures_id :: "string option"
  history_login_session :: "LoginSession option"
  history_start_index :: "int option"
  history_batch_num :: "int option"
  history_terminal_info :: "TerminalInfo option"

record QueryOrderDetailRequest =
  detail_futures_id :: "string option"
  detail_order_id :: "int option"
  detail_login_session :: "LoginSession option"
  detail_terminal_info :: "TerminalInfo option"

record QueryTransactionRecordRequest =
  records_futures_id :: "string option"
  records_login_session :: "LoginSession option"
  records_index :: "int option"
  records_batch_num :: "int option"
  records_terminal_info :: "TerminalInfo option"

record FuturesTradeRequest =
  trade_futures_id :: "string option"
  trade_symbol :: "string option"
  trade_volume :: "string option"
  trade_type :: "int option"
  trade_price :: "string option"
  trade_signature :: "string option"
  trade_session :: "LoginSession option"
  trade_OrderOptions :: "int option"
  trade_CondType :: "int option"
  trade_OrderType :: "int option"
  trade_ValidType :: "int option"
  trade_price_digits :: "int option"
  trade_terminal_info :: "TerminalInfo option"

record CancelPendingOrderRequest =
  cancel_futures_id :: "string option"
  cancel_order_id :: "string option"
  cancel_symbol :: "string option"
  cancel_session :: "LoginSession option"
  cancel_terminal_info :: "TerminalInfo option"

record TradeConfirmInfoRequest =
  confirm_futures_id :: "string option"
  confirm_session :: "LoginSession option"
  confirm_trade_type :: "int option"
  confirm_symbol :: "string option"
  confirm_price :: "double option"
  confirm_volume :: "double option"
  confirm_terminal_info :: "TerminalInfo option"

record QuerySymbolTradeInfoRequest =
  tinfo_futures_id :: "string option"
  tinfo_symbol :: "string option"
  tinfo_session :: "LoginSession option"
  tinfo_terminal_info :: "TerminalInfo option"

record QuerySymbolByNameRequest =
  byname_key :: "string option"
  byname_features_id :: "string option"
  byname_terminal_info :: "TerminalInfo option"

record SymbolTypeRecommendRequest =
  recommend_features_id :: "string option"
  recommend_terminal_info :: "TerminalInfo option"

record SymbolListByTypeRequest =
  bytype_features_id :: "string option"
  bytype_terminal_info :: "TerminalInfo option"

record QueryFifthOrderRequest =
  fifth_futures_id :: "string option"
  fifth_symbol :: "string option"
  fifth_login_session :: "LoginSession option"
  fifth_terminal_info :: "TerminalInfo option"

record QuerySymbolQuotationsRequest =
  quotations_futures_id :: "string option"
  quotations_session :: "LoginSession option"
  quotations_symbols :: "string list"
  quotations_terminal_info :: "TerminalInfo option"

text \<open>The requests for the minute graph and for the candles have the same fields.\<close>

record FuturesGraphRequest =
  graph_futures_id :: "string option"
  graph_symbol :: "string option"
  graph_period :: "int option"
  graph_terminal_info :: "TerminalInfo option"

type_synonym FuturesKLineRequest = FuturesGraphRequest

section \<open>Responses\<close>

record QueryMyFuturesAssetsReturn =
  assets_status_info :: "StatusInfo option"
  total_net_worth :: "string option"
  real_buy_pwr :: "string option"
  basic_deposit :: "string option"
  pre_deposit :: "string option"
  profit_today :: "string option"

record FuturesSubAccountConfigInfoList =
  caption_des :: "string option"
  scheme :: "string option"
  item_icon :: "string option"

definition blank_config_item :: FuturesSubAccountConfigInfoList where
  "blank_config_item = \<lparr> caption_des = None, scheme = None, item_icon = None \<rparr>"

text \<open>A plate of configuration items: its title is never set.\<close>

type_synonym FuturesAccountConfigInfoList = "FuturesSubAccountConfigInfoList list"

record QueryFuturesAccountConfigReturn =
  config_status_info :: "StatusInfo option"
  config_info_plate_list :: "FuturesAccountConfigInfoList list"

record QueryUserStatusReturn =
  ustatus_status_info :: "StatusInfo option"
  status_url :: "string option"

text \<open>The lists of pending, held and past orders have the same fields.\<close>

record QueryOrdersReturn =
  orders_status_info :: "StatusInfo option"
  orders :: "FututesOrderInfo list"
  orders_has_more :: "bool option"

type_synonym QueryPendingOrdersReturn = QueryOrdersReturn
type_synonym QueryHoldingOrdersReturn = QueryOrdersReturn
type_synonym QueryHistoryOrderReturn = QueryOrdersReturn

record QueryOrderDetailReturn =
  detail_status_info :: "StatusInfo option"
  order_detail :: "FututesOrderInfo option"

record TransactionRecord =
  rec_description :: "string option"
  rec_money :: "string option"
  rec_create_time :: "int option"

record QueryTransactionRecordReturn =
  records_status_info :: "StatusInfo option"
  records :: "TransactionRecord list"
  records_has_more :: "bool option"

text \<open>The responses of which the program sets the status and nothing else.\<close>

record StatusReturn =
  only_status_info :: "StatusInfo option"

type_synonym FuturesTradeReturn = StatusReturn
type_synonym FututesCancelPendingOrderReturn = StatusReturn
type_synonym SymbolTypeRecommendReturn = StatusReturn
type_synonym SymbolListByTypeReturn = StatusReturn
type_synonym QueryFifthOrderReturn = StatusReturn
type_synonym QuerySymbolQuotationsReturn = StatusReturn
type_synonym FuturesGraphReturn = StatusReturn
type_synonym FuturesKLineReturn = StatusReturn

record QuerySymbolByNameReturn =
  byname_status_info :: "StatusInfo option"
  symbols :: "FuturesSymbolItem list"

record TradeConfirmInfoReturn =
  confirm_status_info :: "StatusInfo option"
  security_deposit :: "string option"
  commission :: "string option"

record FuturesSymbolTradeInfo =
  base_info :: "FuturesSymbolItem option"
  lots_step :: "double option"
  price_digits :: "int option"
  margin_peer_lot :: "double option"
  trade_fee :: "double option"

definition blank_trade_info :: FuturesSymbolTradeInfo where
  "blank_trade_info = \<lparr> base_info = None, lots_step = None, price_digits = None,
     margin_peer_lot = None, trade_fee = None \<rparr>"

record QuerySymbolTradeInfoReturn =
  tinfo_status_info :: "StatusInfo option"
  symbol_info :: "FuturesSymbolTradeInfo option"

end
