(* ===== verification/Common_Util.thy ===== *)
theory Common_Util imports Proto_Types
begin

text \<open>
  The helpers of \<^verbatim>\<open>src/common/common.cc\<close> and \<^verbatim>\<open>src/common/define.h\<close>: filling a
  status, naming a request by the clock, the HTTP client over libcurl, number formatting and the
  encryption of the trade signature. The clock, libcurl and Crypto++ are parameters.
\<close>

section \<open>Status, labels and request names\<close>

definition FillStatusInfo :: "StatusInfo \<Rightarrow> int \<Rightarrow> string \<Rightarrow> StatusInfo" where
  "FillStatusInfo status_info no message =
     status_info\<lparr>status_no := no, status_message := message\<rparr>"

text \<open>\<^verbatim>\<open>FillStatusInfo(resp->mutable_status_info(), error, message)\<close>.\<close>

definition fill_status :: "StatusInfo option \<Rightarrow> FuturesError \<Rightarrow> string \<Rightarrow> StatusInfo option" where
  "fill_status status err message =
     Some (FillStatusInfo (case status of None \<Rightarrow> blank_status | Some s \<Rightarrow> s) (error_number err) message)"

definition FillLableValue :: "LableValue \<Rightarrow> string \<Rightarrow> string \<Rightarrow> LableValue" where
  "FillLableValue label_value label value' =
     label_value\<lparr>lv_label := Some label, lv_value := Some value'\<rparr>"

text \<open>
  \<open>clock\<close> reads the system clock, in nanoseconds since its epoch. The request identifier is the
  decimal text of that number.
\<close>

definition GenerateUniqueID ::
  "('w \<Rightarrow> int \<times> 'w) \<Rightarrow> string \<Rightarrow> int \<Rightarrow> 'w \<Rightarrow> AccessInfo \<times> 'w" where
  "GenerateUniqueID clock name_of_caller type_of_caller w =
     (case clock w of (tp, w') \<Rightarrow>
        (\<lparr> request_id = decimal_int tp, access_name = name_of_caller, access_type = type_of_caller \<rparr>, w'))"

section \<open>Numbers and encryption\<close>

text \<open>The output of \<^verbatim>\<open>snprintf\<close> is cut at the 127 characters that fit the buffer.\<close>

definition DoubleToString :: "floating \<Rightarrow> double \<Rightarrow> int \<Rightarrow> string" where
  "DoubleToString fp x digits = take 127 (fp_fixed2 fp x)"

text \<open>
  AES in CFB mode, as \<open>key \<Rightarrow> iv \<Rightarrow> plaintext \<Rightarrow> ciphertext\<close>, and the Base64 encoder without line
  breaks.
\<close>

record cryptopp =
  aes_cfb :: "string \<Rightarrow> string \<Rightarrow> string \<Rightarrow> string"
  base64 :: "string \<Rightarrow> string"

definition aes_key :: string where
  "aes_key = ''FormaxmarketInternetBusinessDept''"

definition aes_iv :: string where
  "aes_iv = ''0123456789123456''"

definition AESEncrypt :: "cryptopp \<Rightarrow> string \<Rightarrow> string" where
  "AESEncrypt cr str_in = base64 cr (aes_cfb cr aes_key aes_iv str_in)"

section \<open>Messages on one line\<close>

text \<open>
  \<^verbatim>\<open>operator <<\<close> of a message: the loop that finds the next newline from where it stands and
  overwrites it with a space.
\<close>

definition find_newline :: "string \<Rightarrow> nat \<Rightarrow> nat option" where
  "find_newline s pos = map_option (\<lambda>k. pos + k) (find_sub [LF] (drop pos s))"

lemma find_newline_Some:
  assumes "find_newline s pos = Some k"
  shows "pos \<le> k \<and> k < length s \<and> s ! k = LF \<and> (\<forall>j. pos \<le> j \<and> j < k \<longrightarrow> s ! j \<noteq> LF)"
proof -
  obtain m where m: "find_sub [LF] (drop pos s) = Some m" and k: "k = pos + m"
    using assms by (auto simp: find_newline_def)
  have bound: "m < length (drop pos s)" using find_sub_bound [OF m] by simp
  have take1: "take (Suc 0) (drop j (drop pos s)) = [s ! (pos + j)]" if "j < length (drop pos s)" for j
    using that by (simp add: take_Suc_conv_app_nth add.commute)
  have here: "s ! (pos + m) = LF" using m take1 [OF bound] by (simp add: find_sub_Some_iff)
  have before: "s ! (pos + j) \<noteq> LF" if "j < m" for j
    using m that bound take1 [of j] by (auto simp: find_sub_Some_iff)
  have "s ! j \<noteq> LF" if "pos \<le> j" "j < k" for j
    using before [of "j - pos"] that k by simp
  with here bound k show ?thesis by auto
qed

lemma find_newline_None:
  assumes "find_newline s pos = None" and "pos \<le> j" and "j < length s"
  shows "s ! j \<noteq> LF"
proof -
  have none: "find_sub [LF] (drop pos s) = None" using assms(1) by (simp add: find_newline_def)
  have "j - pos < length (drop pos s)" using assms(2,3) by simp
  then have "take (Suc 0) (drop (j - pos) (drop pos s)) = [s ! j]"
    using assms(2) by (simp add: take_Suc_conv_app_nth)
  moreover have "take (Suc 0) (drop (j - pos) (drop pos s)) \<noteq> [LF]"
    using none \<open>j - pos < length (drop pos s)\<close> by (auto simp: find_sub_None_iff)
  ultimately show ?thesis by simp
qed

function one_line_from :: "string \<Rightarrow> nat \<Rightarrow> string" where
  "one_line_from s pos =
     (case find_newline s pos of
        None \<Rightarrow> s
      | Some k \<Rightarrow> one_line_from (s[k := SP]) k)"
  by pat_completeness auto

lemma newline_count_decreases:
  assumes "k < length s" and "s ! k = LF"
  shows "length (filter (\<lambda>c. c = LF) (s[k := SP])) < length (filter (\<lambda>c. c = LF) s)"
proof -
  define a b where "a = take k s" and "b = drop (Suc k) s"
  have s: "s = a @ LF # b" using id_take_nth_drop [OF assms(1)] assms(2) by (simp add: a_def b_def)
  have "s[k := SP] = a @ SP # b"
    using assms(1) by (simp add: upd_conv_take_nth_drop a_def b_def)
  then show ?thesis by (simp only: s filter_append) simp
qed

termination one_line_from
  by (relation "measure (\<lambda>(s, pos). length (filter (\<lambda>c. c = LF) s))")
    (auto dest!: find_newline_Some intro: newline_count_decreases)

declare one_line_from.simps [simp del]

text \<open>The stream gets the debug text \<open>s\<close> of the message in this form.\<close>

definition one_line :: "string \<Rightarrow> string" where
  "one_line s = one_line_from s 0"

section \<open>HTTP calls\<close>

text \<open>
  libcurl: \<open>easy_init\<close> says whether a handle was made; \<open>easy_perform\<close> transfers an URL, giving the
  blocks it hands to the write callback and the result code; \<open>response_code\<close> is the HTTP status
  of the last transfer. The handle's other options set time-outs and name resolution.
\<close>

record 'w curl =
  easy_init :: "'w \<Rightarrow> bool \<times> 'w"
  easy_perform :: "string \<Rightarrow> 'w \<Rightarrow> (string list \<times> int) \<times> 'w"
  response_code :: "'w \<Rightarrow> int"
  CURLE_OK :: int
  CURLE_FAILED_INIT :: int

text \<open>
  The write callback copies \<open>sz * nmemb\<close> characters with a 32-bit counter, whose comparison
  with a larger product never fails, and reads past a block that is shorter; both are undefined
  (None). The number it returns is converted to \<^verbatim>\<open>int\<close>.
\<close>

definition curlStroreRst :: "string \<Rightarrow> nat \<Rightarrow> nat \<Rightarrow> string \<Rightarrow> (string \<times> int) option" where
  "curlStroreRst data sz nmemb result =
     (if sz * nmemb \<ge> 2 ^ 32 \<or> sz * nmemb > length data then None
      else Some (result @ take (sz * nmemb) data, store_int32 (int (sz * nmemb))))"

fun store_blocks :: "string list \<Rightarrow> string \<Rightarrow> string option" where
  "store_blocks [] result = Some result"
| "store_blocks (data # blocks) result =
     (case curlStroreRst data 1 (length data) result of
        None \<Rightarrow> None
      | Some (result', n) \<Rightarrow> store_blocks blocks result')"

text \<open>The loop \<^verbatim>\<open>while (try_nums-- > 0)\<close> of transfers, with the code of the last one.\<close>

fun curl_tries :: "'w curl \<Rightarrow> string \<Rightarrow> nat \<Rightarrow> int \<Rightarrow> string \<Rightarrow> 'w \<Rightarrow> (int \<times> string \<times> 'w) option" where
  "curl_tries cu url 0 res strRst w = Some (res, strRst, w)"
| "curl_tries cu url (Suc try_nums) res strRst w =
     (case easy_perform cu url w of ((blocks, code), w') \<Rightarrow>
        (case store_blocks blocks strRst of
           None \<Rightarrow> None
         | Some strRst' \<Rightarrow>
             if code = CURLE_OK cu then Some (code, strRst', w')
             else curl_tries cu url try_nums code strRst' w'))"

text \<open>
  \<^verbatim>\<open>fnDoCurl\<close> returns its code and the string it was given with what it appended to it. The
  value of \<^verbatim>\<open>res\<close> before the first transfer is never used, since there are two tries.
\<close>

definition fnDoCurl :: "'w curl \<Rightarrow> string \<Rightarrow> string \<Rightarrow> 'w \<Rightarrow> (int \<times> string \<times> 'w) option" where
  "fnDoCurl cu strURL strRst w =
     (case easy_init cu w of (made, w1) \<Rightarrow>
        if \<not> made then Some (CURLE_FAILED_INIT cu, strRst, w1)
        else
          (case curl_tries cu (cstr strURL) 2 0 strRst w1 of
             None \<Rightarrow> None
           | Some (res, strRst', w2) \<Rightarrow>
               if res \<noteq> CURLE_OK cu then Some (res, strRst', w2)
               else if strRst' = [] \<and> response_code cu w2 \<noteq> 200 then Some (res, strRst', w2)
               else Some (0, strRst', w2)))"

section \<open>What the helpers guarantee\<close>

lemma one_line_from_map:
  "one_line_from s pos = take pos s @ map (\<lambda>c. if c = LF then SP else c) (drop pos s)"
proof (induction s pos rule: one_line_from.induct)
  case (1 s pos)
  let ?f = "\<lambda>c. if c = LF then SP else c"
  show ?case
  proof (cases "find_newline s pos")
    case None
    have "map ?f (drop pos s) = drop pos s"
      using find_newline_None [OF None] by (intro nth_equalityI) auto
    then show ?thesis using None by (simp add: one_line_from.simps [of s])
  next
    case (Some k)
    note k = find_newline_Some [OF Some]
    have "one_line_from s pos = take k (s[k := SP]) @ map ?f (drop k (s[k := SP]))"
      using 1 Some by (simp add: one_line_from.simps [of s])
    also have "\<dots> = take pos s @ map ?f (drop pos s)"
    proof (rule nth_equalityI)
      fix i
      assume "i < length (take k (s[k := SP]) @ map ?f (drop k (s[k := SP])))"
      then have i: "i < length s" using k by simp
      consider "i < pos" | "pos \<le> i" "i < k" | "i = k" | "k < i" by linarith
      then show "(take k (s[k := SP]) @ map ?f (drop k (s[k := SP]))) ! i =
          (take pos s @ map ?f (drop pos s)) ! i"
        by cases (use k i in \<open>auto simp: nth_append nth_list_update\<close>)
    qed (use k in simp)
    finally show ?thesis .
  qed
qed

lemma curlStroreRst_block:
  "length data < 2 ^ 32 \<Longrightarrow>
     curlStroreRst data 1 (length data) result = Some (result @ data, store_int32 (int (length data)))"
  by (simp add: curlStroreRst_def)

lemma store_blocks_concat:
  "\<lbrakk>\<And>b. b \<in> set blocks \<Longrightarrow> length b < 2 ^ 32\<rbrakk> \<Longrightarrow> store_blocks blocks result = Some (result @ concat blocks)"
  by (induction blocks arbitrary: result) (simp_all add: curlStroreRst_block [simplified])

text \<open>
  Writing a message to a log puts it on one line: the loop over the newlines ends, and what it has
  done by then is to replace every newline by a space and nothing else.
\<close>

lemma one_line_replaces_newlines:
  "one_line s = map (\<lambda>c. if c = LF then SP else c) s \<and> LF \<notin> set (one_line s)"
  by (auto simp: one_line_def one_line_from_map)

text \<open>C29:
  An HTTP call makes at most two transfers, the second only if the first failed, and returns 0
  exactly when one of them ends with \<^verbatim>\<open>CURLE_OK\<close>: the HTTP status does not matter, so that an
  error page counts as an answer, and even an empty answer with a status other than 200 returns the
  (successful) result code. The output is what the caller passed in followed by everything that was
  received, so that the beginning of a failed first answer stays in front of the second one. libcurl
  is assumed to number \<^verbatim>\<open>CURLE_OK\<close> 0 and to hand over blocks shorter than 4 GB.
\<close>

theorem fnDoCurl_result:
  assumes "CURLE_OK cu = 0" and "easy_init cu w = (True, w1)"
    and "easy_perform cu (cstr url) w1 = ((blocks1, code1), w2)"
    and "easy_perform cu (cstr url) w2 = ((blocks2, code2), w3)"
    and "\<And>b. b \<in> set blocks1 \<union> set blocks2 \<Longrightarrow> length b < 2 ^ 32"
  shows "fnDoCurl cu url out w =
     (if code1 = 0 then Some (0, out @ concat blocks1, w2)
      else Some (code2, out @ concat blocks1 @ concat blocks2, w3))"
proof -
  have first: "store_blocks blocks1 out' = Some (out' @ concat blocks1)" for out'
    using assms(5) by (intro store_blocks_concat) simp
  have second: "store_blocks blocks2 out' = Some (out' @ concat blocks2)" for out'
    using assms(5) by (intro store_blocks_concat) simp
  show ?thesis
    using assms(1-4) by (simp add: fnDoCurl_def numeral_2_eq_2 first second)
qed

definition sample_curl :: "nat curl" where
  "sample_curl = \<lparr> easy_init = (\<lambda>w. (True, w)),
     easy_perform = (\<lambda>url w. if w = 0 then (([''[1''], 28), 1) else (([''[2]''], 0), 2)),
     response_code = (\<lambda>w. 500), CURLE_OK = 0, CURLE_FAILED_INIT = 2 \<rparr>"

theorem fnDoCurl_result_witness:
  "fnDoCurl sample_curl ''http://h/'' '''' 0 = Some (0, ''[1[2]'', 2)"
proof -
  have "fnDoCurl sample_curl ''http://h/'' '''' 0 =
      (if (28 :: int) = 0 then Some (0, '''' @ concat [''[1''], 1)
       else Some (0, '''' @ concat [''[1''] @ concat [''[2]''], 2))"
    by (rule fnDoCurl_result [where ?w1.0 = 0]) (auto simp: sample_curl_def)
  then show ?thesis by simp
qed

end
