(* ===== verification/Futures_Convert.thy ===== *)
theory Futures_Convert imports Common_Util Config
begin

text \<open>
  The translation of the trading service's answers into the messages of the HTTP interface:
  \<^verbatim>\<open>FuturesConvert\<close> in \<^verbatim>\<open>src/src/futures_convert.cc\<close>. Each function fills the response
  that it is given. Chinese captions are written by their UTF-8 bytes, with the meaning in the name.
\<close>

section \<open>Captions\<close>

named_theorems caption_defs

definition txt_traded :: string where
  [caption_defs]: "txt_traded = utf8 [229,183,178,230,136,144,228,186,164]"
definition txt_part_traded :: string where
  [caption_defs]: "txt_part_traded = utf8 [233,131,168,229,136,134,229,183,178,230,136,144,228,186,164]"
definition txt_not_traded :: string where
  [caption_defs]: "txt_not_traded = utf8 [230,156,170,230,136,144,228,186,164]"
definition txt_order_qty :: string where
  [caption_defs]: "txt_order_qty = utf8 [229,167,148,230,137,152,230,149,176,233,135,143]"
definition txt_traded_qty :: string where
  [caption_defs]: "txt_traded_qty = utf8 [230,136,144,228,186,164,230,149,176,233,135,143]"
definition txt_order_price :: string where
  [caption_defs]: "txt_order_price = utf8 [229,167,148,230,137,152,228,187,183,230,160,188]"
definition txt_traded_price :: string where
  [caption_defs]: "txt_traded_price = utf8 [230,136,144,228,186,164,228,187,183,230,160,188]"
definition txt_order_time :: string where
  [caption_defs]: "txt_order_time = utf8 [229,167,148,230,137,152,230,151,182,233,151,180]"
definition txt_traded_time :: string where
  [caption_defs]: "txt_traded_time = utf8 [230,136,144,228,186,164,230,151,182,233,151,180]"
definition txt_fees :: string where
  [caption_defs]: "txt_fees = utf8 [228,189,163,233,135,145,228,187,165,229,143,138,229,184,130,229,156,186,232,180,185,231,148,168]"
definition txt_position_profit :: string where
  [caption_defs]: "txt_position_profit = utf8 [230,140,129,228,187,147,231,155,136,228,186,143]"
definition txt_deposit :: string where
  [caption_defs]: "txt_deposit = utf8 [228,191,157,232,175,129,233,135,145]"
definition txt_sell_profit :: string where
  [caption_defs]: "txt_sell_profit = utf8 [229,141,150,229,135,186,231,155,136,228,186,143]"
definition txt_price_ordered :: string where
  [caption_defs]: "txt_price_ordered = utf8 [229,167,148,230,137,152,228,187,183]"
definition txt_lots :: string where
  [caption_defs]: "txt_lots = utf8 [230,137,139,230,149,176]"
definition txt_price_now :: string where
  [caption_defs]: "txt_price_now = utf8 [231,142,176,228,187,183]"
definition txt_average_price :: string where
  [caption_defs]: "txt_average_price = utf8 [229,185,179,229,157,135,228,187,183]"
definition txt_net_position :: string where
  [caption_defs]: "txt_net_position = utf8 [229,135,128,228,187,147]"
definition txt_market_price :: string where
  [caption_defs]: "txt_market_price = utf8 [229,184,130,228,187,183]"
definition txt_profit_loss :: string where
  [caption_defs]: "txt_profit_loss = utf8 [231,155,136,228,186,143]"
definition txt_buy :: string where
  [caption_defs]: "txt_buy = utf8 [228,185,176,229,133,165]"
definition txt_sell :: string where
  [caption_defs]: "txt_sell = utf8 [229,141,150,229,135,186]"
definition txt_fund_in :: string where
  [caption_defs]: "txt_fund_in = utf8 [229,133,165,233,135,145]"
definition txt_fund_out :: string where
  [caption_defs]: "txt_fund_out = utf8 [229,135,186,233,135,145]"
definition txt_reset_password :: string where
  [caption_defs]: "txt_reset_password = utf8 [233,135,141,231,189,174,230,156,159,232,180,167,228,186,164,230,152,147,229,175,134,231,160,129]"

section \<open>Search results\<close>

text \<open>
  JsonCpp: \<open>js_parse\<close> is \<^verbatim>\<open>Reader::parse\<close> (None when it fails), \<open>js_size\<close> is
  \<^verbatim>\<open>size()\<close>, the others are the two forms of \<^verbatim>\<open>operator[]\<close> and \<^verbatim>\<open>asString()\<close>,
  None when they throw because the value has another type.
\<close>

record 'j jsoncpp =
  js_parse :: "string \<Rightarrow> 'j option"
  js_size :: "'j \<Rightarrow> nat"
  js_at :: "'j \<Rightarrow> nat \<Rightarrow> 'j option"
  js_member :: "'j \<Rightarrow> string \<Rightarrow> 'j option"
  js_asString :: "'j \<Rightarrow> string option"

definition js_text :: "'j jsoncpp \<Rightarrow> 'j \<Rightarrow> nat \<Rightarrow> string \<Rightarrow> string option" where
  "js_text js root i key =
     Option.bind (js_at js root i) (\<lambda>item. Option.bind (js_member js item key) (js_asString js))"

text \<open>The loop over the indices that are left; None is an exception that leaves the function.\<close>

fun symbols_from :: "'j jsoncpp \<Rightarrow> 'j \<Rightarrow> nat list \<Rightarrow> FuturesSymbolItem list \<Rightarrow> FuturesSymbolItem list option" where
  "symbols_from js root [] items = Some items"
| "symbols_from js root (i # is) items =
     (case js_text js root i ''futureId'' of
        None \<Rightarrow> None
      | Some code \<Rightarrow>
          (case js_text js root i ''futureName'' of
             None \<Rightarrow> None
           | Some title \<Rightarrow>
               symbols_from js root is
                 (items @ [blank_symbol\<lparr>symbol := Some code, symbol_name := Some title\<rparr>])))"

definition ToProtoSymbolByName ::
  "'j jsoncpp \<Rightarrow> 'j \<Rightarrow> QuerySymbolByNameReturn \<Rightarrow> QuerySymbolByNameReturn option" where
  "ToProtoSymbolByName js root resp =
     map_option (\<lambda>items. resp\<lparr>symbols := items\<rparr>)
       (symbols_from js root [0 ..< js_size js root] (symbols resp))"

section \<open>Assets\<close>

definition ToProtoMyFuturesAsset ::
  "floating \<Rightarrow> GetAccInfoResp \<Rightarrow> QueryMyFuturesAssetsReturn \<Rightarrow> QueryMyFuturesAssetsReturn" where
  "ToProtoMyFuturesAsset fp acc_info_resp resp =
     (let acc = accInfo acc_info_resp;
          profit = (if TodayProfitFlag acc = 1 then TodayProfit acc else ''--'')
      in resp\<lparr>total_net_worth := Some (DoubleToString fp (NAV acc) 2),
              real_buy_pwr := Some (DoubleToString fp (BuyingPower acc) 2),
              basic_deposit := Some (DoubleToString fp (acc_IMargin acc) 2),
              pre_deposit := Some (DoubleToString fp (MMargin acc) 2),
              profit_today := Some profit\<rparr>)"

section \<open>Orders\<close>

text \<open>\<^verbatim>\<open>FillLableValue(order_info->add_atts(), label, value)\<close>.\<close>

definition add_att :: "string \<Rightarrow> string \<Rightarrow> FututesOrderInfo \<Rightarrow> FututesOrderInfo" where
  "add_att label text' order = order\<lparr>atts := atts order @ [FillLableValue blank_label label text']\<rparr>"

definition order_status_text :: "enumerators \<Rightarrow> int \<Rightarrow> string" where
  "order_status_text en status =
     (if status = ORDSTAT_TRADED en then txt_traded
      else if status = ORDSTAT_PARTTRD_WRK en then txt_part_traded
      else txt_not_traded)"

text \<open>The direction of an order, and for a purchase its state.\<close>

definition set_direction_state :: "enumerators \<Rightarrow> char \<Rightarrow> int \<Rightarrow> FututesOrderInfo \<Rightarrow> FututesOrderInfo" where
  "set_direction_state en buy_sell status order =
     (if buy_sell = CHR ''B''
      then order\<lparr>trade_cmd := Some 1, order_state := Some (order_status_text en status)\<rparr>
      else order\<lparr>trade_cmd := Some 2\<rparr>)"

definition set_direction :: "char \<Rightarrow> FututesOrderInfo \<Rightarrow> FututesOrderInfo" where
  "set_direction buy_sell order =
     order\<lparr>trade_cmd := Some (if buy_sell = CHR ''B'' then 1 else 2)\<rparr>"

definition ToProtoOrderDetail ::
  "floating \<Rightarrow> enumerators \<Rightarrow> GetOrderByNoResp \<Rightarrow> QueryOrderDetailReturn \<Rightarrow> QueryOrderDetailReturn" where
  "ToProtoOrderDetail fp en order_detail_resp resp =
     (if isset_orderInfo order_detail_resp then
        let info = orderInfo order_detail_resp;
            o0 = (case order_detail resp of None \<Rightarrow> blank_order | Some order \<Rightarrow> order);
            o1 = o0\<lparr>order_id := Some (store_int32 (ord_IntOrderNo info))\<rparr>;
            o2 = set_direction_state en (ord_BuySell info) (ord_Status info) o1;
            o3 = o2\<lparr>trade_time := Some (ord_ValidTime info)\<rparr>;
            o4 = add_att txt_order_qty (fp_to_string fp (ord_TotalQty info)) o3;
            o5 = add_att txt_traded_qty (fp_to_string fp (ord_TradedQty info)) o4;
            o6 = add_att txt_order_price (fp_to_string fp (ord_EntrustPrice info)) o5;
            o7 = add_att txt_traded_price (fp_to_string fp (ord_Price info)) o6;
            o8 = add_att txt_order_time (decimal_int (ord_TimeStamp info)) o7;
            o9 = add_att txt_traded_time (decimal_int (ord_ValidTime info)) o8;
            o10 = add_att txt_fees (fp_to_string fp (ord_Fees info)) o9;
            o11 = (if ord_BuySell info = CHR ''B''
                   then add_att txt_deposit (fp_to_string fp (ord_Deposit info))
                          (add_att txt_position_profit (fp_to_string fp (ord_Profit info)) o10)
                   else add_att txt_sell_profit (fp_to_string fp (ord_Profit info)) o10)
        in resp\<lparr>order_detail := Some o11\<rparr>
      else resp)"

definition active_order :: "floating \<Rightarrow> ActiveOrder \<Rightarrow> FututesOrderInfo" where
  "active_order fp item =
     add_att txt_price_now (fp_to_string fp (act_CurrentPrice item))
       (add_att txt_lots (fp_to_string fp (act_Qty item))
         (add_att txt_price_ordered (fp_to_string fp (act_Price item))
           ((set_direction (act_BuySell item)
              (blank_order\<lparr>order_id := Some (store_int32 (act_IntOrderNo item)),
                           symbol_item := Some (blank_symbol\<lparr>symbol := Some (act_ProdCode item)\<rparr>)\<rparr>))
            \<lparr>trade_time := Some (act_ValidTime item)\<rparr>)))"

definition ToProtoActiveOrders ::
  "floating \<Rightarrow> GetActiveOrderResp \<Rightarrow> QueryPendingOrdersReturn \<Rightarrow> QueryPendingOrdersReturn" where
  "ToProtoActiveOrders fp order_detail_resp resp =
     resp\<lparr>orders := orders resp @ map (active_order fp) (ActiveOrders order_detail_resp),
          orders_has_more := Some (actr_has_more order_detail_resp)\<rparr>"

text \<open>
  The net quantity \<^verbatim>\<open>item.Qty+item.LongQty-item.ShortQty\<close>, and the average price, which is
  zero when the net quantity is within \<open>0.00001\<close> of zero.
\<close>

definition net_quantity :: "floating \<Rightarrow> Position \<Rightarrow> double" where
  "net_quantity fp item = fp_sub fp (fp_add fp (pos_Qty item) (LongQty item)) (ShortQty item)"

definition average_price :: "floating \<Rightarrow> Position \<Rightarrow> double" where
  "average_price fp item =
     (if fp_less fp (fp_literal fp 1 5) (net_quantity fp item)
         \<or> fp_less fp (net_quantity fp item) (fp_literal fp (-1) 5)
      then fp_div fp (fp_sub fp (fp_add fp (DepTotalAmt item) (LongTotalAmt item)) (ShortTotalAmt item))
             (net_quantity fp item)
      else fp_literal fp 0 2)"

definition position_order :: "floating \<Rightarrow> Position \<Rightarrow> FututesOrderInfo" where
  "position_order fp item =
     add_att txt_profit_loss (DoubleToString fp (PL item) 1)
       (add_att txt_market_price (DoubleToString fp (MarketPrice item) 1)
         (add_att txt_net_position (DoubleToString fp (net_quantity fp item) 1)
           (add_att txt_average_price (DoubleToString fp (average_price fp item) 1)
             ((set_direction (LongShort item)
                (blank_order\<lparr>order_id := Some 0,
                             symbol_item := Some (blank_symbol\<lparr>symbol := Some (pos_ProdCode item)\<rparr>)\<rparr>))
              \<lparr>trade_time := Some 0\<rparr>))))"

definition ToProtoPosition ::
  "floating \<Rightarrow> GetPositionResp \<Rightarrow> QueryHoldingOrdersReturn \<Rightarrow> QueryHoldingOrdersReturn" where
  "ToProtoPosition fp position_resp resp =
     resp\<lparr>orders := orders resp @ map (position_order fp) (PositionList position_resp),
          orders_has_more := Some (posr_has_more position_resp)\<rparr>"

definition history_order :: "enumerators \<Rightarrow> HisOrder \<Rightarrow> FututesOrderInfo" where
  "history_order en item =
     (set_direction_state en (his_BuySell item) (his_Status item)
        (blank_order\<lparr>order_id := Some (store_int32 (his_IntOrderNo item)),
                     symbol_item := Some (blank_symbol\<lparr>symbol := Some (his_ProdCode item)\<rparr>)\<rparr>))
     \<lparr>trade_time := Some (his_ValidTime item)\<rparr>"

definition ToProtoHistoryOrders ::
  "enumerators \<Rightarrow> GetHisOrderResp \<Rightarrow> QueryHistoryOrderReturn \<Rightarrow> QueryHistoryOrderReturn" where
  "ToProtoHistoryOrders en his_order_resp resp =
     resp\<lparr>orders := orders resp @ map (history_order en) (his_orders his_order_resp)\<rparr>"

section \<open>The configuration of the account page\<close>

definition config_item :: "string \<Rightarrow> string \<Rightarrow> string \<Rightarrow> FuturesSubAccountConfigInfoList \<Rightarrow> FuturesSubAccountConfigInfoList" where
  "config_item caption target icon item =
     item\<lparr>caption_des := Some caption, scheme := Some target, item_icon := Some icon\<rparr>"

definition trade_scheme :: string where
  "trade_scheme = ''formaxsecurity://futuresTrade''"

text \<open>
  In the second plate the entry for withdrawals is added, but it is the entry for deposits that is
  filled a second time.
\<close>

definition ToProtoFuturesAccountConfig ::
  "flags \<Rightarrow> QueryFuturesAcconutConfigRequest \<Rightarrow> QueryFuturesAccountConfigReturn \<Rightarrow> QueryFuturesAccountConfigReturn" where
  "ToProtoFuturesAccountConfig fl req resp =
     (if int_field (config_type req) = 0 then
        let buy_info = config_item txt_buy trade_scheme (FLAGS_buy_icon_url fl) blank_config_item;
            sell_info = config_item txt_sell trade_scheme (FLAGS_sell_icon_url fl) blank_config_item;
            fund_in = config_item txt_fund_in (FLAGS_futures_fund_in_url fl) (FLAGS_fund_in_icon_url fl)
                        blank_config_item;
            fund_out = config_item txt_fund_out (FLAGS_futures_fund_out_url fl) (FLAGS_fund_out_icon_url fl)
                        blank_config_item
        in resp\<lparr>config_info_plate_list :=
                  config_info_plate_list resp @ [[buy_info, sell_info, fund_in, fund_out]]\<rparr>
      else
        let fund_in = config_item txt_fund_in (FLAGS_futures_fund_in_url fl) (FLAGS_fund_in_icon_url fl)
                        blank_config_item;
            fund_out = blank_config_item;
            fund_in' = config_item txt_fund_out (FLAGS_futures_fund_out_url fl) (FLAGS_fund_out_icon_url fl)
                        fund_in;
            change_passwd = config_item txt_reset_password ''www.baidu.com'' ''TODO'' blank_config_item
        in resp\<lparr>config_info_plate_list :=
                  config_info_plate_list resp @ [[fund_in', fund_out, change_passwd]]\<rparr>)"

section \<open>Cash flow and fees\<close>

definition transaction_record :: "FundInOut \<Rightarrow> TransactionRecord" where
  "transaction_record item =
     \<lparr> rec_description = Some (if fun_description item = 1 then txt_fund_out else txt_fund_in),
       rec_money = Some (fun_money item), rec_create_time = Some (fun_create_time item) \<rparr>"

definition ToProtoFundRecord ::
  "GetFundInOutRecordResp \<Rightarrow> QueryTransactionRecordReturn \<Rightarrow> QueryTransactionRecordReturn" where
  "ToProtoFundRecord fund_record_resp resp =
     resp\<lparr>records := records resp @ map transaction_record (fund_in_out_list fund_record_resp),
          records_has_more := Some (funr_has_more fund_record_resp)\<rparr>"

text \<open>The commission adds up three of the costs in the answer.\<close>

definition commission_of :: "floating \<Rightarrow> QuoteFeeInfo \<Rightarrow> double" where
  "commission_of fp fee = fp_add fp (fp_add fp (trade_cost fee) (exchange_cost fee)) (securities_cost fee)"

definition ToProtoQuoteFeeInfo ::
  "floating \<Rightarrow> GetFuturesQuoteFeeInfoResp \<Rightarrow> TradeConfirmInfoReturn \<Rightarrow> TradeConfirmInfoReturn" where
  "ToProtoQuoteFeeInfo fp fee_info_resp resp =
     resp\<lparr>commission := Some (fp_to_string fp (commission_of fp (quote_fee_info fee_info_resp))),
          security_deposit := Some (fp_to_string fp (fee_IMargin (quote_fee_info fee_info_resp)))\<rparr>"

definition ToProtoQuerySymbolTradeInfo ::
  "floating \<Rightarrow> GetFuturesQuoteFeeInfoResp \<Rightarrow> QuerySymbolTradeInfoReturn \<Rightarrow> QuerySymbolTradeInfoReturn" where
  "ToProtoQuerySymbolTradeInfo fp fee_info_resp resp =
     (let info = (case symbol_info resp of None \<Rightarrow> blank_trade_info | Some info \<Rightarrow> info)
      in resp\<lparr>symbol_info := Some (info\<lparr>lots_step := Some (fp_literal fp 1 0), price_digits := Some 4,
                margin_peer_lot := Some (fee_IMargin (quote_fee_info fee_info_resp)),
                trade_fee := Some (commission_of fp (quote_fee_info fee_info_resp))\<rparr>)\<rparr>)"

section \<open>What the translations keep\<close>



text \<open>
  The second configuration plate has no entry for deposits: the first entry, captioned as the deposit,
  is overwritten by the withdrawal, and the entry added for the withdrawal stays empty.
\<close>

lemma more_plate_lacks_deposit:
  assumes "int_field (config_type req) \<noteq> 0" and "config_info_plate_list resp = []"
  shows "map caption_des (concat (config_info_plate_list (ToProtoFuturesAccountConfig fl req resp))) =
    [Some txt_fund_out, None, Some txt_reset_password]"
  using assms by (simp add: ToProtoFuturesAccountConfig_def Let_def config_item_def blank_config_item_def)

text \<open>The number of digits asked for has no influence.\<close>

lemma digits_ignored: "DoubleToString fp x m = DoubleToString fp x n"
  by (simp add: DoubleToString_def)

end
