(* ===== verification/Futures_Proxy.thy ===== *)
theory Futures_Proxy imports Client_Pool Futures_Convert Md5 
begin

text \<open>
  The business logic, \<^verbatim>\<open>FuturesProxy\<close> in \<^verbatim>\<open>src/src/futures_proxy.cc\<close>: one function
  per request of the HTTP interface. A function gets the request, the response to fill and the state
  of the process (the two client pools and the world); its result is None when the code has no
  defined continuation or an exception leaves it. Log output is left out.
\<close>

section \<open>The environment\<close>

text \<open>The libraries, services and settings the functions use; \<open>stack_memory\<close> is what an MD5 object
  on the stack holds before its constructor runs.\<close>

record ('w, 'j) environment =
  env_flags :: flags
  env_enumerators :: enumerators
  env_floating :: floating
  env_network :: "'w network"
  env_malloc :: allocator
  env_clock :: "'w \<Rightarrow> int \<times> 'w"
  env_trade :: "'w trade_service"
  env_authen :: "'w authen_service"
  env_cryptopp :: cryptopp
  env_curl :: "'w curl"
  env_json :: "'j jsoncpp"
  stack_memory :: md5
  new_GetAccInfoResp :: GetAccInfoResp
  new_AddOrderResp :: AddOrderResp
  new_GetOrderByNoResp :: GetOrderByNoResp
  new_GetActiveOrderResp :: GetActiveOrderResp
  new_GetPositionResp :: GetPositionResp
  new_DeleteOrderResp :: DeleteOrderResp
  new_GetUserAccountStatusResp :: GetUserAccountStatusResp
  new_GetHisOrderResp :: GetHisOrderResp
  new_GetFundInOutRecordResp :: GetFundInOutRecordResp
  new_GetFuturesQuoteFeeInfoResp :: GetFuturesQuoteFeeInfoResp

record 'w proxy_state =
  authen_clients :: client_pool
  trade_clients :: client_pool
  outside :: 'w

type_synonym ('q, 'r, 'w, 'j) proxy_function =
  "('w, 'j) environment \<Rightarrow> 'q \<Rightarrow> 'r \<Rightarrow> 'w proxy_state \<Rightarrow> ('r \<times> 'w proxy_state) option"

section \<open>Sessions\<close>

text \<open>
  \<^verbatim>\<open>ValidateSession\<close>: borrow an authentication client, ask, and return the client only when
  the call went through. The result is the error number stored for the caller.
\<close>

definition ValidateSession ::
  "('w, 'j) environment \<Rightarrow> LoginSession \<Rightarrow> 'w proxy_state \<Rightarrow> (int \<times> 'w proxy_state) option" where
  "ValidateSession env login_session st =
     (let thrift_req = \<lparr> m_session_id = str_field (session_str login_session),
                         m_uid = int_field (uid login_session) \<rparr>;
          (client, pool, w) = GetClientPtr (env_malloc env)
             (AuthenClientPool_NewClientPtr (env_network env) (env_flags env)) (authen_clients st) (outside st)
      in case heap pool client of
           None \<Rightarrow> None
         | Some c \<Rightarrow>
             (case Authen_ValidateSession (env_network env) (env_flags env) (env_enumerators env)
                     (env_authen env) thrift_req c w of
                None \<Rightarrow> None
              | Some (rpc_valided, c', thrift_ret, w') \<Rightarrow>
                  Some (thrift_ret,
                    st\<lparr>authen_clients := release_client client rpc_valided
                         (pool\<lparr>heap := (heap pool)(client \<mapsto> c')\<rparr>),
                       outside := w'\<rparr>)))"

text \<open>
  The guard most functions begin with: a request without session is refused, and so is one whose
  session the authentication service does not confirm. \<open>fail\<close> fills the status of the response.
\<close>

definition with_session ::
  "('w, 'j) environment \<Rightarrow> LoginSession option \<Rightarrow> (FuturesError \<Rightarrow> string \<Rightarrow> 'r) \<Rightarrow>
   (LoginSession \<Rightarrow> 'w proxy_state \<Rightarrow> ('r \<times> 'w proxy_state) option) \<Rightarrow> 'w proxy_state \<Rightarrow>
   ('r \<times> 'w proxy_state) option" where
  "with_session env session fail act st =
     (case session of
        None \<Rightarrow> Some (fail ErrCode_FUTURES_REQ_ERR ''REQ ERROR'', st)
      | Some login_session \<Rightarrow>
          (case ValidateSession env login_session st of
             None \<Rightarrow> None
           | Some (thrift_ret, st') \<Rightarrow>
               if auth_SUCCESS (env_enumerators env) \<noteq> thrift_ret
               then Some (fail ErrCode_FUTURES_SESSION_ERR ''SESSION ERROR'', st')
               else act login_session st'))"

section \<open>Calls of the trading service\<close>

text \<open>
  Borrow a client, call a method of it, and return the client when the call went through; when it
  did not, the client is dropped and the request is answered \<^verbatim>\<open>FUTURES INFO BUSY\<close>.
  Otherwise \<open>finish\<close> makes the response from the answer.
\<close>

definition call_trade ::
  "('w, 'j) environment \<Rightarrow> (rpc_client \<Rightarrow> 'a \<Rightarrow> 'w \<Rightarrow> (bool \<times> ('a, 'w) call_state) option) \<Rightarrow> 'a \<Rightarrow>
   (FuturesError \<Rightarrow> string \<Rightarrow> 'r) \<Rightarrow> ('a \<Rightarrow> 'r) \<Rightarrow> 'w proxy_state \<Rightarrow> ('r \<times> 'w proxy_state) option" where
  "call_trade env rpc answer fail finish st =
     (let (client, pool, w) = GetClientPtr (env_malloc env)
             (SPTradeInfoClientPool_NewClientPtr (env_network env) (env_flags env)) (trade_clients st) (outside st)
      in case heap pool client of
           None \<Rightarrow> None
         | Some c \<Rightarrow>
             (case rpc c answer w of
                None \<Rightarrow> None
              | Some (rpc_ret, c', answer', w') \<Rightarrow>
                  Some (if \<not> rpc_ret then fail ErrCode_FUTURES_INFO_BUSY ''FUTURES INFO BUSY'' else finish answer',
                    st\<lparr>trade_clients := release_client client rpc_ret
                         (pool\<lparr>heap := (heap pool)(client \<mapsto> c')\<rparr>),
                       outside := w'\<rparr>)))"

definition access_info :: "('w, 'j) environment \<Rightarrow> 'w proxy_state \<Rightarrow> AccessInfo \<times> 'w proxy_state" where
  "access_info env st =
     (case GenerateUniqueID (env_clock env) ''futures_cell_proxy'' (CELL_PROXY (env_enumerators env)) (outside st) of
        (access, w) \<Rightarrow> (access, st\<lparr>outside := w\<rparr>))"

section \<open>Queries of a validated session\<close>

text \<open>
  Every query has three parts: the request it sends, made from its own request, the session and the
  name the call gets (\<open>_req\<close>); the call; and the response made from the answer (\<open>_answer\<close>).
\<close>

definition assets_req ::
  "QueryMyFuturesAssetsRequest \<Rightarrow> LoginSession \<Rightarrow> AccessInfo \<Rightarrow> GetAccInfoReq" where
  "assets_req req session access =
    \<lparr> accq_access_info = access, accq_user_id = int_field (uid session),
      accq_AccNo = str_field (assets_futures_id req), accq_NeedProfit = 1 \<rparr>"

definition assets_answer ::
  "('w, 'j) environment \<Rightarrow> QueryMyFuturesAssetsReturn \<Rightarrow> GetAccInfoResp \<Rightarrow> QueryMyFuturesAssetsReturn" where
  "assets_answer env resp acc_info_resp =
    (if accr_err_no acc_info_resp = trade_SUCCESS (env_enumerators env)
     then let resp' = ToProtoMyFuturesAsset (env_floating env) acc_info_resp resp
          in resp'\<lparr>assets_status_info :=
                    fill_status (assets_status_info resp') ErrCode_SUCCESS ''SUCCESS''\<rparr>
     else resp\<lparr>assets_status_info :=
                   fill_status (assets_status_info resp) ErrCode_FUTURES_RETURN_ERR ''RETURN ERROR''\<rparr>)"

definition QueryMyFuturesAssets ::
  "(QueryMyFuturesAssetsRequest, QueryMyFuturesAssetsReturn, 'w, 'j) proxy_function" where
  "QueryMyFuturesAssets env req resp st =
     (let fail = (\<lambda>err msg. resp\<lparr>assets_status_info := fill_status (assets_status_info resp) err msg\<rparr>)
      in with_session env (assets_login_session req) fail (\<lambda>session st1.
           case access_info env st1 of (access, st2) \<Rightarrow>
             call_trade env
               (SPTradeInfo_GetAccInfo (env_network env) (env_flags env) (env_trade env)
                 (assets_req req session access))
               (new_GetAccInfoResp env) fail
               (assets_answer env resp)
               st2) st)"

definition pending_req ::
  "QueryPendingOrdersRequest \<Rightarrow> LoginSession \<Rightarrow> AccessInfo \<Rightarrow> GetActiveOrderReq" where
  "pending_req req session access =
    \<lparr> actq_access_info = access, actq_AccNo = str_field (pending_futures_id req),
      actq_user_id = int_field (uid session),
      actq_start_index = int_field (pending_start_index req),
      actq_batch_num = int_field (pending_batch_num req) \<rparr>"

definition pending_answer ::
  "('w, 'j) environment \<Rightarrow> QueryPendingOrdersReturn \<Rightarrow> GetActiveOrderResp \<Rightarrow> QueryPendingOrdersReturn" where
  "pending_answer env resp active_order_resp =
    (if actr_err_no active_order_resp = trade_SUCCESS (env_enumerators env)
     then let resp' = ToProtoActiveOrders (env_floating env) active_order_resp resp
          in resp'\<lparr>orders_status_info :=
                    fill_status (orders_status_info resp') ErrCode_SUCCESS ''SUCCESS''\<rparr>
     else resp\<lparr>orders_status_info :=
                   fill_status (orders_status_info resp) ErrCode_FUTURES_RETURN_ERR ''RETURN ERROR''\<rparr>)"

definition QueryPendingOrders ::
  "(QueryPendingOrdersRequest, QueryPendingOrdersReturn, 'w, 'j) proxy_function" where
  "QueryPendingOrders env req resp st =
     (let fail = (\<lambda>err msg. resp\<lparr>orders_status_info := fill_status (orders_status_info resp) err msg\<rparr>)
      in with_session env (pending_login_session req) fail (\<lambda>session st1.
           case access_info env st1 of (access, st2) \<Rightarrow>
             call_trade env
               (SPTradeInfo_GetActiveOrder (env_network env) (env_flags env) (env_trade env)
                 (pending_req req session access))
               (new_GetActiveOrderResp env) fail
               (pending_answer env resp)
               st2) st)"

definition holding_req ::
  "QueryHoldingOrdersRequest \<Rightarrow> LoginSession \<Rightarrow> AccessInfo \<Rightarrow> GetPositionReq" where
  "holding_req req session access =
    \<lparr> posq_access_info = access, posq_user_id = int_field (uid session),
      posq_AccNo = str_field (holding_futures_id req), posq_Type = 0,
      posq_start_index = int_field (holding_start_index req),
      posq_batch_num = int_field (holding_batch_num req) \<rparr>"

definition holding_answer ::
  "('w, 'j) environment \<Rightarrow> QueryHoldingOrdersReturn \<Rightarrow> GetPositionResp \<Rightarrow> QueryHoldingOrdersReturn" where
  "holding_answer env resp position_resp =
    (if posr_err_no position_resp = trade_SUCCESS (env_enumerators env)
     then let resp' = ToProtoPosition (env_floating env) position_resp resp
          in resp'\<lparr>orders_status_info :=
                    fill_status (orders_status_info resp') ErrCode_SUCCESS ''SUCCESS''\<rparr>
     else resp\<lparr>orders_status_info :=
                   fill_status (orders_status_info resp) ErrCode_FUTURES_RETURN_ERR ''RETURN ERROR''\<rparr>)"

definition QueryHoldingOrders ::
  "(QueryHoldingOrdersRequest, QueryHoldingOrdersReturn, 'w, 'j) proxy_function" where
  "QueryHoldingOrders env req resp st =
     (let fail = (\<lambda>err msg. resp\<lparr>orders_status_info := fill_status (orders_status_info resp) err msg\<rparr>)
      in with_session env (holding_login_session req) fail (\<lambda>session st1.
           case access_info env st1 of (access, st2) \<Rightarrow>
             call_trade env
               (SPTradeInfo_GetPosition (env_network env) (env_flags env) (env_trade env)
                 (holding_req req session access))
               (new_GetPositionResp env) fail
               (holding_answer env resp)
               st2) st)"

definition detail_req ::
  "QueryOrderDetailRequest \<Rightarrow> LoginSession \<Rightarrow> AccessInfo \<Rightarrow> GetOrderByNoReq" where
  "detail_req req session access =
    \<lparr> onoq_access_info = access, onoq_user_id = int_field (uid session),
      onoq_AccNo = str_field (detail_futures_id req),
      onoq_IntOrderNo = int_field (detail_order_id req) \<rparr>"

definition detail_answer ::
  "('w, 'j) environment \<Rightarrow> QueryOrderDetailReturn \<Rightarrow> GetOrderByNoResp \<Rightarrow> QueryOrderDetailReturn" where
  "detail_answer env resp order_detail_resp =
    (if onor_err_no order_detail_resp = trade_SUCCESS (env_enumerators env)
     then let resp' = ToProtoOrderDetail (env_floating env) (env_enumerators env) order_detail_resp resp
          in resp'\<lparr>detail_status_info :=
                    fill_status (detail_status_info resp') ErrCode_SUCCESS ''SUCCESS''\<rparr>
     else resp\<lparr>detail_status_info :=
                   fill_status (detail_status_info resp) ErrCode_FUTURES_RETURN_ERR ''RETURN ERROR''\<rparr>)"

definition QueryOrderDetail ::
  "(QueryOrderDetailRequest, QueryOrderDetailReturn, 'w, 'j) proxy_function" where
  "QueryOrderDetail env req resp st =
     (let fail = (\<lambda>err msg. resp\<lparr>detail_status_info := fill_status (detail_status_info resp) err msg\<rparr>)
      in with_session env (detail_login_session req) fail (\<lambda>session st1.
           case access_info env st1 of (access, st2) \<Rightarrow>
             call_trade env
               (SPTradeInfo_GetOrderByNo (env_network env) (env_flags env) (env_trade env)
                 (detail_req req session access))
               (new_GetOrderByNoResp env) fail
               (detail_answer env resp)
               st2) st)"

definition records_req ::
  "QueryTransactionRecordRequest \<Rightarrow> LoginSession \<Rightarrow> AccessInfo \<Rightarrow> GetFundInOutRecordReq" where
  "records_req req session access =
    \<lparr> funq_access_info = access, funq_user_id = int_field (uid session),
      funq_AccNo = str_field (records_futures_id req),
      funq_index = int_field (records_index req),
      funq_batch_num = int_field (records_batch_num req) \<rparr>"

definition records_answer ::
  "('w, 'j) environment \<Rightarrow> QueryTransactionRecordReturn \<Rightarrow> GetFundInOutRecordResp \<Rightarrow> QueryTransactionRecordReturn" where
  "records_answer env resp fund_record_resp =
    (if funr_err_no fund_record_resp = trade_SUCCESS (env_enumerators env)
     then let resp' = ToProtoFundRecord fund_record_resp resp
          in resp'\<lparr>records_status_info :=
                    fill_status (records_status_info resp') ErrCode_SUCCESS ''SUCCESS''\<rparr>
     else resp\<lparr>records_status_info :=
                   fill_status (records_status_info resp) ErrCode_FUTURES_RETURN_ERR ''RETURN ERROR''\<rparr>)"

definition QueryTransactionRecord ::
  "(QueryTransactionRecordRequest, QueryTransactionRecordReturn, 'w, 'j) proxy_function" where
  "QueryTransactionRecord env req resp st =
     (let fail = (\<lambda>err msg. resp\<lparr>records_status_info := fill_status (records_status_info resp) err msg\<rparr>)
      in with_session env (records_login_session req) fail (\<lambda>session st1.
           case access_info env st1 of (access, st2) \<Rightarrow>
             call_trade env
               (SPTradeInfo_GetFundInOutRecord (env_network env) (env_flags env) (env_trade env)
                 (records_req req session access))
               (new_GetFundInOutRecordResp env) fail
               (records_answer env resp)
               st2) st)"

definition history_req ::
  "QueryHistoryOrderRequest \<Rightarrow> LoginSession \<Rightarrow> AccessInfo \<Rightarrow> GetHisOrderReq" where
  "history_req req session access =
    \<lparr> hisq_access_info = access, hisq_user_id = int_field (uid session),
      hisq_AccNo = str_field (history_futures_id req),
      hisq_start_index = int_field (history_start_index req),
      hisq_batch_num = int_field (history_batch_num req) \<rparr>"

definition history_answer ::
  "('w, 'j) environment \<Rightarrow> QueryHistoryOrderReturn \<Rightarrow> GetHisOrderResp \<Rightarrow> QueryHistoryOrderReturn" where
  "history_answer env resp his_order_resp =
    (if hisr_err_no his_order_resp = trade_SUCCESS (env_enumerators env)
     then let resp' = ToProtoHistoryOrders (env_enumerators env) his_order_resp resp
          in resp'\<lparr>orders_status_info :=
                    fill_status (orders_status_info resp') ErrCode_SUCCESS ''SUCCESS''\<rparr>
     else resp\<lparr>orders_status_info :=
                   fill_status (orders_status_info resp) ErrCode_FUTURES_RETURN_ERR ''DELETE ERROR''\<rparr>)"

definition QueryHistoryOrders ::
  "(QueryHistoryOrderRequest, QueryHistoryOrderReturn, 'w, 'j) proxy_function" where
  "QueryHistoryOrders env req resp st =
     (let fail = (\<lambda>err msg. resp\<lparr>orders_status_info := fill_status (orders_status_info resp) err msg\<rparr>)
      in with_session env (history_login_session req) fail (\<lambda>session st1.
           case access_info env st1 of (access, st2) \<Rightarrow>
             call_trade env
               (SPTradeInfo_GetHisOrder (env_network env) (env_flags env) (env_trade env)
                 (history_req req session access))
               (new_GetHisOrderResp env) fail
               (history_answer env resp)
               st2) st)"

section \<open>Trading\<close>

text \<open>
  The text whose MD5, encrypted, is the signature of an order: the five fields one after the other,
  as the output stream writes them.
\<close>

definition signed_text :: "FuturesTradeRequest \<Rightarrow> string" where
  "signed_text req =
     str_field (trade_futures_id req) @ str_field (trade_symbol req) @ str_field (trade_volume req) @
     decimal_int (int_field (trade_type req)) @ str_field (trade_price req)"

definition expected_signature :: "('w, 'j) environment \<Rightarrow> FuturesTradeRequest \<Rightarrow> string option" where
  "expected_signature env req =
     map_option (AESEncrypt (env_cryptopp env)) (md5_hex (stack_memory env) (signed_text req))"

definition add_order_req ::
  "('w, 'j) environment \<Rightarrow> FuturesTradeRequest \<Rightarrow> LoginSession \<Rightarrow> AccessInfo \<Rightarrow> int \<Rightarrow> AddOrderReq" where
  "add_order_req env req session access tp =
     \<lparr> addq_access_info = access, addq_AccNo = str_field (trade_futures_id req),
       addq_user_id = int_field (uid session), addq_ProdCode = str_field (trade_symbol req),
       addq_Qty = fp_parse (env_floating env) (cstr (str_field (trade_volume req))),
       addq_ClOrderId = decimal_int tp, addq_OrderOptions = 0,
       addq_CondType = COND_NONE (env_enumerators env), addq_OrderType = ORD_LIMIT (env_enumerators env),
       addq_ValidType = VLD_REST_OF_DAY (env_enumerators env), addq_DecInPrice = 4, addq_OrderAction = 1,
       addq_BuySell = (if int_field (trade_type req) = 1 then CHR ''B'' else CHR ''S''),
       addq_Price = fp_parse (env_floating env) (cstr (str_field (trade_price req))) \<rparr>"

text \<open>
  The signature is checked first, then the session, and then the order is built, with the clock read
  twice (for the name of the request and for that of the order).
\<close>

definition FuturesTrade ::
  "(FuturesTradeRequest, FuturesTradeReturn, 'w, 'j) proxy_function" where
  "FuturesTrade env req resp st =
     (let fail = (\<lambda>err msg. resp\<lparr>only_status_info := fill_status (only_status_info resp) err msg\<rparr>)
      in case trade_session req of
           None \<Rightarrow> Some (fail ErrCode_FUTURES_REQ_ERR ''REQ ERROR'', st)
         | Some _ \<Rightarrow>
             (case expected_signature env req of
                None \<Rightarrow> None
              | Some aes_string \<Rightarrow>
                  if aes_string \<noteq> str_field (trade_signature req)
                  then Some (fail ErrCode_FUTURES_SESSION_ERR ''VALIDATE ERROR'', st)
                  else with_session env (trade_session req) fail (\<lambda>session st1.
                    case access_info env st1 of (access, st2) \<Rightarrow>
                      (case env_clock env (outside st2) of (tp, w3) \<Rightarrow>
                         call_trade env
                           (SPTradeInfo_AddOrder (env_network env) (env_flags env) (env_trade env)
                             (add_order_req env req session access tp))
                           (new_AddOrderResp env) fail
                           (\<lambda>add_order_resp.
                              if addr_err_no add_order_resp = trade_SUCCESS (env_enumerators env)
                              then fail ErrCode_SUCCESS ''SUCCESS''
                              else fail ErrCode_FUTURES_TRADE_ERR ''TRADE ERROR'')
                           (st2\<lparr>outside := w3\<rparr>))) st))"

text \<open>
  \<^verbatim>\<open>atoi\<close>: white space, an optional sign and the digits that follow; a number that does
  not fit an \<^verbatim>\<open>int\<close> has no defined result.
\<close>

definition atoi :: "string \<Rightarrow> int option" where
  "atoi s =
     (let t = dropWhile is_space s;
          (negative, u) = (case t of
              [] \<Rightarrow> (False, [])
            | c # cs \<Rightarrow> if c = CHR ''-'' then (True, cs) else if c = CHR ''+'' then (False, cs) else (False, t));
          magnitude = int (decimal_value (takeWhile is_decimal u));
          n = (if negative then - magnitude else magnitude)
      in if - (2 ^ 31) \<le> n \<and> n < 2 ^ 31 then Some n else None)"

definition CancelPendingOrder ::
  "(CancelPendingOrderRequest, FututesCancelPendingOrderReturn, 'w, 'j) proxy_function" where
  "CancelPendingOrder env req resp st =
     (let fail = (\<lambda>err msg. resp\<lparr>only_status_info := fill_status (only_status_info resp) err msg\<rparr>)
      in with_session env (cancel_session req) fail (\<lambda>session st1.
           case access_info env st1 of (access, st2) \<Rightarrow>
             (case atoi (cstr (str_field (cancel_order_id req))) of
                None \<Rightarrow> None
              | Some order_no \<Rightarrow>
                  call_trade env
                    (SPTradeInfo_DeleteOrder (env_network env) (env_flags env) (env_trade env)
                      \<lparr> delq_access_info = access, delq_user_id = int_field (uid session),
                        delq_AccNo = str_field (cancel_futures_id req), delq_IntOrderNo = order_no,
                        delq_DeleteMode = 1, delq_ProdCode = str_field (cancel_symbol req) \<rparr>)
                    (new_DeleteOrderResp env) fail
                    (\<lambda>delete_order_resp.
                       if delr_err_no delete_order_resp = trade_SUCCESS (env_enumerators env)
                       then fail ErrCode_SUCCESS ''SUCCESS''
                       else fail ErrCode_FUTURES_RETURN_ERR ''DELETE ERROR'')
                    st2)) st)"

section \<open>Requests whose session is only looked for\<close>

text \<open>These functions require a session in the request and use its user, but do not validate it.\<close>

definition ustatus_req ::
  "QueryUserStatusRequest \<Rightarrow> LoginSession \<Rightarrow> AccessInfo \<Rightarrow> GetUserAccountStatusReq" where
  "ustatus_req req session access =
    \<lparr> staq_access_info = access, staq_user_id = int_field (uid session) \<rparr>"

definition ustatus_answer ::
  "('w, 'j) environment \<Rightarrow> QueryUserStatusReturn \<Rightarrow> GetUserAccountStatusResp \<Rightarrow> QueryUserStatusReturn" where
  "ustatus_answer env resp acc_status_resp =
    (if star_err_no acc_status_resp = trade_SUCCESS (env_enumerators env)
     then let resp' = (if account_status acc_status_resp = 5 \<or> account_status acc_status_resp = 4
                       then resp else resp\<lparr>status_url := Some (FLAGS_futures_account_open_url (env_flags env))\<rparr>)
          in resp'\<lparr>ustatus_status_info :=
                    fill_status (ustatus_status_info resp') ErrCode_SUCCESS ''SUCCESS''\<rparr>
     else resp\<lparr>ustatus_status_info :=
                   fill_status (ustatus_status_info resp) ErrCode_FUTURES_RETURN_ERR ''RETURN ERROR''\<rparr>)"

definition QueryUserStatus ::
  "(QueryUserStatusRequest, QueryUserStatusReturn, 'w, 'j) proxy_function" where
  "QueryUserStatus env req resp st =
     (let open_url = FLAGS_futures_account_open_url (env_flags env);
          fail = (\<lambda>err msg. resp\<lparr>ustatus_status_info := fill_status (ustatus_status_info resp) err msg\<rparr>)
      in case ustatus_login_session req of
           None \<Rightarrow>
             Some (resp\<lparr>status_url := Some open_url,
                        ustatus_status_info :=
                          fill_status (ustatus_status_info resp) ErrCode_FUTURES_REQ_ERR ''REQ ERROR''\<rparr>, st)
         | Some session \<Rightarrow>
             (case access_info env st of (access, st1) \<Rightarrow>
                call_trade env
                  (SPTradeInfo_GetUserAccountStatus (env_network env) (env_flags env) (env_trade env)
                    (ustatus_req req session access))
                  (new_GetUserAccountStatusResp env) fail
                  (ustatus_answer env resp)
                  st1))"

definition QueryFuturesAccountConfig ::
  "(QueryFuturesAcconutConfigRequest, QueryFuturesAccountConfigReturn, 'w, 'j) proxy_function" where
  "QueryFuturesAccountConfig env req resp st =
     (case config_login_session req of
        None \<Rightarrow> Some (resp\<lparr>config_status_info :=
                  fill_status (config_status_info resp) ErrCode_FUTURES_REQ_ERR ''REQ ERROR''\<rparr>, st)
      | Some session \<Rightarrow>
          let resp' = ToProtoFuturesAccountConfig (env_flags env) req resp
          in Some (resp'\<lparr>config_status_info :=
                     fill_status (config_status_info resp') ErrCode_SUCCESS ''SUCCESS''\<rparr>, st))"

text \<open>Both fee queries ask for the fixed product \<^verbatim>\<open>HI\<close>.\<close>

definition fee_info_req ::
  "AccessInfo \<Rightarrow> LoginSession \<Rightarrow> string option \<Rightarrow> GetFuturesQuoteFeeInfoReq" where
  "fee_info_req access session futures_id =
     \<lparr> feeq_quote_id = ''HI'', feeq_access_info = access, feeq_user_id = int_field (uid session),
       feeq_AccNo = str_field futures_id \<rparr>"

definition confirm_answer ::
  "('w, 'j) environment \<Rightarrow> TradeConfirmInfoReturn \<Rightarrow> GetFuturesQuoteFeeInfoResp \<Rightarrow> TradeConfirmInfoReturn" where
  "confirm_answer env resp fee_info_resp =
    (if feer_err_no fee_info_resp = trade_SUCCESS (env_enumerators env)
     then let resp' = ToProtoQuoteFeeInfo (env_floating env) fee_info_resp resp
          in resp'\<lparr>confirm_status_info :=
                    fill_status (confirm_status_info resp') ErrCode_SUCCESS ''SUCCESS''\<rparr>
     else resp\<lparr>confirm_status_info :=
                   fill_status (confirm_status_info resp) ErrCode_FUTURES_RETURN_ERR ''RETURN ERROR''\<rparr>)"

definition TradeConfirmInfo ::
  "(TradeConfirmInfoRequest, TradeConfirmInfoReturn, 'w, 'j) proxy_function" where
  "TradeConfirmInfo env req resp st =
     (let fail = (\<lambda>err msg. resp\<lparr>confirm_status_info := fill_status (confirm_status_info resp) err msg\<rparr>)
      in case confirm_session req of
           None \<Rightarrow> Some (fail ErrCode_FUTURES_REQ_ERR ''REQ ERROR'', st)
         | Some session \<Rightarrow>
             (case access_info env st of (access, st1) \<Rightarrow>
                call_trade env
                  (SPTradeInfo_GetFuturesQuoteFeeInfo (env_network env) (env_flags env) (env_trade env)
                    (fee_info_req access session (confirm_futures_id req)))
                  (new_GetFuturesQuoteFeeInfoResp env) fail
                  (confirm_answer env resp)
                  st1))"

definition tinfo_answer ::
  "('w, 'j) environment \<Rightarrow> QuerySymbolTradeInfoRequest \<Rightarrow> QuerySymbolTradeInfoReturn \<Rightarrow> GetFuturesQuoteFeeInfoResp \<Rightarrow> QuerySymbolTradeInfoReturn" where
  "tinfo_answer env req resp fee_info_resp =
    (if feer_err_no fee_info_resp = trade_SUCCESS (env_enumerators env)
     then
       let resp1 = ToProtoQuerySymbolTradeInfo (env_floating env) fee_info_resp resp;
           info = (case symbol_info resp1 of None \<Rightarrow> blank_trade_info | Some i \<Rightarrow> i);
           item = (case base_info info of None \<Rightarrow> blank_symbol | Some i \<Rightarrow> i);
           resp2 = resp1\<lparr>symbol_info :=
                     Some (info\<lparr>base_info :=
                       Some (item\<lparr>symbol := Some (str_field (tinfo_symbol req))\<rparr>)\<rparr>)\<rparr>
       in resp2\<lparr>tinfo_status_info :=
                 fill_status (tinfo_status_info resp2) ErrCode_SUCCESS ''SUCCESS''\<rparr>
     else resp\<lparr>tinfo_status_info :=
                   fill_status (tinfo_status_info resp) ErrCode_FUTURES_RETURN_ERR ''RETURN ERROR''\<rparr>)"

definition QuerySymbolTradeInfo ::
  "(QuerySymbolTradeInfoRequest, QuerySymbolTradeInfoReturn, 'w, 'j) proxy_function" where
  "QuerySymbolTradeInfo env req resp st =
     (let fail = (\<lambda>err msg. resp\<lparr>tinfo_status_info := fill_status (tinfo_status_info resp) err msg\<rparr>)
      in case tinfo_session req of
           None \<Rightarrow> Some (fail ErrCode_FUTURES_REQ_ERR ''REQ ERROR'', st)
         | Some session \<Rightarrow>
             (case access_info env st of (access, st1) \<Rightarrow>
                call_trade env
                  (SPTradeInfo_GetFuturesQuoteFeeInfo (env_network env) (env_flags env) (env_trade env)
                    (fee_info_req access session (tinfo_futures_id req)))
                  (new_GetFuturesQuoteFeeInfoResp env) fail
                  (tinfo_answer env req resp)
                  st1))"

section \<open>Requests without a session\<close>

definition QuerySymbolByName ::
  "(QuerySymbolByNameRequest, QuerySymbolByNameReturn, 'w, 'j) proxy_function" where
  "QuerySymbolByName env req resp st =
     (let request_url = FLAGS_futures_search_url (env_flags env) @ ''futures/'' @ str_field (byname_key req);
          status = (\<lambda>err msg. resp\<lparr>byname_status_info := fill_status (byname_status_info resp) err msg\<rparr>)
      in case fnDoCurl (env_curl env) request_url '''' (outside st) of
           None \<Rightarrow> None
         | Some (ret, ret_out, w) \<Rightarrow>
             let st' = st\<lparr>outside := w\<rparr> in
             if ret \<noteq> 0 then Some (status ErrCode_FUTURES_INFO_BUSY ''FUTURES INFO BUSY'', st')
             else
               (case js_parse (env_json env) ret_out of
                  None \<Rightarrow> Some (status ErrCode_UNKNOWN ''UNKNOWN ERROR'', st')
                | Some root \<Rightarrow>
                    (case ToProtoSymbolByName (env_json env) root resp of
                       None \<Rightarrow> None
                     | Some resp' \<Rightarrow>
                         Some (resp'\<lparr>byname_status_info :=
                                 fill_status (byname_status_info resp') ErrCode_SUCCESS ''SUCCESS''\<rparr>, st'))))"

text \<open>The functions that are still to be written answer success and nothing else; their
  requests are not looked at.\<close>

definition answer_success :: "StatusReturn \<Rightarrow> StatusReturn" where
  "answer_success resp =
     resp\<lparr>only_status_info := fill_status (only_status_info resp) ErrCode_SUCCESS ''SUCCESS''\<rparr>"

definition SymbolTypeRecommend ::
  "(SymbolTypeRecommendRequest, SymbolTypeRecommendReturn, 'w, 'j) proxy_function" where
  "SymbolTypeRecommend env req resp st = Some (answer_success resp, st)"

definition SymbolListByType ::
  "(SymbolListByTypeRequest, SymbolListByTypeReturn, 'w, 'j) proxy_function" where
  "SymbolListByType env req resp st = Some (answer_success resp, st)"

definition QueryFifthOrder ::
  "(QueryFifthOrderRequest, QueryFifthOrderReturn, 'w, 'j) proxy_function" where
  "QueryFifthOrder env req resp st = Some (answer_success resp, st)"

definition QuerySymbolQuotations ::
  "(QuerySymbolQuotationsRequest, QuerySymbolQuotationsReturn, 'w, 'j) proxy_function" where
  "QuerySymbolQuotations env req resp st = Some (answer_success resp, st)"

definition FuturesGraph ::
  "(FuturesGraphRequest, FuturesGraphReturn, 'w, 'j) proxy_function" where
  "FuturesGraph env req resp st = Some (answer_success resp, st)"

definition FuturesKLine ::
  "(FuturesKLineRequest, FuturesKLineReturn, 'w, 'j) proxy_function" where
  "FuturesKLine env req resp st = Some (answer_success resp, st)"

text \<open>The parts of the queries.\<close>

lemmas query_parts [simp] =
  assets_req_def assets_answer_def pending_req_def pending_answer_def holding_req_def holding_answer_def
  detail_req_def detail_answer_def records_req_def records_answer_def history_req_def history_answer_def
  ustatus_req_def ustatus_answer_def fee_info_req_def confirm_answer_def tinfo_answer_def

end
