(* ===== verification/Rpc_Client_Props.thy ===== *)
theory Rpc_Client_Props imports Rpc_Client
begin

text \<open>
  What the retried calls of the Thrift wrappers guarantee: they return with a defined result, they
  succeed exactly when one of the allowed attempts does, an order goes out no more often than the
  configuration allows, and a session that could not be checked is never taken for a valid one.
\<close>

section \<open>A network to evaluate on\<close>

text \<open>
  The world is the list of the things done so far, the latest first: \<open>Inl\<close> a connection attempt,
  \<open>Inr\<close> a call. Every connection after the first fails when \<open>flaky\<close> is set.
\<close>

definition sample_network :: "bool \<Rightarrow> (nat + nat) list network" where
  "sample_network flaky =
     \<lparr> new_transport = (\<lambda>ip port a b d w. (length w, w)),
       open_transport = (\<lambda>k w. (\<not> flaky \<or> w = [], Inl k # w)) \<rparr>"

text \<open>A method that throws the first \<open>n\<close> times it is called, and then answers.\<close>

definition calls_in :: "(nat + nat) list \<Rightarrow> nat" where
  "calls_in w = length (filter (\<lambda>e. case e of Inl _ \<Rightarrow> False | Inr _ \<Rightarrow> True) w)"

definition fails_first :: "nat \<Rightarrow> 'r \<Rightarrow> ('q, 'r, (nat + nat) list) remote" where
  "fails_first n answer = (\<lambda>k req resp w.
     if calls_in w < n then (False, resp, Inr k # w) else (True, answer, Inr k # w))"

definition sample_service :: "nat \<Rightarrow> (nat + nat) list trade_service" where
  "sample_service n =
     \<lparr> rpc_GetAccInfo = fails_first n
         \<lparr> accr_err_no = 0, accInfo = \<lparr> NAV = 1, BuyingPower = 2, acc_IMargin = 3, MMargin = 4,
           TodayProfitFlag = 1, TodayProfit = ''5'' \<rparr> \<rparr>,
       rpc_AddOrder = fails_first n \<lparr> addr_err_no = 0 \<rparr>,
       rpc_GetOrderByNo = fails_first n
         \<lparr> onor_err_no = 0, isset_orderInfo = False, orderInfo = \<lparr> ord_IntOrderNo = 0,
           ord_BuySell = CHR ''B'', ord_Status = 0, ord_ValidTime = 0, ord_TotalQty = 0,
           ord_TradedQty = 0, ord_EntrustPrice = 0, ord_Price = 0, ord_TimeStamp = 0, ord_Fees = 0,
           ord_Profit = 0, ord_Deposit = 0 \<rparr> \<rparr>,
       rpc_GetActiveOrder = fails_first n
         \<lparr> actr_err_no = 0, ActiveOrders = [], actr_has_more = False \<rparr>,
       rpc_GetPosition = fails_first n
         \<lparr> posr_err_no = 0, PositionList = [], posr_has_more = False \<rparr>,
       rpc_DeleteOrder = fails_first n \<lparr> delr_err_no = 0 \<rparr>,
       rpc_GetUserAccountStatus = fails_first n \<lparr> star_err_no = 0, account_status = 4 \<rparr>,
       rpc_GetHisOrder = fails_first n \<lparr> hisr_err_no = 0, his_orders = [] \<rparr>,
       rpc_GetFundInOutRecord = fails_first n
         \<lparr> funr_err_no = 0, fund_in_out_list = [], funr_has_more = False \<rparr>,
       rpc_GetFuturesQuoteFeeInfo = fails_first n
         \<lparr> feer_err_no = 0, quote_fee_info = \<lparr> trade_cost = 0, exchange_cost = 0,
           securities_cost = 0, fee_IMargin = 0 \<rparr> \<rparr> \<rparr>"

definition blank_access :: AccessInfo where
  "blank_access = \<lparr> request_id = '''', access_name = '''', access_type = 0 \<rparr>"

definition sample_order :: AddOrderReq where
  "sample_order =
     \<lparr> addq_access_info = blank_access, addq_AccNo = ''A1'', addq_user_id = 1, addq_ProdCode = ''HSIF7'',
       addq_Qty = 1, addq_ClOrderId = ''1'', addq_OrderOptions = 0, addq_CondType = 0,
       addq_OrderType = 0, addq_ValidType = 0, addq_DecInPrice = 4, addq_OrderAction = 1,
       addq_BuySell = CHR ''B'', addq_Price = 1 \<rparr>"

lemmas sample_rpc_simps =
  sample_network_def sample_service_def fails_first_def calls_in_def sample_order_def default_flags_def
  unconnected_def

section \<open>The outcome of a retried call\<close>

lemma retry_loop_outcome_nat:
  "retry_loop connect call (int n) s = Some (b, s') \<longleftrightarrow>
     (if b then \<exists>k < n. \<exists>t. failures connect call k s = Some t \<and> attempt connect call t = Some (True, s')
      else failures connect call n s = Some s')"
proof (induction n arbitrary: s)
  case 0
  show ?case by auto
next
  case (Suc n)
  have split_ex: "(\<exists>k < Suc n. P k) \<longleftrightarrow> P 0 \<or> (\<exists>k < n. P (Suc k))" for P
    using less_Suc_eq_0_disj by auto
  show ?case
  proof (cases "attempt connect call s")
    case None
    then show ?thesis by (simp only: retry_loop_Suc split_ex) simp
  next
    case (Some x)
    obtain a t where x: "x = (a, t)" by fastforce
    show ?thesis
    proof (cases a)
      case True
      with Some x show ?thesis by (simp only: retry_loop_Suc split_ex) auto
    next
      case False
      with Some x show ?thesis by (simp only: retry_loop_Suc split_ex) (simp add: Suc.IH)
    qed
  qed
qed

text \<open>C18:
  The retry loop returns true exactly when, after fewer failed attempts than the count allows, an
  attempt succeeds, and it stops there: the final state is the one that attempt left. It returns
  false exactly when all the allowed attempts failed.
\<close>

theorem retry_loop_outcome:
  assumes "0 \<le> r"
  shows "retry_loop connect call r s = Some (b, s') \<longleftrightarrow>
     (if b then \<exists>k < nat r. \<exists>t. failures connect call k s = Some t \<and> attempt connect call t = Some (True, s')
      else failures connect call (nat r) s = Some s')"
  using assms retry_loop_outcome_nat [of connect call "nat r" s b s'] by simp

theorem retry_loop_outcome_witness:
  "retry_loop (\<lambda>s. (True, s)) (\<lambda>s. Some (s = 2, s + 1)) 3 (0 :: nat) = Some (True, 3)"
  by (subst retry_loop_outcome)
    (simp_all, intro exI [of _ "2 :: nat"], simp add: attempt_def numeral_2_eq_2)

section \<open>Orders go out at most once\<close>

lemma consumes_sp:
  fixes sent :: "'w \<Rightarrow> nat" and remote :: "('q, 'r, 'w) remote"
  assumes "\<And>ip port a b d w k w'. new_transport net ip port a b d w = (k, w') \<Longrightarrow> sent w' = sent w"
    and "\<And>k w b w'. open_transport net k w = (b, w') \<Longrightarrow> sent w' = sent w"
    and "\<And>k req resp w b resp' w'. remote k req resp w = (b, resp', w') \<Longrightarrow> sent w' \<le> Suc (sent w)"
    and "retry_loop (connect_sp net fl) (invoke remote req) (int n) (c, resp, w) = Some (b, c', resp', w')"
  shows "sent w' \<le> sent w + n"
proof -
  define count :: "('r, 'w) call_state \<Rightarrow> nat" where "count = (\<lambda>(c, resp, w). sent w)"
  have connecting: "count s' = count s" if "connect_sp net fl s = (b, s')" for s s' b
    using that assms(1,2)
    by (auto simp: connect_sp_def SPTradeInfo_InitClient_def count_def Let_def
        split: prod.splits if_splits)
  have calling: "count s' \<le> Suc (count s)" if "invoke remote req s = Some (b, s')" for s s' b
    using that assms(3) by (auto simp: invoke_def count_def split: prod.splits option.splits if_splits)
  have "count (c', resp', w') \<le> count (c, resp, w) + n"
    using connecting calling assms(4) by (rule loop_consumes)
  then show ?thesis by (simp add: count_def)
qed

text \<open>However the network and the server behave, one \<^verbatim>\<open>AddOrder\<close> asks the server to enter at
  most \<^verbatim>\<open>FLAGS_rpc_call_times\<close> orders, one by default, and the same holds of
  \<^verbatim>\<open>DeleteOrder\<close> and cancellations: they are not repeated like the queries, whose count is
  \<^verbatim>\<open>m_retry_time\<close>. Here \<open>sent\<close> is any count that opening a connection leaves alone and
  that one remote call raises by at most one.
\<close>

lemma order_sent_at_most_once:
  fixes sent :: "'w \<Rightarrow> nat"
  assumes "\<And>ip port a b d w k w'. new_transport net ip port a b d w = (k, w') \<Longrightarrow> sent w' = sent w"
    and "\<And>k w b w'. open_transport net k w = (b, w') \<Longrightarrow> sent w' = sent w"
    and "\<And>k req resp w b resp' w'. rpc_AddOrder sv k req resp w = (b, resp', w') \<Longrightarrow> sent w' \<le> Suc (sent w)"
    and "\<And>k req resp w b resp' w'. rpc_DeleteOrder sv k req resp w = (b, resp', w') \<Longrightarrow> sent w' \<le> Suc (sent w)"
    and "FLAGS_rpc_call_times fl = 1"
    and "SPTradeInfo_AddOrder net fl sv req c resp w = Some (b, c1, resp1, w1)"
    and "SPTradeInfo_DeleteOrder net fl sv dreq c dresp w = Some (d, c2, resp2, w2)"
  shows "sent w1 \<le> sent w + 1 \<and> sent w2 \<le> sent w + 1"
proof -
  have "int 1 = FLAGS_rpc_call_times fl" using assms(5) by simp
  then have add: "retry_loop (connect_sp net fl) (invoke (rpc_AddOrder sv) req) (int 1) (c, resp, w)
      = Some (b, c1, resp1, w1)"
    and del: "retry_loop (connect_sp net fl) (invoke (rpc_DeleteOrder sv) dreq) (int 1) (c, dresp, w)
      = Some (d, c2, resp2, w2)"
    using assms(6,7) by (simp_all add: SPTradeInfo_AddOrder_def SPTradeInfo_DeleteOrder_def)
  have "sent w1 \<le> sent w + 1" using assms(1-3) add by (rule consumes_sp)
  moreover have "sent w2 \<le> sent w + 1" using assms(1,2,4) del by (rule consumes_sp)
  ultimately show ?thesis ..
qed

definition sample_cancel :: DeleteOrderReq where
  "sample_cancel =
     \<lparr> delq_access_info = blank_access, delq_user_id = 1, delq_AccNo = ''A1'', delq_IntOrderNo = 5,
       delq_DeleteMode = 1, delq_ProdCode = ''HSIF7'' \<rparr>"

lemma sample_add_order:
  "SPTradeInfo_AddOrder (sample_network False) default_flags (sample_service 5) sample_order
     (unconnected default_flags ''h'' 1) \<lparr> addr_err_no = 9 \<rparr> [] =
   Some (False, (unconnected default_flags ''h'' 1)\<lparr>m_transport := Some 0, m_client := Some 0\<rparr>,
     \<lparr> addr_err_no = 9 \<rparr>, [Inr 0, Inl 0])"
  unfolding SPTradeInfo_AddOrder_def
  by (simp add: retry_loop.simps connect_sp_def SPTradeInfo_InitClient_def invoke_def sample_rpc_simps)

lemma sample_delete_order:
  "SPTradeInfo_DeleteOrder (sample_network False) default_flags (sample_service 5) sample_cancel
     (unconnected default_flags ''h'' 1) \<lparr> delr_err_no = 9 \<rparr> [] =
   Some (False, (unconnected default_flags ''h'' 1)\<lparr>m_transport := Some 0, m_client := Some 0\<rparr>,
     \<lparr> delr_err_no = 9 \<rparr>, [Inr 0, Inl 0])"
  unfolding SPTradeInfo_DeleteOrder_def
  by (simp add: retry_loop.simps connect_sp_def SPTradeInfo_InitClient_def invoke_def sample_rpc_simps)

theorem order_sent_at_most_once_witness:
  "calls_in [Inr 0, Inl 0] \<le> calls_in [] + 1 \<and> calls_in [Inr 0, Inl 0] \<le> calls_in [] + 1"
  by (rule order_sent_at_most_once [where sent = calls_in, OF _ _ _ _ _ sample_add_order sample_delete_order])
    (auto simp: sample_network_def sample_service_def fails_first_def calls_in_def default_flags_def
      split: if_splits)

section \<open>Every call returns\<close>

text \<open>The result of a call that returned, with the object in a usable state.\<close>

definition settled :: "(bool \<times> rpc_client \<times> 'r \<times> 'w) option \<Rightarrow> bool" where
  "settled x \<longleftrightarrow> (case x of None \<Rightarrow> False | Some (b, c, resp, w) \<Rightarrow> client_ok c)"

lemma sp_call_settled:
  assumes "client_ok c" and "0 \<le> r"
  shows "settled (retry_loop (connect_sp net fl) (invoke remote req) r (c, resp, w))"
proof -
  have "valid_call (m_retry_time c) (c, resp, w)" using assms by (simp add: valid_call_def)
  from sp_call.loop_returns [OF this assms(2), of net fl remote req] show ?thesis
    by (auto simp: settled_def valid_call_def)
qed

text \<open>
  No method of \<^verbatim>\<open>SPTradeInfoWrapper\<close> dereferences a null client or runs its retry counter
  out of range: on an object that satisfies the invariant (an initialised object has a client),
  with retry counts that are not negative, each of the ten methods returns, whatever the network and
  the server do, and leaves the object satisfying the invariant. A new object satisfies it.
\<close>

lemma trade_calls_return:
  assumes "client_ok c" and "0 \<le> m_retry_time c" and "0 \<le> FLAGS_rpc_call_times fl"
  shows "settled (SPTradeInfo_GetAccInfo net fl sv q1 c r1 w) \<and>
    settled (SPTradeInfo_AddOrder net fl sv q2 c r2 w) \<and>
    settled (SPTradeInfo_GetOrderByNo net fl sv q3 c r3 w) \<and>
    settled (SPTradeInfo_GetActiveOrder net fl sv q4 c r4 w) \<and>
    settled (SPTradeInfo_GetPosition net fl sv q5 c r5 w) \<and>
    settled (SPTradeInfo_DeleteOrder net fl sv q6 c r6 w) \<and>
    settled (SPTradeInfo_GetUserAccountStatus net fl sv q7 c r7 w) \<and>
    settled (SPTradeInfo_GetHisOrder net fl sv q8 c r8 w) \<and>
    settled (SPTradeInfo_GetFundInOutRecord net fl sv q9 c r9 w) \<and>
    settled (SPTradeInfo_GetFuturesQuoteFeeInfo net fl sv q10 c r10 w) \<and>
    client_ok (fst (new_SPTradeInfoWrapper net fl ip port w))"
proof -
  have new: "client_ok (fst (new_SPTradeInfoWrapper net fl ip port w))"
    unfolding new_SPTradeInfoWrapper_def
    by (cases "SPTradeInfo_InitClient net fl (unconnected fl ip port) w")
      (auto dest: SPTradeInfo_InitClient_ok)
  show ?thesis
    unfolding SPTradeInfo_GetAccInfo_def SPTradeInfo_AddOrder_def SPTradeInfo_GetOrderByNo_def
      SPTradeInfo_GetActiveOrder_def SPTradeInfo_GetPosition_def SPTradeInfo_DeleteOrder_def
      SPTradeInfo_GetUserAccountStatus_def SPTradeInfo_GetHisOrder_def
      SPTradeInfo_GetFundInOutRecord_def SPTradeInfo_GetFuturesQuoteFeeInfo_def
    by (intro conjI sp_call_settled assms new)
qed

theorem trade_calls_return_witness:
  "settled (SPTradeInfo_AddOrder (sample_network True) default_flags (sample_service 5) sample_order
     (unconnected default_flags ''h'' 1) \<lparr> addr_err_no = 9 \<rparr> [])"
  by (rule trade_calls_return [THEN conjunct2, THEN conjunct1]) simp_all

section \<open>Sessions\<close>

lemma validate_session_result:
  assumes "Authen_ValidateSession net fl en service session c w = Some (b, c', ret, w')"
  shows "if b then \<exists>k v. fst (service k session v) = Some ret \<and> w' = snd (service k session v)
     else ret = auth_UNKNOWN en"
proof -
  let ?connect = "connect_authen net fl" and ?call = "authenticate service session"
  let ?Q = "\<lambda>(c, ret, w). ret = auth_UNKNOWN en"
  let ?R = "\<lambda>(c, ret, w). \<exists>k v. fst (service k session v) = Some ret \<and> w = snd (service k session v)"
  have keep: "?Q t" if "?Q s" "attempt ?connect ?call s = Some (False, t)" for s t
    using that by (auto simp: attempt_def connect_authen_def authenticate_def
        split: prod.splits if_splits option.splits)
  have stop: "?R t" if "attempt ?connect ?call s = Some (True, t)" for s t
    using that
    by (cases s; cases t)
      (auto simp: attempt_def connect_authen_def authenticate_def
        split: prod.splits if_splits option.splits, (metis fst_conv snd_conv)+)
  have "if b then ?R (c', ret, w') else ?Q (c', ret, w')"
    using _ keep stop assms [unfolded Authen_ValidateSession_def] by (rule retry_loop_rule) simp
  then show ?thesis by (cases b) simp_all
qed

text \<open>
  Checking a session fails closed. On a usable object the check returns; unless the authentication
  server answered, in which case the error number is the one in its answer, the error number
  reported to the caller is UNKNOWN, although the caller never looks at the boolean result.
\<close>

lemma validate_session_fails_closed:
  assumes "client_ok c" and "0 \<le> m_retry_time c"
  shows "\<exists>b c' ret w'. Authen_ValidateSession net fl en service session c w = Some (b, c', ret, w') \<and>
     client_ok c' \<and>
     (if b then \<exists>k v. fst (service k session v) = Some ret \<and> w' = snd (service k session v)
      else ret = auth_UNKNOWN en)"
proof -
  have "valid_call (m_retry_time c) (c, auth_UNKNOWN en, w)" using assms by (simp add: valid_call_def)
  from authen_call.loop_returns [OF this assms(2), of net fl service session]
  obtain b c' ret w' where res: "Authen_ValidateSession net fl en service session c w = Some (b, c', ret, w')"
    and "client_ok c'" by (auto simp: valid_call_def Authen_ValidateSession_def)
  with validate_session_result [OF res] show ?thesis by blast
qed

text \<open>An authentication service that knows one session and throws when asked about user 0.\<close>

definition sample_authen :: "(nat + nat) list authen_service" where
  "sample_authen k session w =
     (if m_uid session = 0 then None
      else Some (if m_session_id session = ''good'' then 0 else 3), Inr k # w)"

theorem validate_session_fails_closed_witness:
  "\<exists>b c' ret w'. Authen_ValidateSession (sample_network False) default_flags sample_enumerators
       sample_authen \<lparr> m_session_id = ''good'', m_uid = 1 \<rparr> (unconnected default_flags ''h'' 1) [] =
       Some (b, c', ret, w') \<and> client_ok c'"
  using validate_session_fails_closed [of "unconnected default_flags ''h'' 1" "sample_network False"
      default_flags sample_enumerators sample_authen "\<lparr> m_session_id = ''good'', m_uid = 1 \<rparr>" "[]"]
  by auto

end
