(* ===== verification/Futures_Proxy_Inv.thy ===== *)
theory Futures_Proxy_Inv imports Futures_Proxy Rpc_Client_Props Md5_Spec
begin

text \<open>
  The invariant of the state the request functions work on, and the lemmas that their two building
  blocks, the session guard and the call of the trading service, keep it and always answer.
\<close>

section \<open>The invariant\<close>

text \<open>
  Between two requests all clients are back in their pool (none is lost, none is lent), they are
  usable, and they retry as often as the flags say.
\<close>

definition good_client :: "flags \<Rightarrow> rpc_client \<Rightarrow> bool" where
  "good_client fl c \<longleftrightarrow> client_ok c \<and> m_retry_time c = FLAGS_m_retry_times fl"

definition pool_ok :: "flags \<Rightarrow> client_pool \<Rightarrow> bool" where
  "pool_ok fl p \<longleftrightarrow> finite (m_client_set p) \<and> m_client_set p = dom (heap p) \<and>
     (\<forall>client c. heap p client = Some c \<longrightarrow> good_client fl c)"

definition state_ok :: "('w, 'j) environment \<Rightarrow> 'w proxy_state \<Rightarrow> bool" where
  "state_ok env st \<longleftrightarrow>
     pool_ok (env_flags env) (authen_clients st) \<and> pool_ok (env_flags env) (trade_clients st)"

text \<open>What is asked of the surroundings: a sound allocator and retry counts that are not negative.\<close>

definition env_ok :: "('w, 'j) environment \<Rightarrow> bool" where
  "env_ok env \<longleftrightarrow> allocates (env_malloc env) \<and>
     0 \<le> FLAGS_m_retry_times (env_flags env) \<and> 0 \<le> FLAGS_rpc_call_times (env_flags env)"

lemma pool_ok_empty [simp]: "pool_ok fl empty_pool"
  by (simp add: pool_ok_def empty_pool_def)

lemma new_clients_good:
  "SPTradeInfoClientPool_NewClientPtr net fl w = (c, w') \<Longrightarrow> good_client fl c"
  "AuthenClientPool_NewClientPtr net fl w = (c, w') \<Longrightarrow> good_client fl c"
  unfolding SPTradeInfoClientPool_NewClientPtr_def AuthenClientPool_NewClientPtr_def
    new_SPTradeInfoWrapper_def new_AuthenServerWrapper_def good_client_def
  by (metis SPTradeInfo_InitClient_ok client_ok_unconnected retry_time_unconnected prod.collapse fst_conv snd_conv,
      metis Authen_InitClient_ok client_ok_unconnected retry_time_unconnected prod.collapse fst_conv snd_conv)

lemma borrowed_client:
  assumes "GetClientPtr malloc new p w = (client, p', w')" and "pool_ok fl p" and "allocates malloc"
    and "\<And>w c w'. new w = (c, w') \<Longrightarrow> good_client fl c"
  obtains c where "heap p' client = Some c" "good_client fl c"
    "\<And>b c'. good_client fl c' \<Longrightarrow> pool_ok fl (release_client client b (p'\<lparr>heap := (heap p')(client \<mapsto> c')\<rparr>))"
proof -
  have fin: "finite (dom (heap p))" and sub: "m_client_set p \<subseteq> dom (heap p)"
    using assms(2) by (auto simp: pool_ok_def)
  note got = GetClientPtr_acquires [OF assms(1) fin sub assms(3)]
  have sets: "m_client_set p' = dom (heap p') - {client}"
    using got assms(2) unfolding pool_ok_def by blast
  have all_good: "good_client fl c" if "heap p' x = Some c" for x c
    using assms(1,2,4) that
    by (auto simp: GetClientPtr_def pool_ok_def Let_def split: if_splits prod.splits)
  from got obtain c where c: "heap p' client = Some c" by blast
  have "pool_ok fl (release_client client b (p'\<lparr>heap := (heap p')(client \<mapsto> c')\<rparr>))"
    if "good_client fl c'" for b c'
  proof (cases b)
    case True
    then show ?thesis using that sets all_good fin got
      by (auto simp: pool_ok_def insert_absorb domI c split: if_splits)
  next
    case False
    then show ?thesis using that sets all_good fin got
      by (auto simp: pool_ok_def split: if_splits)
  qed
  with c all_good [OF c] that show thesis by blast
qed

section \<open>The building blocks answer\<close>

definition answers :: "('w, 'j) environment \<Rightarrow> ('r \<times> 'w proxy_state) option \<Rightarrow> bool" where
  "answers env x \<longleftrightarrow> (case x of None \<Rightarrow> False | Some (resp, st) \<Rightarrow> state_ok env st)"

lemma answers_Some [simp]: "answers env (Some (resp, st)) \<longleftrightarrow> state_ok env st"
  by (simp add: answers_def)

lemma ValidateSession_defined:
  assumes "env_ok env" and "state_ok env st"
  obtains ret st' where "ValidateSession env session st = Some (ret, st')" "state_ok env st'"
    "trade_clients st' = trade_clients st"
proof -
  obtain client p w where get: "GetClientPtr (env_malloc env)
      (AuthenClientPool_NewClientPtr (env_network env) (env_flags env)) (authen_clients st) (outside st) = (client, p, w)"
    by (cases "GetClientPtr (env_malloc env) (AuthenClientPool_NewClientPtr (env_network env) (env_flags env))
      (authen_clients st) (outside st)") auto
  from borrowed_client [OF get, of "env_flags env"] assms new_clients_good(2)
  obtain c where c: "heap p client = Some c" "good_client (env_flags env) c"
    and put_back: "\<And>b c'. good_client (env_flags env) c' \<Longrightarrow>
      pool_ok (env_flags env) (release_client client b (p\<lparr>heap := (heap p)(client \<mapsto> c')\<rparr>))"
    unfolding env_ok_def state_ok_def by metis
  let ?req = "\<lparr> m_session_id = str_field (session_str session), m_uid = int_field (uid session) \<rparr>"
  have "valid_call (FLAGS_m_retry_times (env_flags env)) (c, auth_UNKNOWN (env_enumerators env), w)"
    "m_retry_time c = FLAGS_m_retry_times (env_flags env)"
    using c(2) by (auto simp: valid_call_def good_client_def)
  with authen_call.loop_returns [of "FLAGS_m_retry_times (env_flags env)" _ "m_retry_time c" "env_network env"
      "env_flags env" "env_authen env" ?req] assms(1)
  obtain b c' ret w' where call: "Authen_ValidateSession (env_network env) (env_flags env) (env_enumerators env)
      (env_authen env) ?req c w = Some (b, c', ret, w')" and "good_client (env_flags env) c'"
    unfolding Authen_ValidateSession_def env_ok_def valid_call_def good_client_def by fastforce
  then have "ValidateSession env session st = Some (ret,
      st\<lparr>authen_clients := release_client client b (p\<lparr>heap := (heap p)(client \<mapsto> c')\<rparr>), outside := w'\<rparr>)"
    and "state_ok env (st\<lparr>authen_clients := release_client client b (p\<lparr>heap := (heap p)(client \<mapsto> c')\<rparr>), outside := w'\<rparr>)"
    using get c(1) put_back assms(2) by (simp_all add: ValidateSession_def state_ok_def)
  then show thesis using that by simp
qed

lemma with_session_answers:
  assumes "env_ok env" and "state_ok env st"
    and "\<And>s st. state_ok env st \<Longrightarrow> answers env (act s st)"
  shows "answers env (with_session env session fail act st)"
proof (cases session)
  case None
  then show ?thesis using assms(2) by (simp add: with_session_def)
next
  case (Some s)
  obtain ret st' where "ValidateSession env s st = Some (ret, st')" "state_ok env st'"
    using ValidateSession_defined [OF assms(1,2)] by blast
  with Some assms(3) show ?thesis by (simp add: with_session_def)
qed

text \<open>A remote call that always returns and keeps its client good.\<close>

definition rpc_ok :: "flags \<Rightarrow> (rpc_client \<Rightarrow> 'a \<Rightarrow> 'w \<Rightarrow> (bool \<times> ('a, 'w) call_state) option) \<Rightarrow> bool" where
  "rpc_ok fl rpc \<longleftrightarrow> (\<forall>c a w. good_client fl c \<longrightarrow>
     (\<exists>b c' a' w'. rpc c a w = Some (b, c', a', w') \<and> good_client fl c'))"

lemma sp_rpc_ok:
  assumes "\<And>c. good_client fl c \<Longrightarrow> 0 \<le> r c"
  shows "rpc_ok fl (\<lambda>c a w. retry_loop (connect_sp net fl') (invoke remote req) (r c) (c, a, w))"
proof -
  have "\<exists>b c' a' w'. retry_loop (connect_sp net fl') (invoke remote req) (r c) (c, a, w) = Some (b, c', a', w') \<and>
      good_client fl c'" if "good_client fl c" for c a w
    using sp_call.loop_returns [of "FLAGS_m_retry_times fl" "(c, a, w)" "r c" net fl' remote req] assms [OF that] that
    by (fastforce simp: valid_call_def good_client_def)
  then show ?thesis by (simp add: rpc_ok_def)
qed

lemma trade_rpcs_ok:
  assumes "env_ok env"
  defines "fl \<equiv> env_flags env"
  shows "rpc_ok fl (SPTradeInfo_GetAccInfo net fl sv q1)" "rpc_ok fl (SPTradeInfo_AddOrder net fl sv q2)"
    "rpc_ok fl (SPTradeInfo_GetOrderByNo net fl sv q3)" "rpc_ok fl (SPTradeInfo_GetActiveOrder net fl sv q4)"
    "rpc_ok fl (SPTradeInfo_GetPosition net fl sv q5)" "rpc_ok fl (SPTradeInfo_DeleteOrder net fl sv q6)"
    "rpc_ok fl (SPTradeInfo_GetUserAccountStatus net fl sv q7)" "rpc_ok fl (SPTradeInfo_GetHisOrder net fl sv q8)"
    "rpc_ok fl (SPTradeInfo_GetFundInOutRecord net fl sv q9)"
    "rpc_ok fl (SPTradeInfo_GetFuturesQuoteFeeInfo net fl sv q10)"
  using assms(1)
  unfolding SPTradeInfo_GetAccInfo_def [abs_def] SPTradeInfo_AddOrder_def [abs_def]
    SPTradeInfo_GetOrderByNo_def [abs_def] SPTradeInfo_GetActiveOrder_def [abs_def]
    SPTradeInfo_GetPosition_def [abs_def] SPTradeInfo_DeleteOrder_def [abs_def]
    SPTradeInfo_GetUserAccountStatus_def [abs_def] SPTradeInfo_GetHisOrder_def [abs_def]
    SPTradeInfo_GetFundInOutRecord_def [abs_def] SPTradeInfo_GetFuturesQuoteFeeInfo_def [abs_def]
  by (auto intro!: sp_rpc_ok simp: env_ok_def good_client_def fl_def)

lemma call_trade_answers:
  assumes "env_ok env" and "rpc_ok (env_flags env) rpc" and "state_ok env st"
  shows "answers env (call_trade env rpc answer fail finish st)"
proof -
  obtain client p w where get: "GetClientPtr (env_malloc env)
      (SPTradeInfoClientPool_NewClientPtr (env_network env) (env_flags env)) (trade_clients st) (outside st) = (client, p, w)"
    by (cases "GetClientPtr (env_malloc env) (SPTradeInfoClientPool_NewClientPtr (env_network env) (env_flags env))
      (trade_clients st) (outside st)") auto
  from borrowed_client [OF get, of "env_flags env"] assms new_clients_good(1)
  obtain c where c: "heap p client = Some c" "good_client (env_flags env) c"
    and put_back: "\<And>b c'. good_client (env_flags env) c' \<Longrightarrow>
      pool_ok (env_flags env) (release_client client b (p\<lparr>heap := (heap p)(client \<mapsto> c')\<rparr>))"
    unfolding env_ok_def state_ok_def by metis
  from c(2) assms(2) obtain b c' a' w' where "rpc c answer w = Some (b, c', a', w')" "good_client (env_flags env) c'"
    unfolding rpc_ok_def by blast
  then show ?thesis using get c(1) put_back assms(3) by (simp add: call_trade_def state_ok_def)
qed

lemma access_info_state: "access_info env st = (access, st') \<Longrightarrow> state_ok env st' \<longleftrightarrow> state_ok env st"
  by (auto simp: access_info_def GenerateUniqueID_def state_ok_def split: prod.splits)

lemma expected_signature_eq:
  assumes "length (md5_buffer (stack_memory env)) = 64" and "length (signed_text req) + 63 < 2 ^ 32"
  shows "expected_signature env req =
    Some (AESEncrypt (env_cryptopp env) (bytesToHexString (ref_digest (bytes_of (signed_text req)))))"
  using md5_hex_eq [OF assms] by (simp add: expected_signature_def)

end
