(* ===== verification/Futures_Proxy_Props.thy ===== *)
theory Futures_Proxy_Props imports Futures_Proxy_Inv
begin

text \<open>
  What the business logic guarantees: every request is answered and the client pools stay whole; a
  request whose session is not confirmed goes no further; an order leaves only for a signed request
  of a confirmed session, once; and what the signature does not protect.
\<close>

section \<open>An environment to evaluate on\<close>

definition sample_md5 :: md5 where
  "sample_md5 = \<lparr> md5_state = replicate 4 0, md5_count = replicate 2 0, md5_buffer = replicate 64 0,
     md5_digest = replicate 16 0, md5_finished = False \<rparr>"

text \<open>
  A cipher and an encoding that leave the text alone, a clock that stands still, a trading service
  that answers, and the authentication service of the samples.
\<close>

definition sample_env :: "((nat + nat) list, unit) environment" where
  "sample_env =
     \<lparr> env_flags = default_flags, env_enumerators = sample_enumerators,
       env_floating = \<lparr> fp_literal = (\<lambda>n d. 0), fp_add = (+), fp_sub = (-), fp_div = (div),
         fp_less = (<), fp_fixed2 = (\<lambda>x. ''0.00''), fp_to_string = (\<lambda>x. ''0.000000''), fp_parse = (\<lambda>s. 0) \<rparr>,
       env_network = sample_network False, env_malloc = next_address, env_clock = (\<lambda>w. (1, w)),
       env_trade = sample_service 0, env_authen = sample_authen,
       env_cryptopp = \<lparr> aes_cfb = (\<lambda>key iv s. s), base64 = (\<lambda>s. s) \<rparr>,
       env_curl = \<lparr> easy_init = (\<lambda>w. (True, w)), easy_perform = (\<lambda>url w. (([], 0), w)),
         response_code = (\<lambda>w. 200), CURLE_OK = 0, CURLE_FAILED_INIT = 2 \<rparr>,
       env_json = \<lparr> js_parse = (\<lambda>s. None), js_size = (\<lambda>j. 0), js_at = (\<lambda>j i. None),
         js_member = (\<lambda>j k. None), js_asString = (\<lambda>j. None) \<rparr>,
       stack_memory = sample_md5,
       new_GetAccInfoResp = \<lparr> accr_err_no = 0, accInfo = \<lparr> NAV = 0, BuyingPower = 0, acc_IMargin = 0,
         MMargin = 0, TodayProfitFlag = 0, TodayProfit = '''' \<rparr> \<rparr>,
       new_AddOrderResp = \<lparr> addr_err_no = 0 \<rparr>,
       new_GetOrderByNoResp = \<lparr> onor_err_no = 0, isset_orderInfo = False, orderInfo =
         \<lparr> ord_IntOrderNo = 0, ord_BuySell = NUL, ord_Status = 0, ord_ValidTime = 0, ord_TotalQty = 0,
           ord_TradedQty = 0, ord_EntrustPrice = 0, ord_Price = 0, ord_TimeStamp = 0, ord_Fees = 0,
           ord_Profit = 0, ord_Deposit = 0 \<rparr> \<rparr>,
       new_GetActiveOrderResp = \<lparr> actr_err_no = 0, ActiveOrders = [], actr_has_more = False \<rparr>,
       new_GetPositionResp = \<lparr> posr_err_no = 0, PositionList = [], posr_has_more = False \<rparr>,
       new_DeleteOrderResp = \<lparr> delr_err_no = 0 \<rparr>,
       new_GetUserAccountStatusResp = \<lparr> star_err_no = 0, account_status = 0 \<rparr>,
       new_GetHisOrderResp = \<lparr> hisr_err_no = 0, his_orders = [] \<rparr>,
       new_GetFundInOutRecordResp = \<lparr> funr_err_no = 0, fund_in_out_list = [], funr_has_more = False \<rparr>,
       new_GetFuturesQuoteFeeInfoResp = \<lparr> feer_err_no = 0, quote_fee_info =
         \<lparr> trade_cost = 0, exchange_cost = 0, securities_cost = 0, fee_IMargin = 0 \<rparr> \<rparr> \<rparr>"

definition sample_state :: "(nat + nat) list proxy_state" where
  "sample_state = \<lparr> authen_clients = empty_pool, trade_clients = empty_pool, outside = [] \<rparr>"

definition sample_trade :: "string \<Rightarrow> FuturesTradeRequest" where
  "sample_trade signature =
     \<lparr> trade_futures_id = Some ''A1'', trade_symbol = Some ''HSIF7'', trade_volume = Some ''1'',
       trade_type = Some 1, trade_price = Some ''25'', trade_signature = Some signature,
       trade_session = Some \<lparr> session_str = Some ''good'', uid = Some 1 \<rparr>, trade_OrderOptions = Some 0,
       trade_CondType = Some 0, trade_OrderType = Some 0, trade_ValidType = Some 0,
       trade_price_digits = Some 4, trade_terminal_info = None \<rparr>"

lemma sample_env_ok [simp]: "env_ok sample_env"
  by (simp add: env_ok_def sample_env_def)

lemma sample_state_ok [simp]: "state_ok sample_env sample_state"
  by (simp add: state_ok_def sample_state_def)

section \<open>Every request is answered\<close>

lemma queries_answered:
  assumes "env_ok env" and "state_ok env st"
  shows "answers env (QueryMyFuturesAssets env q1 r1 st)" "answers env (QueryPendingOrders env q2 r2 st)"
    "answers env (QueryHoldingOrders env q3 r3 st)" "answers env (QueryOrderDetail env q4 r4 st)"
    "answers env (QueryTransactionRecord env q5 r5 st)" "answers env (QueryHistoryOrders env q6 r6 st)"
    "answers env (QueryUserStatus env q7 r7 st)" "answers env (QueryFuturesAccountConfig env q8 r8 st)"
    "answers env (TradeConfirmInfo env q9 r9 st)" "answers env (QuerySymbolTradeInfo env q10 r10 st)"
  unfolding QueryMyFuturesAssets_def QueryPendingOrders_def QueryHoldingOrders_def QueryOrderDetail_def
    QueryTransactionRecord_def QueryHistoryOrders_def QueryUserStatus_def QueryFuturesAccountConfig_def
    TradeConfirmInfo_def QuerySymbolTradeInfo_def Let_def
  using assms
  by (auto intro!: with_session_answers call_trade_answers trade_rpcs_ok
      simp: access_info_state split: prod.splits option.splits)

lemma FuturesTrade_signed_answered:
  assumes "env_ok env" and "state_ok env st" and "expected_signature env q \<noteq> None"
  shows "answers env (FuturesTrade env q r st)"
proof -
  have "answers env (with_session env (trade_session q) fail (\<lambda>session st1.
      case access_info env st1 of (access, st2) \<Rightarrow>
        (case env_clock env (outside st2) of (tp, w3) \<Rightarrow>
           call_trade env
             (SPTradeInfo_AddOrder (env_network env) (env_flags env) (env_trade env)
               (add_order_req env q session access tp))
             (new_AddOrderResp env) fail finish (st2\<lparr>outside := w3\<rparr>))) st)" for fail finish
    using assms(1,2)
    by (auto intro!: with_session_answers call_trade_answers trade_rpcs_ok
        simp: state_ok_def access_info_def GenerateUniqueID_def split: prod.splits)
  then show ?thesis
    using assms(2,3) by (auto simp: FuturesTrade_def Let_def split: option.splits)
qed

lemma FuturesTrade_answered:
  assumes "env_ok env" and "state_ok env st"
    and "length (md5_buffer (stack_memory env)) = 64" and "length (signed_text q) + 63 < 2 ^ 32"
  shows "answers env (FuturesTrade env q r st)"
  using FuturesTrade_signed_answered[OF assms(1,2)] expected_signature_eq[OF assms(3,4)] by simp

lemma CancelPendingOrder_answered:
  assumes "env_ok env" and "state_ok env st"
    and "atoi (cstr (str_field (cancel_order_id q))) = Some n"
  shows "answers env (CancelPendingOrder env q r st)"
  unfolding CancelPendingOrder_def Let_def
  using assms
  by (auto intro!: with_session_answers call_trade_answers trade_rpcs_ok
      simp: access_info_state split: prod.splits)


definition blank_status_return :: StatusReturn where
  "blank_status_return = \<lparr> only_status_info = None \<rparr>"

definition sample_cancellation :: CancelPendingOrderRequest where
  "sample_cancellation = \<lparr> cancel_futures_id = Some ''A1'', cancel_order_id = Some ''7'',
     cancel_symbol = Some ''HSIF7'', cancel_session = Some \<lparr> session_str = Some ''good'', uid = Some 1 \<rparr>,
     cancel_terminal_info = None \<rparr>"


definition status_set :: "('r \<Rightarrow> StatusInfo option) \<Rightarrow> ('r \<times> 's) option \<Rightarrow> bool" where
  "status_set status x \<longleftrightarrow> (case x of None \<Rightarrow> True | Some (resp, st) \<Rightarrow>
     (case status resp of None \<Rightarrow> False
      | Some s \<Rightarrow> status_no s \<in> {0, 1, 30002, 30003, 30004, 30005, 30006}))"

lemma status_set_Some [simp]:
  "status_set status (Some (resp, st)) \<longleftrightarrow>
     (case status resp of None \<Rightarrow> False | Some s \<Rightarrow> status_no s \<in> {0, 1, 30002, 30003, 30004, 30005, 30006})"
  "status_set status None"
  by (simp_all add: status_set_def)

lemma fill_status_simp [simp]:
  "fill_status status err msg = Some \<lparr> status_no = error_number err, status_message = msg \<rparr>"
  by (cases status) (simp_all add: fill_status_def FillStatusInfo_def blank_status_def)

lemma with_session_status:
  assumes "status_set status (Some (fail ErrCode_FUTURES_REQ_ERR ''REQ ERROR'', st))"
    and "\<And>st. status_set status (Some (fail ErrCode_FUTURES_SESSION_ERR ''SESSION ERROR'', st))"
    and "\<And>s st. status_set status (act s st)"
  shows "status_set status (with_session env session fail act st)"
  using assms by (auto simp: with_session_def split: option.splits)

lemma call_trade_status:
  assumes "\<And>st. status_set status (Some (fail ErrCode_FUTURES_INFO_BUSY ''FUTURES INFO BUSY'', st))"
    and "\<And>a st. status_set status (Some (finish a, st))"
  shows "status_set status (call_trade env rpc answer fail finish st)"
  using assms by (auto simp: call_trade_def Let_def split: option.splits prod.splits)

text \<open>C26:
  Every response a function gives carries a status, whatever branch it took, so that the field the
  schema requires is present when the response is serialized; and its number is one of those the
  schema lists, other than \<^verbatim>\<open>ErrCode_FUTURES_NOT_FOUND\<close>.
\<close>

theorem status_always_set:
  "status_set assets_status_info (QueryMyFuturesAssets env q1 r1 st) \<and>
   status_set orders_status_info (QueryPendingOrders env q2 r2 st) \<and>
   status_set orders_status_info (QueryHoldingOrders env q3 r3 st) \<and>
   status_set detail_status_info (QueryOrderDetail env q4 r4 st) \<and>
   status_set records_status_info (QueryTransactionRecord env q5 r5 st) \<and>
   status_set orders_status_info (QueryHistoryOrders env q6 r6 st) \<and>
   status_set ustatus_status_info (QueryUserStatus env q7 r7 st) \<and>
   status_set config_status_info (QueryFuturesAccountConfig env q8 r8 st) \<and>
   status_set confirm_status_info (TradeConfirmInfo env q9 r9 st) \<and>
   status_set tinfo_status_info (QuerySymbolTradeInfo env q10 r10 st) \<and>
   status_set only_status_info (FuturesTrade env q11 r11 st) \<and>
   status_set only_status_info (CancelPendingOrder env q12 r12 st) \<and>
   status_set byname_status_info (QuerySymbolByName env q13 r13 st) \<and>
   status_set only_status_info (SymbolTypeRecommend env u1 r14 st) \<and>
   status_set only_status_info (SymbolListByType env u2 r14 st) \<and>
   status_set only_status_info (QueryFifthOrder env u3 r14 st) \<and>
   status_set only_status_info (QuerySymbolQuotations env u4 r14 st) \<and>
   status_set only_status_info (FuturesGraph env u5 r14 st) \<and>
   status_set only_status_info (FuturesKLine env u6 r14 st)"
  unfolding QueryMyFuturesAssets_def QueryPendingOrders_def QueryHoldingOrders_def QueryOrderDetail_def
    QueryTransactionRecord_def QueryHistoryOrders_def QueryUserStatus_def QueryFuturesAccountConfig_def
    TradeConfirmInfo_def QuerySymbolTradeInfo_def FuturesTrade_def CancelPendingOrder_def
    QuerySymbolByName_def SymbolTypeRecommend_def SymbolListByType_def QueryFifthOrder_def
    QuerySymbolQuotations_def FuturesGraph_def FuturesKLine_def answer_success_def Let_def
  by (intro conjI)
    (auto intro!: with_session_status call_trade_status simp: Let_def split: prod.splits option.splits)

section \<open>Sessions that are not confirmed\<close>

text \<open>C8:
  A request whose session the authentication service does not confirm goes no further than the
  check, in each of the eight functions that check: the answer is \<^verbatim>\<open>SESSION ERROR\<close> and the
  state is the one the check left, so that no client of the trading service was borrowed and
  nothing was asked of it, not even for an order with a correct signature.
\<close>

theorem unconfirmed_session_refused:
  fixes env :: "('w, 'j) environment"
  assumes "ValidateSession env s st = Some (ret, st')" and "ret \<noteq> auth_SUCCESS (env_enumerators env)"
    and "expected_signature env q8 = Some (str_field (trade_signature q8))"
  defines "refusal \<equiv> Some \<lparr> status_no = 30006, status_message = ''SESSION ERROR'' \<rparr>"
  shows "QueryMyFuturesAssets env (q1\<lparr>assets_login_session := Some s\<rparr>) r1 st =
      Some (r1\<lparr>assets_status_info := refusal\<rparr>, st') \<and>
    QueryPendingOrders env (q2\<lparr>pending_login_session := Some s\<rparr>) r2 st =
      Some (r2\<lparr>orders_status_info := refusal\<rparr>, st') \<and>
    QueryHoldingOrders env (q3\<lparr>holding_login_session := Some s\<rparr>) r3 st =
      Some (r3\<lparr>orders_status_info := refusal\<rparr>, st') \<and>
    QueryOrderDetail env (q4\<lparr>detail_login_session := Some s\<rparr>) r4 st =
      Some (r4\<lparr>detail_status_info := refusal\<rparr>, st') \<and>
    QueryTransactionRecord env (q5\<lparr>records_login_session := Some s\<rparr>) r5 st =
      Some (r5\<lparr>records_status_info := refusal\<rparr>, st') \<and>
    QueryHistoryOrders env (q6\<lparr>history_login_session := Some s\<rparr>) r6 st =
      Some (r6\<lparr>orders_status_info := refusal\<rparr>, st') \<and>
    CancelPendingOrder env (q7\<lparr>cancel_session := Some s\<rparr>) r7 st =
      Some (r7\<lparr>only_status_info := refusal\<rparr>, st') \<and>
    FuturesTrade env (q8\<lparr>trade_session := Some s\<rparr>) r8 st =
      Some (r8\<lparr>only_status_info := refusal\<rparr>, st')"
proof -
  have refused: "with_session env (Some s) fail act st =
      Some (fail ErrCode_FUTURES_SESSION_ERR ''SESSION ERROR'', st')"
    for fail :: "FuturesError \<Rightarrow> string \<Rightarrow> 'r" and act
    using assms(1,2) by (simp add: with_session_def)
  have sig: "expected_signature env (q8\<lparr>trade_session := Some s\<rparr>) = Some (str_field (trade_signature q8))"
    using assms(3) by (simp add: expected_signature_def signed_text_def)
  show ?thesis
    unfolding QueryMyFuturesAssets_def QueryPendingOrders_def QueryHoldingOrders_def QueryOrderDetail_def
      QueryTransactionRecord_def QueryHistoryOrders_def CancelPendingOrder_def FuturesTrade_def Let_def
      refusal_def
    using sig by (simp add: refused)
qed

lemmas sample_validate_simps =
  ValidateSession_def GetClientPtr_def sample_state_def empty_pool_def next_address_def
  AuthenClientPool_NewClientPtr_def new_AuthenServerWrapper_def Authen_InitClient_def unconnected_def
  Authen_ValidateSession_def connect_authen_def authenticate_def sample_authen_def
  retry_loop.simps sample_network_def

lemma sample_validate:
  "\<exists>st'. ValidateSession sample_env \<lparr> session_str = Some ''bad'', uid = Some 1 \<rparr> sample_state = Some (3, st')"
  "\<exists>st'. ValidateSession sample_env \<lparr> session_str = Some ''good'', uid = Some 1 \<rparr> sample_state = Some (0, st')"
  by (simp_all add: sample_env_def sample_validate_simps Let_def)

definition sample_signature :: string where
  "sample_signature =
     AESEncrypt (env_cryptopp sample_env) (bytesToHexString (ref_digest (bytes_of (signed_text (sample_trade '''')))))"

lemma sample_signature_expected:
  "expected_signature sample_env (sample_trade sample_signature) = Some sample_signature"
proof -
  have "signed_text (sample_trade sample_signature) = signed_text (sample_trade '''')"
    by (simp add: signed_text_def sample_trade_def)
  moreover have "length (signed_text (sample_trade sample_signature)) + 63 < 2 ^ 32"
    by (simp add: signed_text_def sample_trade_def decimal_int_def decimal.simps)
  moreover have "length (md5_buffer (stack_memory sample_env)) = 64"
    by (simp add: sample_env_def sample_md5_def)
  ultimately show ?thesis by (simp add: expected_signature_eq sample_signature_def)
qed

theorem unconfirmed_session_refused_witness:
  "\<exists>st'. FuturesTrade sample_env
      ((sample_trade sample_signature)\<lparr>trade_session := Some \<lparr> session_str = Some ''bad'', uid = Some 1 \<rparr>\<rparr>)
      blank_status_return sample_state =
    Some (blank_status_return\<lparr>only_status_info :=
      Some \<lparr> status_no = 30006, status_message = ''SESSION ERROR'' \<rparr>\<rparr>, st')"
proof -
  obtain st' where bad: "ValidateSession sample_env \<lparr> session_str = Some ''bad'', uid = Some 1 \<rparr> sample_state = Some (3, st')"
    using sample_validate(1) by blast
  have no: "(3 :: int) \<noteq> auth_SUCCESS (env_enumerators sample_env)"
    by (simp add: sample_env_def sample_enumerators_def)
  have sig: "expected_signature sample_env (sample_trade sample_signature) =
      Some (str_field (trade_signature (sample_trade sample_signature)))"
    using sample_signature_expected by (simp add: sample_trade_def)
  show ?thesis
    using unconfirmed_session_refused [OF bad no sig, THEN conjunct2, THEN conjunct2, THEN conjunct2,
      THEN conjunct2, THEN conjunct2, THEN conjunct2, THEN conjunct2] by blast
qed

section \<open>Orders\<close>

text \<open>
  A count of the orders that reached the trading service: only \<^verbatim>\<open>AddOrder\<close> raises it, and by
  at most one.
\<close>

definition counts_orders :: "('w, 'j) environment \<Rightarrow> ('w \<Rightarrow> nat) \<Rightarrow> bool" where
  "counts_orders env sent \<longleftrightarrow>
     (\<forall>ip port a b d w. sent (snd (new_transport (env_network env) ip port a b d w)) = sent w) \<and>
     (\<forall>k w. sent (snd (open_transport (env_network env) k w)) = sent w) \<and>
     (\<forall>w. sent (snd (env_clock env w)) = sent w) \<and>
     (\<forall>k session w. sent (snd (env_authen env k session w)) = sent w) \<and>
     (\<forall>k q r w. sent (snd (snd (rpc_AddOrder (env_trade env) k q r w))) \<le> Suc (sent w))"

lemma counts_ordersD:
  assumes "counts_orders env sent"
  shows "new_transport (env_network env) ip port a b d w = (k, w1) \<Longrightarrow> sent w1 = sent w"
    and "open_transport (env_network env) k w = (opened, w1) \<Longrightarrow> sent w1 = sent w"
    and "env_clock env w = (tp, w1) \<Longrightarrow> sent w1 = sent w"
    and "env_authen env k session w = (ret, w1) \<Longrightarrow> sent w1 = sent w"
    and "rpc_AddOrder (env_trade env) k q r w = (ok, r', w1) \<Longrightarrow> sent w1 \<le> Suc (sent w)"
  using assms unfolding counts_orders_def by (metis snd_conv)+

lemma GetClientPtr_sent:
  assumes "GetClientPtr malloc new p w = (client, p', w')"
    and "\<And>c w'. new w = (c, w') \<Longrightarrow> sent w' = sent w"
  shows "sent w' = (sent w :: nat)"
  using assms by (auto simp: GetClientPtr_def Let_def split: if_splits prod.splits)

lemma InitClient_sent:
  assumes "counts_orders env sent"
  shows "SPTradeInfo_InitClient (env_network env) fl c w = (b, c', w') \<Longrightarrow> sent w' = sent w"
    and "Authen_InitClient (env_network env) fl c w = (b, c', w') \<Longrightarrow> sent w' = sent w"
  using counts_ordersD(1,2) [OF assms]
  by (fastforce simp: SPTradeInfo_InitClient_def Authen_InitClient_def Let_def split: if_splits prod.splits)+

lemma new_client_sent:
  assumes "counts_orders env sent"
  shows "SPTradeInfoClientPool_NewClientPtr (env_network env) fl w = (c, w') \<Longrightarrow> sent w' = sent w"
    and "AuthenClientPool_NewClientPtr (env_network env) fl w = (c, w') \<Longrightarrow> sent w' = sent w"
  unfolding SPTradeInfoClientPool_NewClientPtr_def AuthenClientPool_NewClientPtr_def
    new_SPTradeInfoWrapper_def new_AuthenServerWrapper_def
  by (metis InitClient_sent(1) [OF assms] prod.collapse snd_conv,
      metis InitClient_sent(2) [OF assms] prod.collapse snd_conv)

lemma Authen_ValidateSession_sent:
  assumes "counts_orders env sent"
    and "Authen_ValidateSession (env_network env) fl en (env_authen env) session c w = Some (b, c', ret, w')"
  shows "sent w' = sent w"
proof -
  let ?Q = "\<lambda>(c', ret, w'). sent w' = sent w"
  have keep: "?Q t" if "?Q s" "attempt (connect_authen (env_network env) fl) (authenticate (env_authen env) session) s = Some (b, t)" for s t b
    using that InitClient_sent(2) [OF assms(1)] counts_ordersD(4) [OF assms(1)]
    by (fastforce simp: attempt_def connect_authen_def authenticate_def
        split: prod.splits if_splits option.splits)
  have "if b then ?Q (c', ret, w') else ?Q (c', ret, w')"
    using _ keep keep assms(2) [unfolded Authen_ValidateSession_def] by (rule retry_loop_rule) simp
  then show ?thesis by (cases b) simp_all
qed


definition session_query :: "LoginSession \<Rightarrow> SessionInfo" where
  "session_query session = \<lparr> m_session_id = str_field (session_str session), m_uid = int_field (uid session) \<rparr>"

lemma ValidateSession_sent:
  assumes "counts_orders env sent" and "ValidateSession env session st = Some (ret, st')"
  shows "sent (outside st') = sent (outside st)"
    and "ret \<noteq> auth_UNKNOWN (env_enumerators env) \<Longrightarrow> \<exists>k v. fst (env_authen env k (session_query session) v) = Some ret"
proof -
  obtain client p w where get: "GetClientPtr (env_malloc env)
      (AuthenClientPool_NewClientPtr (env_network env) (env_flags env)) (authen_clients st) (outside st) = (client, p, w)"
    by (cases "GetClientPtr (env_malloc env) (AuthenClientPool_NewClientPtr (env_network env) (env_flags env))
      (authen_clients st) (outside st)") auto
  with assms(2) obtain c b c' w' where call: "Authen_ValidateSession (env_network env) (env_flags env)
      (env_enumerators env) (env_authen env) (session_query session) c w = Some (b, c', ret, w')"
    and st': "outside st' = w'"
    by (auto simp: ValidateSession_def session_query_def Let_def split: option.splits)
  have "sent w' = sent w" using assms(1) call by (rule Authen_ValidateSession_sent)
  also have "\<dots> = sent (outside st)" using get new_client_sent(2) [OF assms(1)] by (rule GetClientPtr_sent)
  finally show "sent (outside st') = sent (outside st)" using st' by simp
  show "\<exists>k v. fst (env_authen env k (session_query session) v) = Some ret"
    if "ret \<noteq> auth_UNKNOWN (env_enumerators env)"
    using validate_session_result [OF call] that by (auto split: if_splits)
qed

lemma call_AddOrder_sent:
  assumes "counts_orders env sent" and "FLAGS_rpc_call_times (env_flags env) = 1"
    and "call_trade env (SPTradeInfo_AddOrder (env_network env) (env_flags env) (env_trade env) q) a fail finish st
      = Some (resp, st')"
  shows "sent (outside st') \<le> Suc (sent (outside st))"
proof -
  obtain client p w where get: "GetClientPtr (env_malloc env)
      (SPTradeInfoClientPool_NewClientPtr (env_network env) (env_flags env)) (trade_clients st) (outside st) = (client, p, w)"
    by (cases "GetClientPtr (env_malloc env) (SPTradeInfoClientPool_NewClientPtr (env_network env) (env_flags env))
      (trade_clients st) (outside st)") auto
  with assms(3) obtain c b c' a' w' where
    "SPTradeInfo_AddOrder (env_network env) (env_flags env) (env_trade env) q c a w = Some (b, c', a', w')"
    and st': "outside st' = w'"
    by (auto simp: call_trade_def Let_def split: option.splits)
  then have loop: "retry_loop (connect_sp (env_network env) (env_flags env)) (invoke (rpc_AddOrder (env_trade env)) q)
      (int 1) (c, a, w) = Some (b, c', a', w')"
    using assms(2) by (simp add: SPTradeInfo_AddOrder_def)
  have "sent w' \<le> sent w + 1"
    using counts_ordersD(1,2,5) [OF assms(1)] loop by (rule consumes_sp)
  moreover have "sent w = sent (outside st)"
    using get new_client_sent(1) [OF assms(1)] by (rule GetClientPtr_sent)
  ultimately show ?thesis using st' by simp
qed

text \<open>C6:
  One trade request enters at most one order, and it enters none unless the signature in the request
  is the encrypted MD5 of its fields and the authentication service has confirmed exactly the session
  in the request. This holds whatever the network, the back ends and the state of the pools are, with
  the default of one call per order; \<open>sent\<close> is any count that only a remote \<^verbatim>\<open>AddOrder\<close>
  raises, by at most one.
\<close>

theorem order_signed_confirmed_once:
  assumes "counts_orders env sent" and "FLAGS_rpc_call_times (env_flags env) = 1"
    and "auth_UNKNOWN (env_enumerators env) \<noteq> auth_SUCCESS (env_enumerators env)"
    and "FuturesTrade env req resp st = Some (resp', st')"
  shows "sent (outside st') \<le> Suc (sent (outside st)) \<and>
    (sent (outside st') \<noteq> sent (outside st) \<longrightarrow>
       expected_signature env req = Some (str_field (trade_signature req)) \<and>
       (\<exists>session k v. trade_session req = Some session \<and>
          fst (env_authen env k (session_query session) v) = Some (auth_SUCCESS (env_enumerators env))))"
proof (cases "trade_session req = None \<or> expected_signature env req \<noteq> Some (str_field (trade_signature req))")
  case True
  with assms(4) have "st' = st" by (auto simp: FuturesTrade_def Let_def split: option.splits if_splits)
  then show ?thesis by simp
next
  case False
  then obtain session where session: "trade_session req = Some session"
    and sig: "expected_signature env req = Some (str_field (trade_signature req))" by auto
  obtain ret st1 where val: "ValidateSession env session st = Some (ret, st1)"
    using assms(4) session sig by (auto simp: FuturesTrade_def with_session_def Let_def split: option.splits)
  note same = ValidateSession_sent(1) [OF assms(1) val]
  show ?thesis
  proof (cases "ret = auth_SUCCESS (env_enumerators env)")
    case False
    with assms(4) session sig val have "st' = st1"
      by (auto simp: FuturesTrade_def with_session_def Let_def)
    with same show ?thesis by simp
  next
    case True
    obtain access st2 where acc: "access_info env st1 = (access, st2)" by fastforce
    obtain tp w3 where clock: "env_clock env (outside st2) = (tp, w3)" by fastforce
    have "sent (outside st2) = sent (outside st1)"
      using acc counts_ordersD(3) [OF assms(1)]
      by (auto simp: access_info_def GenerateUniqueID_def split: prod.splits)
    moreover have "sent w3 = sent (outside st2)" using clock by (rule counts_ordersD(3) [OF assms(1)])
    moreover have "sent (outside st') \<le> Suc (sent (outside (st2\<lparr>outside := w3\<rparr>)))"
      using assms(4) session sig val True acc clock
      by (intro call_AddOrder_sent [OF assms(1,2)]) (simp add: FuturesTrade_def with_session_def Let_def)
    moreover have "\<exists>k v. fst (env_authen env k (session_query session) v) = Some (auth_SUCCESS (env_enumerators env))"
      using ValidateSession_sent(2) [OF assms(1) val] True assms(3) by simp
    ultimately show ?thesis using same session sig by auto
  qed
qed

text \<open>The sample environment with an authentication service that confirms everybody and logs nothing.\<close>

definition open_env :: "((nat + nat) list, unit) environment" where
  "open_env = sample_env\<lparr>env_authen := (\<lambda>k session w. (Some 0, w))\<rparr>"

lemma open_env_counts: "counts_orders open_env calls_in"
  by (auto simp: counts_orders_def open_env_def sample_env_def sample_network_def sample_service_def
      fails_first_def calls_in_def)

lemma sample_order_entered:
  "\<exists>resp st'. FuturesTrade open_env (sample_trade sample_signature) blank_status_return sample_state = Some (resp, st') \<and>
     calls_in (outside st') = 1"
proof -
  have sig: "expected_signature open_env (sample_trade sample_signature) = Some sample_signature"
    using sample_signature_expected by (simp add: expected_signature_def open_env_def)
  have gate: "trade_signature (sample_trade s) = Some s"
    "trade_session (sample_trade s) = Some \<lparr> session_str = Some ''good'', uid = Some 1 \<rparr>" for s
    by (simp_all add: sample_trade_def)
  show ?thesis
    by (simp only: FuturesTrade_def Let_def sig gate option.case field_simps_set not_True_eq_False
        simp_thms if_False)
      (simp add: with_session_def open_env_def sample_env_def sample_enumerators_def
        ValidateSession_def GetClientPtr_def sample_state_def empty_pool_def next_address_def
        AuthenClientPool_NewClientPtr_def new_AuthenServerWrapper_def Authen_InitClient_def unconnected_def
        Authen_ValidateSession_def connect_authen_def authenticate_def retry_loop.simps sample_network_def
        access_info_def GenerateUniqueID_def call_trade_def SPTradeInfoClientPool_NewClientPtr_def
        new_SPTradeInfoWrapper_def SPTradeInfo_InitClient_def SPTradeInfo_AddOrder_def connect_sp_def
        invoke_def sample_service_def fails_first_def calls_in_def)
qed

theorem order_signed_confirmed_once_witness:
  "\<exists>resp st'. FuturesTrade open_env (sample_trade sample_signature) blank_status_return sample_state = Some (resp, st') \<and>
     calls_in (outside st') \<le> Suc (calls_in (outside sample_state)) \<and>
     calls_in (outside st') \<noteq> calls_in (outside sample_state)"
proof -
  obtain resp st' where run: "FuturesTrade open_env (sample_trade sample_signature) blank_status_return sample_state
      = Some (resp, st')" and one: "calls_in (outside st') = 1"
    using sample_order_entered by blast
  have "FLAGS_rpc_call_times (env_flags open_env) = 1"
    "auth_UNKNOWN (env_enumerators open_env) \<noteq> auth_SUCCESS (env_enumerators open_env)"
    by (simp_all add: open_env_def sample_env_def sample_enumerators_def)
  from order_signed_confirmed_once [OF open_env_counts this run]
  have "calls_in (outside st') \<le> Suc (calls_in (outside sample_state))" by blast
  with run one show ?thesis by (auto simp: sample_state_def calls_in_def)
qed

section \<open>What the signature leaves open\<close>

lemma decimal_int_examples: "decimal_int 1 = ''1''" "decimal_int 2 = ''2''"
  by code_simp+

text \<open>C24:
  The signature does not tell the fields apart: whatever cipher is used, a request to buy one lot at
  25 and a request to sell eleven lots at 5, for the same account and contract, have the same
  signature, while the orders built from them have opposite directions.
\<close>

theorem signature_ambiguous:
  "let buy = req\<lparr>trade_volume := Some ''1'', trade_type := Some 1, trade_price := Some ''25''\<rparr>;
       sell = req\<lparr>trade_volume := Some ''11'', trade_type := Some 2, trade_price := Some ''5''\<rparr>
   in expected_signature env buy = expected_signature env sell \<and>
      addq_BuySell (add_order_req env buy session access tp) = CHR ''B'' \<and>
      addq_BuySell (add_order_req env sell session access tp) = CHR ''S''"
  by (simp add: Let_def expected_signature_def signed_text_def add_order_req_def decimal_int_examples)

text \<open>
  The options a trade request carries (order options, condition, order type, validity, price digits)
  have no influence: the order is always a limit order for the rest of the day.
\<close>

lemma order_options_ignored:
  "FuturesTrade env (req\<lparr>trade_OrderOptions := a, trade_CondType := b, trade_OrderType := c,
     trade_ValidType := d, trade_price_digits := e\<rparr>) resp st = FuturesTrade env req resp st"
  by (simp add: FuturesTrade_def expected_signature_def signed_text_def add_order_req_def Let_def
      cong: option.case_cong if_cong)

end
