(* ===== verification/Request_Handler.thy ===== *)
theory Request_Handler imports Futures_Proxy Http_Handler
begin

text \<open>
  The request handler of the program (\<^verbatim>\<open>src/src/request_handler.*\<close> with the macro
  \<^verbatim>\<open>ADD_HANDLE\<close> of \<^verbatim>\<open>src/common/define.h\<close>): it registers one function per request
  name, which decodes the message, runs the business logic and encodes the result. Protocol-buffer
  encoding is a parameter. The state of the server around the functions is the state of the business
  logic, or None once a function has run into behaviour that is not defined.
\<close>

section \<open>Messages and their encoding\<close>

text \<open>
  \<open>parse_message\<close> is the message that \<^verbatim>\<open>ParseFromString\<close> leaves, whether it succeeds or not:
  the program ignores its result.
\<close>

record ('q, 'r) codec =
  parse_message :: "string \<Rightarrow> 'q"
  serialize_message :: "'r \<Rightarrow> string"

record codecs =
  codec_QueryMyFuturesAssets :: "(QueryMyFuturesAssetsRequest, QueryMyFuturesAssetsReturn) codec"
  codec_QueryUserStatus :: "(QueryUserStatusRequest, QueryUserStatusReturn) codec"
  codec_QueryFuturesAccountConfig :: "(QueryFuturesAcconutConfigRequest, QueryFuturesAccountConfigReturn) codec"
  codec_QueryPendingOrders :: "(QueryPendingOrdersRequest, QueryPendingOrdersReturn) codec"
  codec_QueryHoldingOrders :: "(QueryHoldingOrdersRequest, QueryHoldingOrdersReturn) codec"
  codec_QueryOrderDetail :: "(QueryOrderDetailRequest, QueryOrderDetailReturn) codec"
  codec_QueryTransactionRecord :: "(QueryTransactionRecordRequest, QueryTransactionRecordReturn) codec"
  codec_FuturesTrade :: "(FuturesTradeRequest, FuturesTradeReturn) codec"
  codec_CancelPendingOrder :: "(CancelPendingOrderRequest, FututesCancelPendingOrderReturn) codec"
  codec_QueryHistoryOrders :: "(QueryHistoryOrderRequest, QueryHistoryOrderReturn) codec"
  codec_SymbolTypeRecommend :: "(SymbolTypeRecommendRequest, SymbolTypeRecommendReturn) codec"
  codec_SymbolListByType :: "(SymbolListByTypeRequest, SymbolListByTypeReturn) codec"
  codec_QuerySymbolByName :: "(QuerySymbolByNameRequest, QuerySymbolByNameReturn) codec"
  codec_TradeConfirmInfo :: "(TradeConfirmInfoRequest, TradeConfirmInfoReturn) codec"
  codec_QuerySymbolTradeInfo :: "(QuerySymbolTradeInfoRequest, QuerySymbolTradeInfoReturn) codec"
  codec_QueryFifthOrder :: "(QueryFifthOrderRequest, QueryFifthOrderReturn) codec"
  codec_QuerySymbolQuotations :: "(QuerySymbolQuotationsRequest, QuerySymbolQuotationsReturn) codec"
  codec_FuturesGraph :: "(FuturesGraphRequest, FuturesGraphReturn) codec"
  codec_FuturesKLine :: "(FuturesKLineRequest, FuturesKLineReturn) codec"

text \<open>The inline function \<^verbatim>\<open>base##fun_name\<close> that \<^verbatim>\<open>ADD_HANDLE\<close> defines.\<close>

definition ADD_HANDLE ::
  "('q, 'r) codec \<Rightarrow> ('q \<Rightarrow> 's \<Rightarrow> ('r \<times> 's) option) \<Rightarrow> 's option handle_function" where
  "ADD_HANDLE codec fun_name = (\<lambda>in_data s.
     case s of
       None \<Rightarrow> ('''', None)
     | Some st \<Rightarrow>
         (case fun_name (parse_message codec in_data) st of
            None \<Rightarrow> ('''', None)
          | Some (out_proto, st') \<Rightarrow> (serialize_message codec out_proto, Some st')))"

text \<open>
  \<^verbatim>\<open>QPS_RETURN\<close>, which the file defines beside it and no function uses: the answer of a function
  that does not want to do its work now, a new message of the response's class with the text in
  the field \<^verbatim>\<open>status_info\<close> or, where the class has none, in \<^verbatim>\<open>err_info\<close>. A class
  is given by its new object and by how its two fields are set, None for a field it does not have. The
  result None means that the macro falls through: it logs and the function goes on.
\<close>

record ErrInfo =
  err_no :: int
  err_str :: string

definition FAILED :: int where
  "FAILED = 1"

record 'r message_class =
  new_message :: 'r
  set_status_info :: "(StatusInfo \<Rightarrow> 'r \<Rightarrow> 'r) option"
  set_err_info :: "(ErrInfo \<Rightarrow> 'r \<Rightarrow> 'r) option"

definition QPS_RETURN :: "string \<Rightarrow> 'r message_class \<Rightarrow> ('q, 'r) codec \<Rightarrow> string option" where
  "QPS_RETURN res_msg ret_class codec =
     (let ret = new_message ret_class
      in case set_status_info ret_class of
           Some put \<Rightarrow> Some (serialize_message codec (put \<lparr> status_no = -1, status_message = res_msg \<rparr> ret))
         | None \<Rightarrow>
             (case set_err_info ret_class of
                Some put \<Rightarrow> Some (serialize_message codec (put \<lparr> err_no = FAILED, err_str = res_msg \<rparr> ret))
              | None \<Rightarrow> None))"

lemma QPS_RETURN_returns: "QPS_RETURN res_msg ret_class codec \<noteq> None \<longleftrightarrow>
    set_status_info ret_class \<noteq> None \<or> set_err_info ret_class \<noteq> None"
  by (auto simp: QPS_RETURN_def Let_def split: option.splits)

section \<open>New responses\<close>

definition new_assets_return :: QueryMyFuturesAssetsReturn where
  "new_assets_return = \<lparr> assets_status_info = None, total_net_worth = None, real_buy_pwr = None,
     basic_deposit = None, pre_deposit = None, profit_today = None \<rparr>"

definition new_user_status_return :: QueryUserStatusReturn where
  "new_user_status_return = \<lparr> ustatus_status_info = None, status_url = None \<rparr>"

definition new_config_return :: QueryFuturesAccountConfigReturn where
  "new_config_return = \<lparr> config_status_info = None, config_info_plate_list = [] \<rparr>"

definition new_orders_return :: QueryOrdersReturn where
  "new_orders_return = \<lparr> orders_status_info = None, orders = [], orders_has_more = None \<rparr>"

definition new_detail_return :: QueryOrderDetailReturn where
  "new_detail_return = \<lparr> detail_status_info = None, order_detail = None \<rparr>"

definition new_records_return :: QueryTransactionRecordReturn where
  "new_records_return = \<lparr> records_status_info = None, records = [], records_has_more = None \<rparr>"

definition new_status_return :: StatusReturn where
  "new_status_return = \<lparr> only_status_info = None \<rparr>"

definition new_byname_return :: QuerySymbolByNameReturn where
  "new_byname_return = \<lparr> byname_status_info = None, symbols = [] \<rparr>"

definition new_confirm_return :: TradeConfirmInfoReturn where
  "new_confirm_return = \<lparr> confirm_status_info = None, security_deposit = None, commission = None \<rparr>"

definition new_trade_info_return :: QuerySymbolTradeInfoReturn where
  "new_trade_info_return = \<lparr> tinfo_status_info = None, symbol_info = None \<rparr>"

section \<open>The functions of the handler\<close>

text \<open>
  Each method of \<^verbatim>\<open>RequestHandler\<close> makes a new response and passes it to the method of the
  same name of the \<^verbatim>\<open>FuturesProxy\<close> singleton. The result is what it returns, with the state.
\<close>

definition handle_QueryMyFuturesAssets where
  "handle_QueryMyFuturesAssets env req st = QueryMyFuturesAssets env req new_assets_return st"

definition handle_QueryUserStatus where
  "handle_QueryUserStatus env req st = QueryUserStatus env req new_user_status_return st"

definition handle_QueryFuturesAccountConfig where
  "handle_QueryFuturesAccountConfig env req st = QueryFuturesAccountConfig env req new_config_return st"

definition handle_QueryPendingOrders where
  "handle_QueryPendingOrders env req st = QueryPendingOrders env req new_orders_return st"

definition handle_QueryHoldingOrders where
  "handle_QueryHoldingOrders env req st = QueryHoldingOrders env req new_orders_return st"

definition handle_QueryOrderDetail where
  "handle_QueryOrderDetail env req st = QueryOrderDetail env req new_detail_return st"

definition handle_QueryTransactionRecord where
  "handle_QueryTransactionRecord env req st = QueryTransactionRecord env req new_records_return st"

definition handle_FuturesTrade where
  "handle_FuturesTrade env req st = FuturesTrade env req new_status_return st"

definition handle_CancelPendingOrder where
  "handle_CancelPendingOrder env req st = CancelPendingOrder env req new_status_return st"

definition handle_QueryHistoryOrders where
  "handle_QueryHistoryOrders env req st = QueryHistoryOrders env req new_orders_return st"

definition handle_SymbolTypeRecommend where
  "handle_SymbolTypeRecommend env req st = SymbolTypeRecommend env req new_status_return st"

definition handle_SymbolListByType where
  "handle_SymbolListByType env req st = SymbolListByType env req new_status_return st"

definition handle_QuerySymbolByName where
  "handle_QuerySymbolByName env req st = QuerySymbolByName env req new_byname_return st"

definition handle_TradeConfirmInfo where
  "handle_TradeConfirmInfo env req st = TradeConfirmInfo env req new_confirm_return st"

definition handle_QuerySymbolTradeInfo where
  "handle_QuerySymbolTradeInfo env req st = QuerySymbolTradeInfo env req new_trade_info_return st"

definition handle_QueryFifthOrder where
  "handle_QueryFifthOrder env req st = QueryFifthOrder env req new_status_return st"

definition handle_QuerySymbolQuotations where
  "handle_QuerySymbolQuotations env req st = QuerySymbolQuotations env req new_status_return st"

definition handle_FuturesGraph where
  "handle_FuturesGraph env req st = FuturesGraph env req new_status_return st"

definition handle_FuturesKLine where
  "handle_FuturesKLine env req st = FuturesKLine env req new_status_return st"

text \<open>The echo function, which \<^verbatim>\<open>Init\<close> does not register.\<close>

definition baseecho :: "string \<Rightarrow> string" where
  "baseecho in_data = in_data"

section \<open>Registration\<close>

definition handle_table ::
  "('w, 'j) environment \<Rightarrow> codecs \<Rightarrow> (string \<times> 'w proxy_state option handle_function) list" where
  "handle_table env cs =
     [(''QueryMyFuturesAssets'', ADD_HANDLE (codec_QueryMyFuturesAssets cs) (handle_QueryMyFuturesAssets env)),
      (''QueryUserStatus'', ADD_HANDLE (codec_QueryUserStatus cs) (handle_QueryUserStatus env)),
      (''QueryFuturesAccountConfig'',
         ADD_HANDLE (codec_QueryFuturesAccountConfig cs) (handle_QueryFuturesAccountConfig env)),
      (''QueryPendingOrders'', ADD_HANDLE (codec_QueryPendingOrders cs) (handle_QueryPendingOrders env)),
      (''QueryHoldingOrders'', ADD_HANDLE (codec_QueryHoldingOrders cs) (handle_QueryHoldingOrders env)),
      (''QueryOrderDetail'', ADD_HANDLE (codec_QueryOrderDetail cs) (handle_QueryOrderDetail env)),
      (''QueryTransactionRecord'',
         ADD_HANDLE (codec_QueryTransactionRecord cs) (handle_QueryTransactionRecord env)),
      (''FuturesTrade'', ADD_HANDLE (codec_FuturesTrade cs) (handle_FuturesTrade env)),
      (''CancelPendingOrder'', ADD_HANDLE (codec_CancelPendingOrder cs) (handle_CancelPendingOrder env)),
      (''QueryHistoryOrders'', ADD_HANDLE (codec_QueryHistoryOrders cs) (handle_QueryHistoryOrders env)),
      (''SymbolTypeRecommend'', ADD_HANDLE (codec_SymbolTypeRecommend cs) (handle_SymbolTypeRecommend env)),
      (''SymbolListByType'', ADD_HANDLE (codec_SymbolListByType cs) (handle_SymbolListByType env)),
      (''QuerySymbolByName'', ADD_HANDLE (codec_QuerySymbolByName cs) (handle_QuerySymbolByName env)),
      (''TradeConfirmInfo'', ADD_HANDLE (codec_TradeConfirmInfo cs) (handle_TradeConfirmInfo env)),
      (''QuerySymbolTradeInfo'', ADD_HANDLE (codec_QuerySymbolTradeInfo cs) (handle_QuerySymbolTradeInfo env)),
      (''QueryFifthOrder'', ADD_HANDLE (codec_QueryFifthOrder cs) (handle_QueryFifthOrder env)),
      (''QuerySymbolQuotations'',
         ADD_HANDLE (codec_QuerySymbolQuotations cs) (handle_QuerySymbolQuotations env)),
      (''FuturesGraph'', ADD_HANDLE (codec_FuturesGraph cs) (handle_FuturesGraph env)),
      (''FuturesKLine'', ADD_HANDLE (codec_FuturesKLine cs) (handle_FuturesKLine env))]"

definition RequestHandler_Init ::
  "('w, 'j) environment \<Rightarrow> codecs \<Rightarrow> 'w proxy_state option handler \<Rightarrow> 'w proxy_state option handler" where
  "RequestHandler_Init env cs H = fold (\<lambda>(fun_name, f). REGISTE_HANDLE fun_name f) (handle_table env cs) H"

definition new_RequestHandler ::
  "('w, 'j) environment \<Rightarrow> codecs \<Rightarrow> string \<Rightarrow> 'w proxy_state option handler" where
  "new_RequestHandler env cs doc_root = RequestHandler_Init env cs (new_Handler doc_root)"

text \<open>
  \<^verbatim>\<open>RequestHandler::HandleRequest\<close> overrides the function of the base class with the same
  steps.
\<close>

definition RequestHandler_HandleRequest ::
  "boost \<Rightarrow> 'w handler \<Rightarrow> request \<Rightarrow> reply \<Rightarrow> 'w \<Rightarrow> reply \<times> 'w" where
  "RequestHandler_HandleRequest B H req rep w =
     (case UrlDecode (req_uri req) of
        None \<Rightarrow> (stock_reply B bad_request, w)
      | Some request_path \<Rightarrow> ProccessReqFromHandle B H request_path req rep w)"

lemma HandleRequest_overridden: "RequestHandler_HandleRequest = HandleRequest"
  by (intro ext) (simp add: RequestHandler_HandleRequest_def HandleRequest_def)

section \<open>What is registered\<close>

lemma handle_table_names:
  "map fst (handle_table env cs) =
     [''QueryMyFuturesAssets'', ''QueryUserStatus'', ''QueryFuturesAccountConfig'', ''QueryPendingOrders'',
      ''QueryHoldingOrders'', ''QueryOrderDetail'', ''QueryTransactionRecord'', ''FuturesTrade'',
      ''CancelPendingOrder'', ''QueryHistoryOrders'', ''SymbolTypeRecommend'', ''SymbolListByType'',
      ''QuerySymbolByName'', ''TradeConfirmInfo'', ''QuerySymbolTradeInfo'', ''QueryFifthOrder'',
      ''QuerySymbolQuotations'', ''FuturesGraph'', ''FuturesKLine'']"
  by (simp add: handle_table_def)

lemma RequestHandler_lookup:
  "m_handle_map (new_RequestHandler env cs doc_root) path = map_of (handle_table env cs) (unslashed path)"
proof -
  have "distinct (map fst (handle_table env cs))" unfolding handle_table_names by simp
  moreover have "\<forall>n \<in> set (map fst (handle_table env cs)). plain_name n"
    unfolding handle_table_names by (simp add: plain_name_def)
  ultimately show ?thesis
    using handler_registry.lookup_register_all [of "handle_table env cs" "new_Handler doc_root" path]
    by (simp add: new_RequestHandler_def RequestHandler_Init_def new_Handler_def split: option.splits)
qed


end
