(* ===== verification/Serving.thy ===== *)
theory Serving imports Connection_Props Futures_Proxy_Props Request_Handler
begin

text \<open>
  How a request travels through the server: the bytes of a well-formed request, read in one go on a
  connection that waits for it, are parsed, dispatched and answered. The properties that span the
  components rest on the lemma \<open>serve_request\<close>.
\<close>

lemma read_whole_request:
  assumes "incoming B r t hs body" 
  shows "\<exists>p. parse B new_request_parser r ((request_head t hs @ body) @ stale) (length (request_head t hs @ body)) =
    Some (Tri_true, p, received_request r t hs body)"
proof -
  have small: "length (request_head t hs @ body) < 2 ^ 31" using assms by (simp add: incoming_def)
  have "\<exists>s. parse B new_request_parser r ((request_head t hs @ body) @ stale) (length (request_head t hs @ body)) = Some s \<and>
      outcome r t hs body ([] @ request_head t hs @ body) s"
    by (rule parse_step[OF assms]) (use small in \<open>simp_all add: parse_after_def\<close>)
  then show ?thesis by (auto simp: outcome_def)
qed

lemma HandleRead_complete:
  assumes "conns t c = Some k" and "m_request_parser k = new_request_parser"
    and "parse B new_request_parser (m_request k) (dat @ drop (length dat) (m_buffer k)) (length dat) = Some (Tri_true, p, q)"
    and "HandleRequest B H q (m_reply k) (world t) = (rep, w')"
  shows "\<exists>s'. HandleRead B H now c dat t = Some s' \<and> Op_write c (wire rep) \<in># pending s' \<and> world s' = w'"
  using assms
  by (simp add: HandleRead_def UpdateActivieTime_def fill_buffer_def Let_def Reply_def start_op_def put_conn_def wire_def)

lemma serve_request:
  assumes "reachable B H s" and "Op_read c \<in># pending s" and "conns s c = Some k"
    and "pc (m_request_parser k) = P_start"
    and "boost_ok B" and "target_ok t" and "\<forall>h \<in> set hs. header_ok h" and "declares_length hs (length body)"
    and "length (request_head t hs @ body) \<le> s_http_recv_buf"
    and "UrlDecode t = Some path" and "m_handle_map H path = Some f" and "path \<notin> {''echo'', ''/echo''}"
    and "f body (world s) = (out, w')" and "length out < 2 ^ 64"
  shows "\<exists>s' bytes. HandleRead B H now c (request_head t hs @ body) (finish_op (Op_read c) s) = Some s' \<and>
    Op_write c bytes \<in># pending s' \<and> world s' = w' \<and>
    read_reply bytes = Some (''HTTP/1.0 200 OK'', [length_header (length out), type_header ''text/plain''], out)"
proof -
  define dat where "dat = request_head t hs @ body"
  define q where "q = received_request (m_request k) t hs body"
  have fresh: "m_request_parser k = new_request_parser" "fresh_request (m_request k)"
    using server_invD(9)[OF reachable_inv[OF assms(1)] assms(2)] assms(3,4) by (auto simp: op_ok_def awaiting_def)
  have "length dat < 2 ^ 31" using assms(9) by (simp add: dat_def s_http_recv_buf_def)
  then have "incoming B (m_request k) t hs body" using assms(5-8) fresh(2) by (simp add: incoming_def dat_def)
  from read_whole_request[OF this] obtain p where
    "parse B new_request_parser (m_request k) (dat @ drop (length dat) (m_buffer k)) (length dat) = Some (Tri_true, p, q)"
    unfolding dat_def q_def by blast
  moreover have uri: "req_uri q = t" "req_content q = body" by (simp_all add: q_def received_request_def)
  have "find_handle H path q = Some (path, f)" using assms(11) by (simp add: find_handle_def)
  then have "HandleRequest B H q (m_reply k) (world s) = (BuidlReply B out (m_reply k), w')"
    using HandleRequest_found[of q path H path f "world s" out w' B "m_reply k"] assms(10,12,13) uri
    by (simp add: answer_of_def)
  moreover have "conns (finish_op (Op_read c) s) c = Some k" "world (finish_op (Op_read c) s) = world s"
    using assms(3) by (simp_all add: finish_op_def)
  ultimately obtain s' where s': "HandleRead B H now c dat (finish_op (Op_read c) s) = Some s'"
      "Op_write c (wire (BuidlReply B out (m_reply k))) \<in># pending s'" "world s' = w'"
    using HandleRead_complete[of "finish_op (Op_read c) s" c k B dat p q H] fresh(1) by metis
  have "(BuidlReply B out (m_reply k))\<lparr>rep_status := st_ok\<rparr> = BuidlReply B out (m_reply k)"
    by (simp add: BuidlReply_def)
  then have "read_reply (wire (BuidlReply B out (m_reply k))) =
      Some (''HTTP/1.0 200 OK'', [length_header (length out), type_header ''text/plain''], out)"
    using read_BuidlReply[OF assms(5,14), where rep = "m_reply k" and st = st_ok] by (simp add: status_text_def crlf_def)
  with s' show ?thesis unfolding dat_def by blast
qed

text \<open>An encoding that knows one message, for examples.\<close>

definition stub_codec :: "'q \<Rightarrow> ('q, 'r) codec" where
  "stub_codec q = \<lparr> parse_message = (\<lambda>s. q), serialize_message = (\<lambda>r. ''answer'') \<rparr>"

definition blank_fifth_order :: QueryFifthOrderRequest where
  "blank_fifth_order = \<lparr> fifth_futures_id = None, fifth_symbol = None, fifth_login_session = None,
     fifth_terminal_info = None \<rparr>"

definition blank_graph :: FuturesGraphRequest where
  "blank_graph = \<lparr> graph_futures_id = None, graph_symbol = None, graph_period = None,
     graph_terminal_info = None \<rparr>"

definition sample_codecs :: codecs where
  "sample_codecs =
     \<lparr> codec_QueryMyFuturesAssets = stub_codec \<lparr> assets_futures_id = None, assets_login_session = None,
         assets_terminal_info = None \<rparr>,
       codec_QueryUserStatus = stub_codec \<lparr> ustatus_login_session = None, ustatus_futures_id = None,
         ustatus_terminal_info = None \<rparr>,
       codec_QueryFuturesAccountConfig = stub_codec \<lparr> config_type = None, config_login_session = None,
         config_futures_id = None, config_terminal_info = None \<rparr>,
       codec_QueryPendingOrders = stub_codec \<lparr> pending_futures_id = None, pending_login_session = None,
         pending_start_index = None, pending_batch_num = None, pending_terminal_info = None \<rparr>,
       codec_QueryHoldingOrders = stub_codec \<lparr> holding_futures_id = None, holding_login_session = None,
         holding_start_index = None, holding_batch_num = None, holding_terminal_info = None \<rparr>,
       codec_QueryOrderDetail = stub_codec \<lparr> detail_futures_id = None, detail_order_id = None,
         detail_login_session = None, detail_terminal_info = None \<rparr>,
       codec_QueryTransactionRecord = stub_codec \<lparr> records_futures_id = None, records_login_session = None,
         records_index = None, records_batch_num = None, records_terminal_info = None \<rparr>,
       codec_FuturesTrade = stub_codec (sample_trade sample_signature),
       codec_CancelPendingOrder = stub_codec sample_cancellation,
       codec_QueryHistoryOrders = stub_codec \<lparr> history_futures_id = None, history_login_session = None,
         history_start_index = None, history_batch_num = None, history_terminal_info = None \<rparr>,
       codec_SymbolTypeRecommend = stub_codec \<lparr> recommend_features_id = None, recommend_terminal_info = None \<rparr>,
       codec_SymbolListByType = stub_codec \<lparr> bytype_features_id = None, bytype_terminal_info = None \<rparr>,
       codec_QuerySymbolByName = stub_codec \<lparr> byname_key = None, byname_features_id = None,
         byname_terminal_info = None \<rparr>,
       codec_TradeConfirmInfo = stub_codec \<lparr> confirm_futures_id = None, confirm_session = None,
         confirm_trade_type = None, confirm_symbol = None, confirm_price = None, confirm_volume = None,
         confirm_terminal_info = None \<rparr>,
       codec_QuerySymbolTradeInfo = stub_codec \<lparr> tinfo_futures_id = None, tinfo_symbol = None,
         tinfo_session = None, tinfo_terminal_info = None \<rparr>,
       codec_QueryFifthOrder = stub_codec blank_fifth_order,
       codec_QuerySymbolQuotations = stub_codec \<lparr> quotations_futures_id = None, quotations_session = None,
         quotations_symbols = [], quotations_terminal_info = None \<rparr>,
       codec_FuturesGraph = stub_codec blank_graph, codec_FuturesKLine = stub_codec blank_graph \<rparr>"

end
