(* ===== verification/Test_Client.thy ===== *)
theory Test_Client imports Serving
begin

text \<open>
  The test clients of \<^verbatim>\<open>unittest/\<close>: the HTTP call over libcurl (\<^verbatim>\<open>common.cc\<close>),
  the functions that a macro makes from it, one per request (\<^verbatim>\<open>security_proxy_client.h\<close>,
  \<^verbatim>\<open>push_proxy_client.h\<close>), the question before a request is sent (\<^verbatim>\<open>config.cc\<close>)
  and the order of the trade test (\<^verbatim>\<open>api_test.cc\<close>). libcurl and protocol buffers are
  parameters. The theory \<open>Test_Api\<close> has the tests, and \<open>Client_Server\<close>
  runs a client against the model of the server.
\<close>

section \<open>Settings\<close>

text \<open>The flags of \<^verbatim>\<open>config.cc\<close>.\<close>

record test_flags =
  FLAGS_server_ip :: string
  FLAGS_server_port :: int
  FLAGS_check_contiune_run :: bool
  FLAGS_push_server_ip :: string
  FLAGS_push_server_port :: int
  FLAGS_uid :: int
  FLAGS_mt4_id :: int
  FLAGS_phone_number :: string
  FLAGS_password :: string
  FLAGS_futures_id :: string
  FLAGS_order_id :: int
  FLAGS_symbol :: string
  FLAGS_volume :: double
  FLAGS_price :: double
  FLAGS_tradeType :: int
  FLAGS_search_key :: string
  FLAGS_start_index :: int
  FLAGS_batch_num :: int

text \<open>Their defaults; the constants 10 and 9.2 are literals of the floating-point parameter.\<close>

definition default_test_flags :: "floating \<Rightarrow> test_flags" where
  "default_test_flags fp =
     \<lparr> FLAGS_server_ip = ''127.0.0.1'', FLAGS_server_port = 0, FLAGS_check_contiune_run = True,
       FLAGS_push_server_ip = ''127.0.0.1'', FLAGS_push_server_port = 0, FLAGS_uid = 0, FLAGS_mt4_id = 0,
       FLAGS_phone_number = '''', FLAGS_password = ''123456'', FLAGS_futures_id = ''000001'',
       FLAGS_order_id = 100001, FLAGS_symbol = ''100001'', FLAGS_volume = fp_literal fp 10 0,
       FLAGS_price = fp_literal fp 92 1, FLAGS_tradeType = 1, FLAGS_search_key = ''C'',
       FLAGS_start_index = 0, FLAGS_batch_num = 20 \<rparr>"

text \<open>
  \<^verbatim>\<open>ContinueRun\<close> asks until a line is \<^verbatim>\<open>Y\<close> or \<^verbatim>\<open>N\<close>. \<open>words\<close> is what
  \<^verbatim>\<open>std::cin\<close> still holds; at its end \<^verbatim>\<open>>>\<close> leaves the string as it is, and the loop
  goes on.
\<close>

partial_function (option) ask_again :: "string list \<Rightarrow> string \<Rightarrow> bool option" where
  "ask_again words confirm =
     (case words of
        [] \<Rightarrow> if confirm = ''N'' then Some False else if confirm = ''Y'' then Some True
              else ask_again [] confirm
      | confirm' # words' \<Rightarrow>
          if confirm' = ''N'' then Some False else if confirm' = ''Y'' then Some True
          else ask_again words' confirm')"

definition ContinueRun :: "test_flags \<Rightarrow> string list \<Rightarrow> bool option" where
  "ContinueRun fl words = (if \<not> FLAGS_check_contiune_run fl then Some True else ask_again words '''')"

section \<open>The HTTP call\<close>

text \<open>
  libcurl as the clients use it: \<open>poster_init\<close> says whether a handle was made (the functions refuse
  a null handle with an error), and \<open>perform_post\<close> gets the URL, the header lines, the time-out and
  the body that were set, and gives the blocks it handed to the write callback and the result code.
\<close>

record 'w http_poster =
  poster_init :: "'w \<Rightarrow> bool \<times> 'w"
  perform_post :: "string \<Rightarrow> string list \<Rightarrow> int \<Rightarrow> string \<Rightarrow> 'w \<Rightarrow> (string list \<times> int) \<times> 'w"
  post_OK :: int

definition WriteData :: "string \<Rightarrow> nat \<Rightarrow> nat \<Rightarrow> string \<Rightarrow> string \<times> nat" where
  "WriteData ptr sz nmemb userp = (let realsize = sz * nmemb in (userp @ take realsize ptr, realsize))"

definition http_url :: "string \<Rightarrow> int \<Rightarrow> string \<Rightarrow> string" where
  "http_url server_ip server_port func_name =
     server_ip @ '':'' @ decimal_int server_port @ ''/'' @ func_name"

definition http_lines :: "string \<Rightarrow> int \<Rightarrow> string \<Rightarrow> string \<Rightarrow> string list" where
  "http_lines server_ip server_port func_name http_req_body =
     [''Host: '' @ server_ip @ '':'' @ decimal_int server_port,
      ''Content-Length: '' @ decimal (length http_req_body),
      ''User-cmd: '' @ func_name,
      ''Accept:'',
      ''Content-Type:'']"

definition HttpGet ::
  "'w http_poster \<Rightarrow> string \<Rightarrow> int \<Rightarrow> int \<Rightarrow> string \<Rightarrow> string \<Rightarrow> string \<Rightarrow> 'w \<Rightarrow> bool \<times> string \<times> 'w" where
  "HttpGet cu server_ip server_port timeout_s func_name http_req_body http_resp_body w =
     (case poster_init cu w of (made, w1) \<Rightarrow>
        if \<not> made then (False, http_resp_body, w1)
        else
          (case perform_post cu (cstr (http_url server_ip server_port func_name))
                  (map cstr (http_lines server_ip server_port func_name http_req_body))
                  timeout_s http_req_body w1 of ((blocks, result), w2) \<Rightarrow>
             (result = post_OK cu,
              fold (\<lambda>data out. fst (WriteData data 1 (length data) out)) blocks http_resp_body,
              w2)))"

section \<open>The functions of the clients\<close>

text \<open>
  The encoding of a request and the decoding of its response; the latter says whether it succeeded
  and what the response object holds then.
\<close>

record ('q, 'r) client_codec =
  serialize_request :: "'q \<Rightarrow> string"
  parse_response :: "string \<Rightarrow> bool \<times> 'r"

text \<open>\<^verbatim>\<open>DefineHttpFunc(func_name, ...)\<close>: one request, with ten seconds for it.\<close>

definition DefineHttpFunc ::
  "'w http_poster \<Rightarrow> string \<Rightarrow> int \<Rightarrow> string \<Rightarrow> ('q, 'r) client_codec \<Rightarrow> 'q \<Rightarrow> 'r \<Rightarrow> 'w \<Rightarrow> bool \<times> 'r \<times> 'w" where
  "DefineHttpFunc cu ip port func_name codec req resp w =
     (case HttpGet cu ip port 10 func_name (serialize_request codec req) '''' w of (got, resp_str, w1) \<Rightarrow>
        if \<not> got then (False, resp, w1)
        else
          (case parse_response codec resp_str of (parsed, resp1) \<Rightarrow>
             if \<not> parsed then (False, resp1, w1) else (True, resp1, w1)))"

text \<open>The requests of \<^verbatim>\<open>SecurityProxyClient\<close>; each is named after the function of the server.\<close>

record client_codecs =
  cc_QueryMyFuturesAssets :: "(QueryMyFuturesAssetsRequest, QueryMyFuturesAssetsReturn) client_codec"
  cc_FuturesTrade :: "(FuturesTradeRequest, FuturesTradeReturn) client_codec"
  cc_QueryUserStatus :: "(QueryUserStatusRequest, QueryUserStatusReturn) client_codec"
  cc_QueryPendingOrders :: "(QueryPendingOrdersRequest, QueryPendingOrdersReturn) client_codec"
  cc_QueryHoldingOrders :: "(QueryHoldingOrdersRequest, QueryHoldingOrdersReturn) client_codec"
  cc_QueryHistoryOrders :: "(QueryHistoryOrderRequest, QueryHistoryOrderReturn) client_codec"
  cc_QueryOrderDetail :: "(QueryOrderDetailRequest, QueryOrderDetailReturn) client_codec"
  cc_QueryTransactionRecord :: "(QueryTransactionRecordRequest, QueryTransactionRecordReturn) client_codec"
  cc_QueryFuturesAccountConfig :: "(QueryFuturesAcconutConfigRequest, QueryFuturesAccountConfigReturn) client_codec"
  cc_CancelPendingOrder :: "(CancelPendingOrderRequest, FututesCancelPendingOrderReturn) client_codec"
  cc_QuerySymbolByName :: "(QuerySymbolByNameRequest, QuerySymbolByNameReturn) client_codec"
  cc_TradeConfirmInfo :: "(TradeConfirmInfoRequest, TradeConfirmInfoReturn) client_codec"
  cc_QuerySymbolTradeInfo :: "(QuerySymbolTradeInfoRequest, QuerySymbolTradeInfoReturn) client_codec"
  cc_QueryFifthOrder :: "(QueryFifthOrderRequest, QueryFifthOrderReturn) client_codec"

definition proxy_call ::
  "'w http_poster \<Rightarrow> test_flags \<Rightarrow> string \<Rightarrow> ('q, 'r) client_codec \<Rightarrow> 'q \<Rightarrow> 'r \<Rightarrow> 'w \<Rightarrow> bool \<times> 'r \<times> 'w" where
  "proxy_call cu fl = DefineHttpFunc cu (FLAGS_server_ip fl) (FLAGS_server_port fl)"

definition client_QueryMyFuturesAssets where
  "client_QueryMyFuturesAssets cu fl cc = proxy_call cu fl ''QueryMyFuturesAssets'' (cc_QueryMyFuturesAssets cc)"

definition client_FuturesTrade where
  "client_FuturesTrade cu fl cc = proxy_call cu fl ''FuturesTrade'' (cc_FuturesTrade cc)"

definition client_QueryUserStatus where
  "client_QueryUserStatus cu fl cc = proxy_call cu fl ''QueryUserStatus'' (cc_QueryUserStatus cc)"

definition client_QueryPendingOrders where
  "client_QueryPendingOrders cu fl cc = proxy_call cu fl ''QueryPendingOrders'' (cc_QueryPendingOrders cc)"

definition client_QueryHoldingOrders where
  "client_QueryHoldingOrders cu fl cc = proxy_call cu fl ''QueryHoldingOrders'' (cc_QueryHoldingOrders cc)"

definition client_QueryHistoryOrders where
  "client_QueryHistoryOrders cu fl cc = proxy_call cu fl ''QueryHistoryOrders'' (cc_QueryHistoryOrders cc)"

definition client_QueryOrderDetail where
  "client_QueryOrderDetail cu fl cc = proxy_call cu fl ''QueryOrderDetail'' (cc_QueryOrderDetail cc)"

definition client_QueryTransactionRecord where
  "client_QueryTransactionRecord cu fl cc = proxy_call cu fl ''QueryTransactionRecord'' (cc_QueryTransactionRecord cc)"

definition client_QueryFuturesAccountConfig where
  "client_QueryFuturesAccountConfig cu fl cc =
     proxy_call cu fl ''QueryFuturesAccountConfig'' (cc_QueryFuturesAccountConfig cc)"

definition client_CancelPendingOrder where
  "client_CancelPendingOrder cu fl cc = proxy_call cu fl ''CancelPendingOrder'' (cc_CancelPendingOrder cc)"

definition client_QuerySymbolByName where
  "client_QuerySymbolByName cu fl cc = proxy_call cu fl ''QuerySymbolByName'' (cc_QuerySymbolByName cc)"

definition client_TradeConfirmInfo where
  "client_TradeConfirmInfo cu fl cc = proxy_call cu fl ''TradeConfirmInfo'' (cc_TradeConfirmInfo cc)"

definition client_QuerySymbolTradeInfo where
  "client_QuerySymbolTradeInfo cu fl cc = proxy_call cu fl ''QuerySymbolTradeInfo'' (cc_QuerySymbolTradeInfo cc)"

definition client_QueryFifthOrder where
  "client_QueryFifthOrder cu fl cc = proxy_call cu fl ''QueryFifthOrder'' (cc_QueryFifthOrder cc)"

text \<open>The one request of \<^verbatim>\<open>PushProxyClient\<close>, to another server.\<close>

definition client_Login where
  "client_Login cu fl codec = DefineHttpFunc cu (FLAGS_push_server_ip fl) (FLAGS_push_server_port fl) ''Login'' codec"

section \<open>The order of the trade test\<close>

text \<open>What every request of the tests tells about the device.\<close>

definition FillTerminalInfo :: "TerminalInfo \<Rightarrow> TerminalInfo" where
  "FillTerminalInfo terminal_info =
     terminal_info\<lparr>ti_version := Some 4321, ti_device_type := Some IOS, ti_lang := Some ''ch'',
       ti_app_type := Some (app_number Security), ti_debug := Some True\<rparr>"

definition blank_terminal :: TerminalInfo where
  "blank_terminal = \<lparr> ti_market_palace = None, ti_version = None, ti_device_type = None,
     ti_device_key = None, ti_lang = None, ti_app_type = None, ti_sys_version = None, ti_idfa = None,
     ti_refid = None, ti_activity_refid = None, ti_beta_version = None, ti_network_type = None,
     ti_version_code = None, ti_mobile_phone_type = None, ti_debug = None, ti_patch_version = None \<rparr>"

text \<open>
  The request that the test \<^verbatim>\<open>FuturesTrade_API\<close> builds, with the session the login gave it.
\<close>

definition FuturesTrade_API_request :: "floating \<Rightarrow> test_flags \<Rightarrow> LoginSession \<Rightarrow> FuturesTradeRequest" where
  "FuturesTrade_API_request fp fl login_session =
     \<lparr> trade_futures_id = Some (FLAGS_futures_id fl), trade_symbol = Some (FLAGS_symbol fl),
       trade_volume = Some (fp_to_string fp (FLAGS_volume fl)), trade_type = Some (FLAGS_tradeType fl),
       trade_price = Some (fp_to_string fp (FLAGS_price fl)), trade_signature = None,
       trade_session = Some login_session, trade_OrderOptions = None, trade_CondType = None,
       trade_OrderType = None, trade_ValidType = None, trade_price_digits = None,
       trade_terminal_info = Some (FillTerminalInfo blank_terminal) \<rparr>"

section \<open>Asking to continue\<close>

lemma ask_again_Cons [simp]:
  "ask_again (w # ws) c =
     (if w = ''N'' then Some False else if w = ''Y'' then Some True else ask_again ws w)"
  by (subst ask_again.simps) simp

text \<open>At the end of the input the loop ends only if it already has an answer.\<close>

lemma ask_again_Nil:
  assumes "c \<noteq> ''N''" and "c \<noteq> ''Y''"
  shows "ask_again [] c = None"
proof -
  have "ws = [] \<longrightarrow> c = ''N'' \<or> c = ''Y''" if "ask_again ws c = Some b" for ws c b
    by (rule ask_again.raw_induct [where P = "\<lambda>ws c b. ws = [] \<longrightarrow> c = ''N'' \<or> c = ''Y''", OF _ that])
      (fastforce split: list.splits if_splits)
  then show ?thesis using assms by (cases "ask_again [] c") auto
qed

lemma ask_again_find:
  assumes "c \<noteq> ''N''" and "c \<noteq> ''Y''"
  shows "ask_again ws c = map_option (\<lambda>w. w = ''Y'') (find (\<lambda>w. w = ''N'' \<or> w = ''Y'') ws)"
  using assms by (induction ws arbitrary: c) (auto simp: ask_again_Nil)

text \<open>
  The question is answered by the first \<^verbatim>\<open>Y\<close> or \<^verbatim>\<open>N\<close> of the input, and when the input
  holds neither the loop runs for ever.
\<close>

lemma ContinueRun_result:
  "ContinueRun fl words =
     (if FLAGS_check_contiune_run fl
      then map_option (\<lambda>w. w = ''Y'') (find (\<lambda>w. w = ''N'' \<or> w = ''Y'') words)
      else Some True)"
  by (simp add: ContinueRun_def ask_again_find)

section \<open>The trade test is refused\<close>

text \<open>The server refuses the order of the trade test, which is not signed, and does nothing else.\<close>

lemma unsigned_order_refused:
  assumes "length (md5_buffer (stack_memory env)) = 64"
    and "length (signed_text (FuturesTrade_API_request fp fl session)) + 63 < 2 ^ 32"
    and "\<And>s. s \<noteq> [] \<Longrightarrow> AESEncrypt (env_cryptopp env) s \<noteq> []"
  shows "FuturesTrade env (FuturesTrade_API_request fp fl session) resp st =
    Some (resp\<lparr>only_status_info := Some \<lparr> status_no = 30006, status_message = ''VALIDATE ERROR'' \<rparr>\<rparr>, st)"
proof -
  let ?req = "FuturesTrade_API_request fp fl session"
  have "bytesToHexString (ref_digest (bytes_of (signed_text ?req))) \<noteq> []"
    by (simp flip: length_0_conv)
  then have "expected_signature env ?req \<noteq> Some (str_field (trade_signature ?req))"
    using expected_signature_eq[OF assms(1,2)] assms(3) by (simp add: FuturesTrade_API_request_def)
  then show ?thesis
    using expected_signature_eq[OF assms(1,2)]
    by (simp add: FuturesTrade_def FuturesTrade_API_request_def)
qed

end
