(* ===== verification/Client_Server.thy ===== *)
theory Client_Server imports Test_Client
begin

text \<open>
  The test clients of \<^verbatim>\<open>unittest/\<close> against the server: the request that libcurl writes for
  a call is one the parser reads, the function of the same name runs on the message the client
  encoded, and what the client decodes is what the function gave.
\<close>

section \<open>What libcurl writes\<close>

text \<open>
  The documentation of \<^verbatim>\<open>CURLOPT_HTTPHEADER\<close>: a line \<open>Name: text\<close> replaces or adds a header,
  and a line that ends with its colon removes a header that libcurl would add. The five lines of a
  call leave three headers.
\<close>

definition curl_message :: "string \<Rightarrow> string list \<Rightarrow> string \<Rightarrow> string" where
  "curl_message func lines body =
     ''POST /'' @ func @ '' HTTP/1.1'' @ crlf @
     concat (map (\<lambda>l. l @ crlf) (filter (\<lambda>l. last l \<noteq> CHR '':'') lines)) @ crlf @ body"

text \<open>
  What is asked of libcurl and the network for one call: a handle is made, and when the server that
  reads the message of the call answers it with status 200, the transfer succeeds, hands the content
  of the answer to the write callback, in any blocks, and leaves the server as it is after the call.
\<close>

definition curl_delivers ::
  "boost \<Rightarrow> 'w handler \<Rightarrow> int \<Rightarrow> conn_id \<Rightarrow> 'w server \<Rightarrow> 'w server http_poster \<Rightarrow>
   string \<Rightarrow> int \<Rightarrow> string \<Rightarrow> string \<Rightarrow> bool" where
  "curl_delivers B H now c s cu ip port func body \<longleftrightarrow> poster_init cu s = (True, s) \<and>
     (let lines = map cstr (http_lines ip port func body) in
      \<forall>s' bytes hs content.
        HandleRead B H now c (curl_message func lines body) (finish_op (Op_read c) s) = Some s' \<longrightarrow>
        Op_write c bytes \<in># pending s' \<longrightarrow>
        read_reply bytes = Some (''HTTP/1.0 200 OK'', hs, content) \<longrightarrow>
        (\<exists>blocks. perform_post cu (http_url ip port func) lines 10 body s = ((blocks, post_OK cu), s') \<and>
           concat blocks = content))"

definition client_headers :: "string \<Rightarrow> int \<Rightarrow> string \<Rightarrow> string \<Rightarrow> header list" where
  "client_headers ip port func body =
     [\<lparr>h_name = ''Host'', h_value = ip @ '':'' @ decimal_int port\<rparr>,
      \<lparr>h_name = ''Content-Length'', h_value = decimal (length body)\<rparr>,
      \<lparr>h_name = ''User-cmd'', h_value = func\<rparr>]"

section \<open>The request is well formed\<close>

definition is_letter :: "char \<Rightarrow> bool" where
  "is_letter c \<longleftrightarrow> 65 \<le> (of_char c :: nat) \<and> (of_char c :: nat) \<le> 90 \<or>
     97 \<le> (of_char c :: nat) \<and> (of_char c :: nat) \<le> 122"

definition letters :: "string \<Rightarrow> bool" where
  "letters s \<longleftrightarrow> s \<noteq> [] \<and> list_all is_letter s"

definition host_ok :: "string \<Rightarrow> bool" where
  "host_ok ip \<longleftrightarrow> unpadded ip \<and> set ip \<inter> {CR, LF, NUL} = {}"

lemma letter_not_special:
  "is_letter c \<Longrightarrow> c \<notin> {SP, TAB, CR, LF, NUL, CHR ''/'', CHR ''?'', CHR '':'', CHR ''%'', CHR ''+''} \<and> \<not> is_space c"
  by (auto simp: is_letter_def is_space_def)

lemma letters_plain:
  assumes "letters s"
  shows "set s \<inter> {SP, TAB, CR, LF, NUL, CHR ''/'', CHR ''?'', CHR '':'', CHR ''%'', CHR ''+''} = {}" "s \<noteq> []" "unpadded s"
proof -
  have all: "is_letter c" if "c \<in> set s" for c using that assms by (simp add: letters_def list_all_iff)
  then show "set s \<inter> {SP, TAB, CR, LF, NUL, CHR ''/'', CHR ''?'', CHR '':'', CHR ''%'', CHR ''+''} = {}"
    using letter_not_special by blast
  show "s \<noteq> []" using assms by (simp add: letters_def)
  then show "unpadded s"
    using letter_not_special all by (simp add: unpadded_def)
qed

lemma UrlDecode_plain:
  assumes "set s \<inter> {CHR ''%'', CHR ''+''} = {}"
  shows "UrlDecode s = Some s"
  using assms by (induction s) auto

lemma decimal_int_plain:
  "set (decimal_int i) \<inter> {CR, LF, NUL, CHR ''/''} = {}" "decimal_int i \<noteq> []"
  "\<not> is_space (last (decimal_int i))" "last (decimal_int i) \<noteq> CHR '':''"
proof -
  have digits: "c \<in> set (decimal n) \<Longrightarrow> c \<notin> {CR, LF, NUL, CHR ''/'', CHR '':''} \<and> \<not> is_space c" for c n
    using decimal_digits[of c n] by (auto simp: is_decimal_def is_space_def)
  show "decimal_int i \<noteq> []" by (simp add: decimal_int_def)
  show "set (decimal_int i) \<inter> {CR, LF, NUL, CHR ''/''} = {}"
    using digits by (auto simp: decimal_int_def split: if_splits)
  show "\<not> is_space (last (decimal_int i))" "last (decimal_int i) \<noteq> CHR '':''"
    using digits[OF last_in_set[OF decimal_not_Nil]] by (auto simp: decimal_int_def)
qed

lemma decimal_plain: "set (decimal n) \<inter> {CR, LF, NUL} = {}" "unpadded (decimal n)" "last (decimal n) \<noteq> CHR '':''"
proof -
  have digits: "c \<in> set (decimal n) \<Longrightarrow> c \<notin> {CR, LF, NUL, CHR '':''} \<and> \<not> is_space c" for c
    using decimal_digits[of c n] by (auto simp: is_decimal_def is_space_def)
  then show "set (decimal n) \<inter> {CR, LF, NUL} = {}" by blast
  show "unpadded (decimal n)" "last (decimal n) \<noteq> CHR '':''"
    using digits[OF last_in_set[OF decimal_not_Nil]] digits[OF hd_in_set[OF decimal_not_Nil]]
    by (simp_all add: unpadded_def)
qed

lemma client_headers_ok:
  assumes "host_ok ip" and "letters func"
  shows "\<forall>h \<in> set (client_headers ip port func body). header_ok h"
proof -
  have "unpadded (ip @ '':'' @ decimal_int port)"
    using assms(1) decimal_int_plain(2,3)[of port] by (cases ip) (auto simp: host_ok_def unpadded_def is_space_def)
  moreover have "unpadded ''Host''" "unpadded ''Content-Length''" "unpadded ''User-cmd''"
    by (simp_all add: unpadded_def is_space_def)
  ultimately show ?thesis
    using assms(1) letters_plain[OF assms(2)] decimal_int_plain(1)[of port] decimal_plain[of "length body"]
    by (auto simp: client_headers_def header_ok_def host_ok_def)
qed

lemma client_headers_declare:
  assumes "length body < 2 ^ 64"
  shows "declares_length (client_headers ip port func body) (length body)"
proof -
  have "headers_equal ''Content-Length'' content_length_name" "\<not> headers_equal ''Host'' content_length_name"
    "\<not> headers_equal ''User-cmd'' content_length_name"
    by code_simp+
  then show ?thesis using assms by (simp add: declares_length_def client_headers_def)
qed

lemma curl_message_call:
  assumes "host_ok ip" and "letters func"
  shows "curl_message func (map cstr (http_lines ip port func body)) body =
    request_head func (client_headers ip port func body) @ body"
proof -
  have no_nul: "NUL \<notin> set ip" "NUL \<notin> set (decimal_int port)" "NUL \<notin> set func" "NUL \<notin> set (decimal (length body))"
    using assms(1) decimal_int_plain(1)[of port] letters_plain(1)[OF assms(2)] decimal_plain(1)[of "length body"]
    by (auto simp: host_ok_def)
  have "last func \<in> set func" using letters_plain(2)[OF assms(2)] by simp
  then have "last func \<noteq> CHR '':''" using letters_plain(1)[OF assms(2)] by blast
  then show ?thesis
    using no_nul letters_plain(2)[OF assms(2)] decimal_int_plain(2,4)[of port] decimal_plain(3)[of "length body"]
    by (simp add: curl_message_def http_lines_def request_head_def client_headers_def header_line_def
        name_value_separator_def)
qed

section \<open>A call is served\<close>

lemma WriteData_blocks:
  "fold (\<lambda>data out. fst (WriteData data 1 (length data) out)) blocks out = out @ concat blocks"
  by (induction blocks arbitrary: out) (simp_all add: WriteData_def Let_def)

lemma cstr_http_url:
  assumes "host_ok ip" and "letters func"
  shows "cstr (http_url ip port func) = http_url ip port func"
  using assms(1) letters_plain(1)[OF assms(2)] decimal_int_plain(1)[of port]
  by (simp add: http_url_def host_ok_def)

lemma registered_letters: "map_of (handle_table env cs) name = Some f \<Longrightarrow> letters name"
  by (auto simp: handle_table_def letters_def is_letter_def split: if_splits)

lemma call_answered:
  fixes env :: "('w, 'j) environment"
  assumes "reachable B (new_RequestHandler env cs doc_root) s" and "Op_read c \<in># pending s"
    and "conns s c = Some k" and "pc (m_request_parser k) = P_start" and "boost_ok B"
    and "map_of (handle_table env cs) name = Some (ADD_HANDLE codec fun_name)"
    and "world s = Some st" and "fun_name (parse_message codec body) st = Some (resp, st')"
    and "length (serialize_message codec resp) < 2 ^ 64" and "host_ok ip"
    and "length (curl_message name (map cstr (http_lines ip port name body)) body) \<le> s_http_recv_buf"
  shows "\<exists>s' bytes. HandleRead B (new_RequestHandler env cs doc_root) now c
      (curl_message name (map cstr (http_lines ip port name body)) body) (finish_op (Op_read c) s) = Some s' \<and>
    Op_write c bytes \<in># pending s' \<and> world s' = Some st' \<and>
    read_reply bytes = Some (''HTTP/1.0 200 OK'', [length_header (length (serialize_message codec resp)),
      type_header ''text/plain''], serialize_message codec resp)"
proof -
  define hs where "hs = client_headers ip port name body"
  let ?H = "new_RequestHandler env cs doc_root"
  have name: "letters name" using assms(6) by (rule registered_letters)
  note plain = letters_plain[OF name]
  have msg: "curl_message name (map cstr (http_lines ip port name body)) body = request_head name hs @ body"
    unfolding hs_def using assms(10) name by (rule curl_message_call)
  then have small: "length (request_head name hs @ body) \<le> s_http_recv_buf"
    using assms(11) by (simp only:)
  then have "length body < 2 ^ 64" by (simp add: s_http_recv_buf_def)
  then have len: "declares_length hs (length body)" unfolding hs_def by (rule client_headers_declare)
  have target: "target_ok name" using plain by (auto simp: target_ok_def)
  have path: "UrlDecode name = Some name" using plain(1) by (intro UrlDecode_plain) blast
  have "name \<noteq> [] \<and> hd name \<noteq> CHR ''/''" using plain(1,2) by (cases name) auto
  then have "unslashed name = name" by (auto simp: unslashed_def split: list.split)
  then have found: "m_handle_map ?H name = Some (ADD_HANDLE codec fun_name)"
    using assms(6) by (simp add: RequestHandler_lookup)
  have no_echo: "name \<notin> {''echo'', ''/echo''}"
    using assms(6) by (auto simp: handle_table_def split: if_splits)
  have run: "ADD_HANDLE codec fun_name body (world s) = (serialize_message codec resp, Some st')"
    using assms(7,8) by (simp add: ADD_HANDLE_def)
  have ok: "\<forall>h \<in> set hs. header_ok h" unfolding hs_def using assms(10) name by (rule client_headers_ok)
  show ?thesis
    using serve_request[OF assms(1-5) target ok len small path found no_echo run assms(9)]
    unfolding msg by blast
qed

text \<open>What \<^verbatim>\<open>HttpGet\<close> gives for a message that the function of that name answers.\<close>

lemma HttpGet_answered:
  fixes env :: "('w, 'j) environment"
  assumes "reachable B (new_RequestHandler env cs doc_root) s" and "Op_read c \<in># pending s"
    and "conns s c = Some k" and "pc (m_request_parser k) = P_start" and "boost_ok B"
    and "map_of (handle_table env cs) name = Some (ADD_HANDLE codec fun_name)"
    and "world s = Some st" and "fun_name (parse_message codec body) st = Some (resp, st')"
    and "length (serialize_message codec resp) < 2 ^ 64" and "host_ok ip"
    and "length (curl_message name (map cstr (http_lines ip port name body)) body) \<le> s_http_recv_buf"
    and "curl_delivers B (new_RequestHandler env cs doc_root) now c s cu ip port name body"
  shows "\<exists>s'. HttpGet cu ip port 10 name body '''' s = (True, serialize_message codec resp, s') \<and> world s' = Some st'"
proof -
  define lines where "lines = map cstr (http_lines ip port name body)"
  have name: "letters name" using assms(6) by (rule registered_letters)
  obtain s' bytes where served: "HandleRead B (new_RequestHandler env cs doc_root) now c (curl_message name lines body)
        (finish_op (Op_read c) s) = Some s'"
      "Op_write c bytes \<in># pending s'" "world s' = Some st'"
      "read_reply bytes = Some (''HTTP/1.0 200 OK'', [length_header (length (serialize_message codec resp)),
        type_header ''text/plain''], serialize_message codec resp)"
    using call_answered[OF assms(1-11), of now] unfolding lines_def by auto
  have url: "cstr (http_url ip port name) = http_url ip port name" using assms(10) name by (rule cstr_http_url)
  have init: "poster_init cu s = (True, s)" using assms(12) by (simp add: curl_delivers_def)
  obtain blocks where post: "perform_post cu (http_url ip port name) lines 10 body s = ((blocks, post_OK cu), s')"
      "concat blocks = serialize_message codec resp"
    using assms(12) served(1,2,4)
    unfolding curl_delivers_def Let_def lines_def[symmetric] by blast
  have "HttpGet cu ip port 10 name body '''' s = (True, serialize_message codec resp, s')"
    using init post by (simp add: HttpGet_def WriteData_blocks[simplified] lines_def[symmetric] url)
  then show ?thesis using served(3) by blast
qed


section \<open>A server to call\<close>

text \<open>A transfer to the sample server, which answers every message with the same text.\<close>

definition sample_poster :: "codecs \<Rightarrow> string \<Rightarrow> (nat + nat) list proxy_state option server http_poster" where
  "sample_poster cs func = \<lparr> poster_init = Pair True,
     perform_post = (\<lambda>url lines t body s.
       case HandleRead plain_boost (new_RequestHandler sample_env cs ''.'') 9 1
           (curl_message func lines body) (finish_op (Op_read 1) s) of
         None \<Rightarrow> (([], 7), s)
       | Some s' \<Rightarrow> (([''ans'', ''wer''], 0), s')),
     post_OK = 0 \<rparr>"

lemma one_answer:
  assumes "reachable B H s" and "Op_write c b \<in># pending s" and "Op_write c b' \<in># pending s"
  shows "b' = b"
proof (rule ccontr)
  assume "b' \<noteq> b"
  then have "Op_write c b' \<in># pending (finish_op (Op_write c b) s)"
    using assms(3) by (simp add: finish_op_def in_diff_count)
  then show False
    using io_unique[OF server_invD(4)[OF reachable_inv[OF assms(1)], of c] assms(2)] by fastforce
qed

lemma sample_waiting:
  "Op_read 1 \<in># pending (accepted_with (Some sample_state))"
  "conns (accepted_with (Some sample_state)) 1 = Some (new_Connection sample_memory 0)"
  "world (accepted_with (Some sample_state)) = Some sample_state"
  "host_ok ''127.0.0.1''"
  by (simp_all only: accepted_with_state) (simp_all add: host_ok_def unpadded_def is_space_def)

lemma sample_message_fits:
  assumes "letters func" and "length func \<le> 30"
  shows "length (curl_message func (map cstr (http_lines ''127.0.0.1'' 8877 func ''xyz'')) ''xyz'') \<le> s_http_recv_buf"
  unfolding curl_message_call[OF sample_waiting(4) assms(1)]
  using assms(2)
  by (simp add: request_head_def client_headers_def header_line_def crlf_def name_value_separator_def
      decimal_int_def decimal.simps s_http_recv_buf_def)

lemma sample_delivers:
  assumes "map_of (handle_table sample_env cs) func = Some (ADD_HANDLE codec fun_name)"
    and "fun_name (parse_message codec ''xyz'') sample_state = Some (resp, st')"
    and "serialize_message codec resp = ''answer''" and "length func \<le> 30"
  shows "curl_delivers plain_boost (new_RequestHandler sample_env cs ''.'') 9 1
     (accepted_with (Some sample_state)) (sample_poster cs func) ''127.0.0.1'' 8877 func ''xyz''"
proof -
  let ?H = "new_RequestHandler sample_env cs ''.''" and ?s = "accepted_with (Some sample_state)"
  let ?msg = "curl_message func (map cstr (http_lines ''127.0.0.1'' 8877 func ''xyz'')) ''xyz''"
  have fits: "length ?msg \<le> s_http_recv_buf"
    using sample_message_fits[OF registered_letters[OF assms(1)] assms(4)] .
  have short: "length (serialize_message codec resp) < 2 ^ 64" by (simp add: assms(3))
  obtain s1 b1 where first: "HandleRead plain_boost ?H 9 1 ?msg (finish_op (Op_read 1) ?s) = Some s1"
      "Op_write 1 b1 \<in># pending s1"
      "read_reply b1 = Some (''HTTP/1.0 200 OK'', [length_header (length ''answer''), type_header ''text/plain''], ''answer'')"
    using call_answered[OF accepted_with_reachable sample_waiting(1,2) sample_accepted_first(2) plain_boost_ok
        assms(1) sample_waiting(3) assms(2) short sample_waiting(4) fits, where now = 9 and doc_root = "''.''"]
    unfolding assms(3) by blast
  have "?msg \<noteq> []" by (simp add: curl_message_def)
  then have "step plain_boost ?H ?s s1"
    using first(1) sample_waiting(1) fits by (intro step.read_done[of 1])
  then have "reachable plain_boost ?H s1" by (rule reachable.step[OF accepted_with_reachable])
  then have "bytes = b1" if "Op_write 1 bytes \<in># pending s1" for bytes
    using one_answer first(2) that by blast
  then show ?thesis
    using first(1,3) by (auto simp: curl_delivers_def sample_poster_def)
qed

definition fifth_order_codec :: "(QueryFifthOrderRequest, QueryFifthOrderReturn) client_codec" where
  "fifth_order_codec = \<lparr> serialize_request = (\<lambda>q. ''xyz''),
     parse_response = (\<lambda>s. (True, \<lparr> only_status_info = Some \<lparr> status_no = 1, status_message = ''SUCCESS'' \<rparr> \<rparr>)) \<rparr>"


end
