(* ===== verification/Test_Api.thy ===== *)
theory Test_Api imports Client_Server
begin

text \<open>
  The tests of \<^verbatim>\<open>unittest/api_test.cc\<close>: each logs in at the push server, fills a request,
  asks whether to go on, and sends the request to the server under test. What a test gives is None
  when the question is never answered, and else whether the call succeeded with what the response
  holds then, or nothing when the answer was no. The last section runs the trade test against the
  model of the server.
\<close>

section \<open>Logging in\<close>

text \<open>The fields that the tests set of a login, and the one they read of its answer.\<close>

record LoginInfoProto =
  li_mt4_id :: "int option"
  li_md5_pass :: "string option"
  li_session_expire :: "int option"
  li_need_detail :: "bool option"
  li_phonenumber_countrycode :: "string option"
  li_phonenumber :: "string option"
  li_login_way :: "int option"
  li_version :: "int option"

record LoginReturn =
  login_session :: "LoginSession option"

text \<open>What a test runs with: libcurl, the flags, the codecs, and the words on the standard input.\<close>

record 'w test_setup =
  ts_poster :: "'w http_poster"
  ts_flags :: test_flags
  ts_floating :: floating
  ts_cryptopp :: cryptopp
  ts_codecs :: client_codecs
  ts_login :: "(LoginInfoProto, LoginReturn) client_codec"
  ts_input :: "string list"

definition APITest_AESEncrypt :: "cryptopp \<Rightarrow> string \<Rightarrow> string \<Rightarrow> string \<Rightarrow> string" where
  "APITest_AESEncrypt cr str_in key iv = base64 cr (aes_cfb cr key iv str_in)"

definition default_key :: string where
  "default_key = ''FormaxmarketInternetBusinessDept''"

definition default_iv :: string where
  "default_iv = ''0123456789123456''"

definition login_info :: "'w test_setup \<Rightarrow> LoginInfoProto" where
  "login_info ts =
     \<lparr> li_mt4_id = Some 0,
       li_md5_pass = Some (APITest_AESEncrypt (ts_cryptopp ts) (FLAGS_password (ts_flags ts)) default_key default_iv),
       li_session_expire = Some 3000, li_need_detail = Some True,
       li_phonenumber_countrycode = Some ''+86'', li_phonenumber = Some (FLAGS_phone_number (ts_flags ts)),
       li_login_way = Some 2, li_version = Some 131072 \<rparr>"

definition blank_session :: LoginSession where
  "blank_session = \<lparr> session_str = None, uid = None \<rparr>"

text \<open>
  The user number set first is lost: the session of the login's answer is copied over it, and the
  result of the login is not looked at.
\<close>

definition FillLoginSession :: "'w test_setup \<Rightarrow> LoginSession \<Rightarrow> 'w \<Rightarrow> LoginSession \<times> 'w" where
  "FillLoginSession ts session w =
     (let session1 = session\<lparr>uid := Some (FLAGS_uid (ts_flags ts))\<rparr> in
      case client_Login (ts_poster ts) (ts_flags ts) (ts_login ts) (login_info ts) \<lparr> login_session = None \<rparr> w of
        (ok, m_login_resp, w1) \<Rightarrow>
          ((case login_session m_login_resp of None \<Rightarrow> blank_session | Some s \<Rightarrow> s), w1))"

section \<open>The tests\<close>

text \<open>The end of every test: the question, and the call.\<close>

definition send_test ::
  "'w test_setup \<Rightarrow> ('w http_poster \<Rightarrow> test_flags \<Rightarrow> client_codecs \<Rightarrow> 'q \<Rightarrow> 'r \<Rightarrow> 'w \<Rightarrow> bool \<times> 'r \<times> 'w) \<Rightarrow>
   'q \<Rightarrow> 'r \<Rightarrow> 'w \<Rightarrow> ((bool \<times> 'r) option \<times> 'w) option" where
  "send_test ts call req resp w =
     (case ContinueRun (ts_flags ts) (ts_input ts) of
        None \<Rightarrow> None
      | Some False \<Rightarrow> Some (None, w)
      | Some True \<Rightarrow>
          (case call (ts_poster ts) (ts_flags ts) (ts_codecs ts) req resp w of
             (ok, resp', w1) \<Rightarrow> Some (Some (ok, resp'), w1)))"

abbreviation terminal :: "TerminalInfo option" where
  "terminal \<equiv> Some (FillTerminalInfo blank_terminal)"

definition QueryMyFuturesAssets_API ::
  "'w test_setup \<Rightarrow> 'w \<Rightarrow> ((bool \<times> QueryMyFuturesAssetsReturn) option \<times> 'w) option" where
  "QueryMyFuturesAssets_API ts w =
     (case FillLoginSession ts blank_session w of (session, w1) \<Rightarrow>
        send_test ts client_QueryMyFuturesAssets
          \<lparr> assets_futures_id = Some (FLAGS_futures_id (ts_flags ts)), assets_login_session = Some session,
            assets_terminal_info = terminal \<rparr> new_assets_return w1)"

definition FuturesTrade_API :: "'w test_setup \<Rightarrow> 'w \<Rightarrow> ((bool \<times> FuturesTradeReturn) option \<times> 'w) option" where
  "FuturesTrade_API ts w =
     (case FillLoginSession ts blank_session w of (session, w1) \<Rightarrow>
        send_test ts client_FuturesTrade (FuturesTrade_API_request (ts_floating ts) (ts_flags ts) session)
          new_status_return w1)"

definition QueryUserStatus_API ::
  "'w test_setup \<Rightarrow> 'w \<Rightarrow> ((bool \<times> QueryUserStatusReturn) option \<times> 'w) option" where
  "QueryUserStatus_API ts w =
     (case FillLoginSession ts blank_session w of (session, w1) \<Rightarrow>
        send_test ts client_QueryUserStatus
          \<lparr> ustatus_login_session = Some session, ustatus_futures_id = Some (FLAGS_futures_id (ts_flags ts)),
            ustatus_terminal_info = terminal \<rparr> new_user_status_return w1)"

definition QueryPendingOrders_API ::
  "'w test_setup \<Rightarrow> 'w \<Rightarrow> ((bool \<times> QueryPendingOrdersReturn) option \<times> 'w) option" where
  "QueryPendingOrders_API ts w =
     (case FillLoginSession ts blank_session w of (session, w1) \<Rightarrow>
        send_test ts client_QueryPendingOrders
          \<lparr> pending_futures_id = Some (FLAGS_futures_id (ts_flags ts)), pending_login_session = Some session,
            pending_start_index = Some (FLAGS_start_index (ts_flags ts)),
            pending_batch_num = Some (FLAGS_batch_num (ts_flags ts)), pending_terminal_info = terminal \<rparr>
          new_orders_return w1)"

definition QueryHoldingOrders_API ::
  "'w test_setup \<Rightarrow> 'w \<Rightarrow> ((bool \<times> QueryHoldingOrdersReturn) option \<times> 'w) option" where
  "QueryHoldingOrders_API ts w =
     (case FillLoginSession ts blank_session w of (session, w1) \<Rightarrow>
        send_test ts client_QueryHoldingOrders
          \<lparr> holding_futures_id = Some (FLAGS_futures_id (ts_flags ts)), holding_login_session = Some session,
            holding_start_index = Some (FLAGS_start_index (ts_flags ts)),
            holding_batch_num = Some (FLAGS_batch_num (ts_flags ts)), holding_terminal_info = terminal \<rparr>
          new_orders_return w1)"

definition QueryHistoryOrders_API ::
  "'w test_setup \<Rightarrow> 'w \<Rightarrow> ((bool \<times> QueryHistoryOrderReturn) option \<times> 'w) option" where
  "QueryHistoryOrders_API ts w =
     (case FillLoginSession ts blank_session w of (session, w1) \<Rightarrow>
        send_test ts client_QueryHistoryOrders
          \<lparr> history_futures_id = Some (FLAGS_futures_id (ts_flags ts)), history_login_session = Some session,
            history_start_index = None, history_batch_num = None, history_terminal_info = terminal \<rparr>
          new_orders_return w1)"

definition QueryOrderDetail_API ::
  "'w test_setup \<Rightarrow> 'w \<Rightarrow> ((bool \<times> QueryOrderDetailReturn) option \<times> 'w) option" where
  "QueryOrderDetail_API ts w =
     (case FillLoginSession ts blank_session w of (session, w1) \<Rightarrow>
        send_test ts client_QueryOrderDetail
          \<lparr> detail_futures_id = Some (FLAGS_futures_id (ts_flags ts)), detail_order_id = None,
            detail_login_session = Some session, detail_terminal_info = terminal \<rparr> new_detail_return w1)"

definition QueryTransactionRecord_API ::
  "'w test_setup \<Rightarrow> 'w \<Rightarrow> ((bool \<times> QueryTransactionRecordReturn) option \<times> 'w) option" where
  "QueryTransactionRecord_API ts w =
     (case FillLoginSession ts blank_session w of (session, w1) \<Rightarrow>
        send_test ts client_QueryTransactionRecord
          \<lparr> records_futures_id = Some (FLAGS_futures_id (ts_flags ts)), records_login_session = Some session,
            records_index = None, records_batch_num = None, records_terminal_info = terminal \<rparr>
          new_records_return w1)"

definition QueryFuturesAccountConfig_API ::
  "'w test_setup \<Rightarrow> 'w \<Rightarrow> ((bool \<times> QueryFuturesAccountConfigReturn) option \<times> 'w) option" where
  "QueryFuturesAccountConfig_API ts w =
     (case FillLoginSession ts blank_session w of (session, w1) \<Rightarrow>
        send_test ts client_QueryFuturesAccountConfig
          \<lparr> config_type = None, config_login_session = Some session,
            config_futures_id = Some (FLAGS_futures_id (ts_flags ts)), config_terminal_info = terminal \<rparr>
          new_config_return w1)"

definition CancelPendingOrder_API ::
  "'w test_setup \<Rightarrow> 'w \<Rightarrow> ((bool \<times> FututesCancelPendingOrderReturn) option \<times> 'w) option" where
  "CancelPendingOrder_API ts w =
     (case FillLoginSession ts blank_session w of (session, w1) \<Rightarrow>
        send_test ts client_CancelPendingOrder
          \<lparr> cancel_futures_id = Some (FLAGS_futures_id (ts_flags ts)),
            cancel_order_id = Some (decimal_int (FLAGS_order_id (ts_flags ts))), cancel_symbol = None,
            cancel_session = Some session, cancel_terminal_info = None \<rparr> new_status_return w1)"

definition QuerySymbolByName_API ::
  "'w test_setup \<Rightarrow> 'w \<Rightarrow> ((bool \<times> QuerySymbolByNameReturn) option \<times> 'w) option" where
  "QuerySymbolByName_API ts w =
     send_test ts client_QuerySymbolByName
       \<lparr> byname_key = Some (FLAGS_search_key (ts_flags ts)), byname_features_id = None,
         byname_terminal_info = None \<rparr> new_byname_return w"

definition TradeConfirmInfo_API ::
  "'w test_setup \<Rightarrow> 'w \<Rightarrow> ((bool \<times> TradeConfirmInfoReturn) option \<times> 'w) option" where
  "TradeConfirmInfo_API ts w =
     (case FillLoginSession ts blank_session w of (session, w1) \<Rightarrow>
        send_test ts client_TradeConfirmInfo
          \<lparr> confirm_futures_id = Some (FLAGS_futures_id (ts_flags ts)), confirm_session = Some session,
            confirm_trade_type = Some (FLAGS_tradeType (ts_flags ts)),
            confirm_symbol = Some (FLAGS_symbol (ts_flags ts)), confirm_price = Some (FLAGS_price (ts_flags ts)),
            confirm_volume = Some (FLAGS_volume (ts_flags ts)), confirm_terminal_info = terminal \<rparr>
          new_confirm_return w1)"

definition QuerySymbolTradeInfo_API ::
  "'w test_setup \<Rightarrow> 'w \<Rightarrow> ((bool \<times> QuerySymbolTradeInfoReturn) option \<times> 'w) option" where
  "QuerySymbolTradeInfo_API ts w =
     (case FillLoginSession ts blank_session w of (session, w1) \<Rightarrow>
        send_test ts client_QuerySymbolTradeInfo
          \<lparr> tinfo_futures_id = Some (FLAGS_futures_id (ts_flags ts)),
            tinfo_symbol = Some (FLAGS_symbol (ts_flags ts)), tinfo_session = Some session,
            tinfo_terminal_info = terminal \<rparr> new_trade_info_return w1)"

definition QueryFifthOrder_API ::
  "'w test_setup \<Rightarrow> 'w \<Rightarrow> ((bool \<times> QueryFifthOrderReturn) option \<times> 'w) option" where
  "QueryFifthOrder_API ts w =
     (case FillLoginSession ts blank_session w of (session, w1) \<Rightarrow>
        send_test ts client_QueryFifthOrder
          \<lparr> fifth_futures_id = Some (FLAGS_futures_id (ts_flags ts)),
            fifth_symbol = Some (FLAGS_symbol (ts_flags ts)), fifth_login_session = Some session,
            fifth_terminal_info = terminal \<rparr> new_status_return w1)"

section \<open>The trade test against the server\<close>

text \<open>The clients encrypt with the key of the server.\<close>

lemma APITest_AESEncrypt_server: "APITest_AESEncrypt cr s default_key default_iv = AESEncrypt cr s"
  by (simp add: APITest_AESEncrypt_def AESEncrypt_def default_key_def default_iv_def aes_key_def aes_iv_def)

definition validate_error :: FuturesTradeReturn where
  "validate_error = \<lparr> only_status_info = Some \<lparr> status_no = 30006, status_message = ''VALIDATE ERROR'' \<rparr> \<rparr>"


text \<open>A test at the sample server, with a login that always gives the session of the samples.\<close>

definition sample_login :: LoginSession where
  "sample_login = \<lparr> session_str = Some ''good'', uid = Some 1 \<rparr>"

definition stub_client :: "'r \<Rightarrow> ('q, 'r) client_codec" where
  "stub_client r = \<lparr> serialize_request = (\<lambda>q. ''xyz''), parse_response = (\<lambda>s. (True, r)) \<rparr>"

definition sample_clients :: client_codecs where
  "sample_clients =
     \<lparr> cc_QueryMyFuturesAssets = stub_client new_assets_return, cc_FuturesTrade = stub_client validate_error,
       cc_QueryUserStatus = stub_client new_user_status_return,
       cc_QueryPendingOrders = stub_client new_orders_return,
       cc_QueryHoldingOrders = stub_client new_orders_return,
       cc_QueryHistoryOrders = stub_client new_orders_return,
       cc_QueryOrderDetail = stub_client new_detail_return,
       cc_QueryTransactionRecord = stub_client new_records_return,
       cc_QueryFuturesAccountConfig = stub_client new_config_return,
       cc_CancelPendingOrder = stub_client new_status_return,
       cc_QuerySymbolByName = stub_client new_byname_return,
       cc_TradeConfirmInfo = stub_client new_confirm_return,
       cc_QuerySymbolTradeInfo = stub_client new_trade_info_return,
       cc_QueryFifthOrder = stub_client new_status_return \<rparr>"

definition sample_test_flags :: test_flags where
  "sample_test_flags = (default_test_flags (env_floating sample_env))\<lparr>FLAGS_server_port := 8877\<rparr>"

abbreviation sample_test_order :: FuturesTradeRequest where
  "sample_test_order \<equiv> FuturesTrade_API_request (env_floating sample_env) sample_test_flags sample_login"

definition trade_codecs :: codecs where
  "trade_codecs = sample_codecs\<lparr>codec_FuturesTrade := stub_codec sample_test_order\<rparr>"

definition sample_setup :: "(nat + nat) list proxy_state option server test_setup" where
  "sample_setup =
     \<lparr> ts_poster = (sample_poster trade_codecs ''FuturesTrade'')\<lparr>perform_post := (\<lambda>url lines t body s.
         if url = http_url ''127.0.0.1'' 0 ''Login'' then (([], 0), s)
         else perform_post (sample_poster trade_codecs ''FuturesTrade'') url lines t body s)\<rparr>,
       ts_flags = sample_test_flags, ts_floating = env_floating sample_env, ts_cryptopp = env_cryptopp sample_env,
       ts_codecs = sample_clients, ts_login = stub_client \<lparr> login_session = Some sample_login \<rparr>,
       ts_input = [''what'', ''Y''] \<rparr>"

lemma sample_urls:
  "cstr (http_url ''127.0.0.1'' 0 ''Login'') = http_url ''127.0.0.1'' 0 ''Login''"
  "http_url ''127.0.0.1'' 8877 ''FuturesTrade'' \<noteq> http_url ''127.0.0.1'' 0 ''Login''"
proof -
  have "letters ''Login''" by (simp add: letters_def is_letter_def)
  then show "cstr (http_url ''127.0.0.1'' 0 ''Login'') = http_url ''127.0.0.1'' 0 ''Login''"
    by (rule cstr_http_url[OF sample_waiting(4)])
  have "last (http_url ''127.0.0.1'' 8877 ''FuturesTrade'') \<noteq> last (http_url ''127.0.0.1'' 0 ''Login'')"
    by (simp add: http_url_def)
  then show "http_url ''127.0.0.1'' 8877 ''FuturesTrade'' \<noteq> http_url ''127.0.0.1'' 0 ''Login''" by metis
qed

lemma sample_test_flags_simps:
  "FLAGS_push_server_ip sample_test_flags = ''127.0.0.1''" "FLAGS_push_server_port sample_test_flags = 0"
  "FLAGS_server_ip sample_test_flags = ''127.0.0.1''" "FLAGS_server_port sample_test_flags = 8877"
  by (simp_all add: sample_test_flags_def default_test_flags_def)

lemma sample_logged_in: "FillLoginSession sample_setup blank_session s = (sample_login, s)"
  by (simp add: FillLoginSession_def client_Login_def DefineHttpFunc_def HttpGet_def sample_setup_def
      sample_poster_def stub_client_def sample_urls sample_test_flags_simps)

lemma sample_trade_conditions:
  "length (md5_buffer (stack_memory sample_env)) = 64"
  "length (signed_text sample_test_order) + 63 < 2 ^ 32"
  "s \<noteq> [] \<Longrightarrow> AESEncrypt (env_cryptopp sample_env) s \<noteq> []"
  by (simp_all add: sample_env_def sample_md5_def signed_text_def FuturesTrade_API_request_def
      sample_test_flags_def default_test_flags_def decimal_int_def decimal.simps AESEncrypt_def)

lemma sample_trade_codec:
  "map_of (handle_table sample_env trade_codecs) ''FuturesTrade'' =
     Some (ADD_HANDLE (codec_FuturesTrade trade_codecs) (handle_FuturesTrade sample_env))"
  "parse_message (codec_FuturesTrade trade_codecs) t = sample_test_order"
  "serialize_message (codec_FuturesTrade trade_codecs) r = ''answer''"
  "serialize_request (cc_FuturesTrade (ts_codecs sample_setup)) q = ''xyz''"
  "parse_response (cc_FuturesTrade (ts_codecs sample_setup)) t = (True, validate_error)"
  by (simp_all add: handle_table_def trade_codecs_def stub_codec_def sample_setup_def sample_clients_def stub_client_def)

lemma sample_trade_served:
  "curl_delivers plain_boost (new_RequestHandler sample_env trade_codecs ''.'') 9 1
     (accepted_with (Some sample_state)) (ts_poster sample_setup) ''127.0.0.1'' 8877 ''FuturesTrade'' ''xyz''"
proof -
  have "handle_FuturesTrade sample_env sample_test_order sample_state = Some (validate_error, sample_state)"
    using unsigned_order_refused[OF sample_trade_conditions]
    by (simp add: handle_FuturesTrade_def new_status_return_def validate_error_def)
  then have "curl_delivers plain_boost (new_RequestHandler sample_env trade_codecs ''.'') 9 1
      (accepted_with (Some sample_state)) (sample_poster trade_codecs ''FuturesTrade'') ''127.0.0.1'' 8877
      ''FuturesTrade'' ''xyz''"
    by (intro sample_delivers[OF sample_trade_codec(1)]) (simp_all add: sample_trade_codec)
  then show ?thesis
    using sample_urls(2) by (simp add: curl_delivers_def sample_setup_def sample_poster_def)
qed


end
