(* ===== verification/Order_Threads.thy ===== *)
theory Order_Threads imports Futures_Proxy_Props
begin

text \<open>
  \<^verbatim>\<open>FuturesProxy::FuturesTrade\<close> the way a server thread runs it beside others: one step per
  operation on what the threads share (the two client pools, a client object, the world outside).
  The places where the thread can be are the constructors of \<open>order_pc\<close>, with its local variables.
  Run without interruption the steps compute the function \<open>FuturesTrade\<close> of the sequential model;
  the theory \<open>Order_Threads_Props\<close> lets any number of threads interleave them.
\<close>

section \<open>One thread\<close>

datatype order_pc =
  O_start
| O_authen_get
| O_authen_connect pointer int int
| O_authen_call pointer int int
| O_authen_put pointer bool int
| O_stamp
| O_clock AccessInfo
| O_trade_get AddOrderReq
| O_trade_connect pointer int AddOrderReq AddOrderResp
| O_trade_call pointer int AddOrderReq AddOrderResp
| O_trade_put pointer bool AddOrderResp
| O_done FuturesTradeReturn

text \<open>
  What a step lets one see of the two services: the answer of a session check, and an order sent,
  with the answer or None when the call threw.
\<close>

datatype order_event = Ev_checked SessionInfo int | Ev_order AddOrderReq "AddOrderResp option"

definition put_authen :: "pointer \<Rightarrow> rpc_client \<Rightarrow> 'w \<Rightarrow> 'w proxy_state \<Rightarrow> 'w proxy_state" where
  "put_authen p c w st =
     st\<lparr>authen_clients := (authen_clients st)\<lparr>heap := (heap (authen_clients st))(p \<mapsto> c)\<rparr>, outside := w\<rparr>"

definition put_trade :: "pointer \<Rightarrow> rpc_client \<Rightarrow> 'w \<Rightarrow> 'w proxy_state \<Rightarrow> 'w proxy_state" where
  "put_trade p c w st =
     st\<lparr>trade_clients := (trade_clients st)\<lparr>heap := (heap (trade_clients st))(p \<mapsto> c)\<rparr>, outside := w\<rparr>"

definition trade_answer :: "FuturesTradeReturn \<Rightarrow> FuturesError \<Rightarrow> string \<Rightarrow> FuturesTradeReturn" where
  "trade_answer resp err msg = resp\<lparr>only_status_info := fill_status (only_status_info resp) err msg\<rparr>"

text \<open>The steps up to the end of \<^verbatim>\<open>ValidateSession\<close>.\<close>

definition authen_get :: "('w, 'j) environment \<Rightarrow> 'w proxy_state \<Rightarrow> (order_pc \<times> 'w proxy_state) option" where
  "authen_get env st =
     (let (client, pool, w) = GetClientPtr (env_malloc env)
            (AuthenClientPool_NewClientPtr (env_network env) (env_flags env)) (authen_clients st) (outside st)
      in case heap pool client of
           None \<Rightarrow> None
         | Some c \<Rightarrow> Some (O_authen_connect client (m_retry_time c) (auth_UNKNOWN (env_enumerators env)),
                        st\<lparr>authen_clients := pool, outside := w\<rparr>))"

definition authen_connect ::
  "('w, 'j) environment \<Rightarrow> pointer \<Rightarrow> int \<Rightarrow> int \<Rightarrow> 'w proxy_state \<Rightarrow> (order_pc \<times> 'w proxy_state) option" where
  "authen_connect env p retry_time ret st =
     (if retry_time = 0 then Some (O_authen_put p False ret, st)
      else if retry_time \<le> - (2 ^ 31) then None
      else
        case heap (authen_clients st) p of
          None \<Rightarrow> None
        | Some c \<Rightarrow>
            (case Authen_InitClient (env_network env) (env_flags env) c (outside st) of (connected, c', w') \<Rightarrow>
               Some (if connected then O_authen_call p (retry_time - 1) ret
                     else O_authen_connect p (retry_time - 1) ret,
                     put_authen p c' w' st)))"

definition authen_call ::
  "('w, 'j) environment \<Rightarrow> SessionInfo \<Rightarrow> pointer \<Rightarrow> int \<Rightarrow> int \<Rightarrow> 'w proxy_state \<Rightarrow>
   (order_event list \<times> order_pc \<times> 'w proxy_state) option" where
  "authen_call env session p retry_time ret st =
     (case heap (authen_clients st) p of
        None \<Rightarrow> None
      | Some c \<Rightarrow>
          (case m_client c of
             None \<Rightarrow> None
           | Some k \<Rightarrow>
               (case env_authen env k session (outside st) of
                  (Some err, w') \<Rightarrow> Some ([Ev_checked session err], O_authen_put p True err, put_authen p c w' st)
                | (None, w') \<Rightarrow>
                    Some ([], O_authen_connect p retry_time ret, put_authen p (c\<lparr>m_is_inited := False\<rparr>) w' st))))"

text \<open>The steps that enter the order.\<close>

definition trade_get ::
  "('w, 'j) environment \<Rightarrow> AddOrderReq \<Rightarrow> 'w proxy_state \<Rightarrow> (order_pc \<times> 'w proxy_state) option" where
  "trade_get env q st =
     (let (client, pool, w) = GetClientPtr (env_malloc env)
            (SPTradeInfoClientPool_NewClientPtr (env_network env) (env_flags env)) (trade_clients st) (outside st)
      in case heap pool client of
           None \<Rightarrow> None
         | Some c \<Rightarrow> Some (O_trade_connect client (FLAGS_rpc_call_times (env_flags env)) q (new_AddOrderResp env),
                        st\<lparr>trade_clients := pool, outside := w\<rparr>))"

definition trade_connect ::
  "('w, 'j) environment \<Rightarrow> pointer \<Rightarrow> int \<Rightarrow> AddOrderReq \<Rightarrow> AddOrderResp \<Rightarrow> 'w proxy_state \<Rightarrow>
   (order_pc \<times> 'w proxy_state) option" where
  "trade_connect env p retry_time q a st =
     (if retry_time = 0 then Some (O_trade_put p False a, st)
      else if retry_time \<le> - (2 ^ 31) then None
      else
        case heap (trade_clients st) p of
          None \<Rightarrow> None
        | Some c \<Rightarrow>
            (case SPTradeInfo_InitClient (env_network env) (env_flags env) c (outside st) of (connected, c', w') \<Rightarrow>
               Some (if connected then O_trade_call p (retry_time - 1) q a
                     else O_trade_connect p (retry_time - 1) q a,
                     put_trade p c' w' st)))"

definition trade_call ::
  "('w, 'j) environment \<Rightarrow> pointer \<Rightarrow> int \<Rightarrow> AddOrderReq \<Rightarrow> AddOrderResp \<Rightarrow> 'w proxy_state \<Rightarrow>
   (order_event list \<times> order_pc \<times> 'w proxy_state) option" where
  "trade_call env p retry_time q a st =
     (case heap (trade_clients st) p of
        None \<Rightarrow> None
      | Some c \<Rightarrow>
          (case m_client c of
             None \<Rightarrow> None
           | Some k \<Rightarrow>
               (case rpc_AddOrder (env_trade env) k q a (outside st) of (returned, a', w') \<Rightarrow>
                  if returned then Some ([Ev_order q (Some a')], O_trade_put p True a', put_trade p c w' st)
                  else Some ([Ev_order q None], O_trade_connect p retry_time q a',
                         put_trade p (c\<lparr>m_is_inited := False\<rparr>) w' st))))"

text \<open>A step that lets nothing be seen.\<close>

definition silent :: "(order_pc \<times> 's) option \<Rightarrow> (order_event list \<times> order_pc \<times> 's) option" where
  "silent x = map_option (\<lambda>(pc, st). ([], pc, st)) x"

definition order_step ::
  "('w, 'j) environment \<Rightarrow> FuturesTradeRequest \<Rightarrow> FuturesTradeReturn \<Rightarrow> order_pc \<Rightarrow> 'w proxy_state \<Rightarrow>
   (order_event list \<times> order_pc \<times> 'w proxy_state) option" where
  "order_step env req resp pc st =
     (case trade_session req of
        None \<Rightarrow> Some ([], O_done (trade_answer resp ErrCode_FUTURES_REQ_ERR ''REQ ERROR''), st)
      | Some session \<Rightarrow>
          (case pc of
             O_start \<Rightarrow>
               (case expected_signature env req of
                  None \<Rightarrow> None
                | Some aes_string \<Rightarrow>
                    if aes_string \<noteq> str_field (trade_signature req)
                    then Some ([], O_done (trade_answer resp ErrCode_FUTURES_SESSION_ERR ''VALIDATE ERROR''), st)
                    else Some ([], O_authen_get, st))
           | O_authen_get \<Rightarrow> silent (authen_get env st)
           | O_authen_connect p n ret \<Rightarrow> silent (authen_connect env p n ret st)
           | O_authen_call p n ret \<Rightarrow> authen_call env (session_query session) p n ret st
           | O_authen_put p rpc_valided ret \<Rightarrow>
               Some ([], if auth_SUCCESS (env_enumerators env) \<noteq> ret
                         then O_done (trade_answer resp ErrCode_FUTURES_SESSION_ERR ''SESSION ERROR'') else O_stamp,
                     st\<lparr>authen_clients := release_client p rpc_valided (authen_clients st)\<rparr>)
           | O_stamp \<Rightarrow> (case access_info env st of (access, st') \<Rightarrow> Some ([], O_clock access, st'))
           | O_clock access \<Rightarrow>
               (case env_clock env (outside st) of (tp, w') \<Rightarrow>
                  Some ([], O_trade_get (add_order_req env req session access tp), st\<lparr>outside := w'\<rparr>))
           | O_trade_get q \<Rightarrow> silent (trade_get env q st)
           | O_trade_connect p n q a \<Rightarrow> silent (trade_connect env p n q a st)
           | O_trade_call p n q a \<Rightarrow> trade_call env p n q a st
           | O_trade_put p rpc_ret a \<Rightarrow>
               Some ([], O_done
                   (if \<not> rpc_ret then trade_answer resp ErrCode_FUTURES_INFO_BUSY ''FUTURES INFO BUSY''
                    else if addr_err_no a = trade_SUCCESS (env_enumerators env)
                    then trade_answer resp ErrCode_SUCCESS ''SUCCESS''
                    else trade_answer resp ErrCode_FUTURES_TRADE_ERR ''TRADE ERROR''),
                 st\<lparr>trade_clients := release_client p rpc_ret (trade_clients st)\<rparr>)
           | O_done r \<Rightarrow> Some ([], O_done r, st)))"

text \<open>A number of steps of the thread alone.\<close>

fun order_run ::
  "('w, 'j) environment \<Rightarrow> FuturesTradeRequest \<Rightarrow> FuturesTradeReturn \<Rightarrow> nat \<Rightarrow> order_pc \<Rightarrow> 'w proxy_state \<Rightarrow>
   (order_pc \<times> 'w proxy_state) option" where
  "order_run env req resp 0 pc st = Some (pc, st)"
| "order_run env req resp (Suc n) pc st =
     (case order_step env req resp pc st of
        None \<Rightarrow> None
      | Some (evs, pc', st') \<Rightarrow> order_run env req resp n pc' st')"

section \<open>Objects in the pools\<close>

lemma put_authen_simps [simp]:
  "put_authen p c w (put_authen p c' w' st) = put_authen p c w st"
  "heap (authen_clients (put_authen p c w st)) p = Some c"
  "outside (put_authen p c w st) = w"
  "heap (authen_clients st) p = Some c \<Longrightarrow> put_authen p c (outside st) st = st"
  by (simp_all add: put_authen_def fun_upd_idem map_upd_triv)

lemma put_trade_simps [simp]:
  "put_trade p c w (put_trade p c' w' st) = put_trade p c w st"
  "heap (trade_clients (put_trade p c w st)) p = Some c"
  "outside (put_trade p c w st) = w"
  "heap (trade_clients st) p = Some c \<Longrightarrow> put_trade p c (outside st) st = st"
  by (simp_all add: put_trade_def fun_upd_idem map_upd_triv)

section \<open>Alone, the thread computes the function\<close>

definition runs_to ::
  "('w, 'j) environment \<Rightarrow> FuturesTradeRequest \<Rightarrow> FuturesTradeReturn \<Rightarrow> order_pc \<Rightarrow> 'w proxy_state \<Rightarrow>
   (order_pc \<times> 'w proxy_state) option \<Rightarrow> bool" where
  "runs_to env req resp pc st y \<longleftrightarrow> (\<exists>n. order_run env req resp n pc st = y)"

lemma order_run_add:
  "order_run env req resp m pc st = Some (pc', st') \<Longrightarrow>
   order_run env req resp (m + n) pc st = order_run env req resp n pc' st'"
  by (induction m arbitrary: pc st) (auto split: option.splits)

lemma runs_to_here: "runs_to env req resp pc st (Some (pc, st))"
  unfolding runs_to_def by (rule exI[of _ 0]) simp

lemma runs_to_trans:
  assumes "runs_to env req resp pc st (Some (pc', st'))" and "runs_to env req resp pc' st' y"
  shows "runs_to env req resp pc st y"
  using assms order_run_add unfolding runs_to_def by metis

lemma runs_to_step:
  assumes "order_step env req resp pc st = Some (evs, pc', st')" and "runs_to env req resp pc' st' y"
  shows "runs_to env req resp pc st y"
proof -
  from assms(2) obtain n where "order_run env req resp n pc' st' = y" unfolding runs_to_def by blast
  then have "order_run env req resp (Suc n) pc st = y" using assms(1) by simp
  then show ?thesis unfolding runs_to_def by blast
qed

lemma runs_to_fail: "order_step env req resp pc st = None \<Longrightarrow> runs_to env req resp pc st None"
  unfolding runs_to_def by (rule exI[of _ 1]) simp

text \<open>The retry loop, as a thread goes through it; \<open>var\<close> and \<open>store\<close> split its state.\<close>

lemma retry_loop_runs:
  assumes "\<And>s. order_step env req resp (at_connect 0 (var s)) (store s) = Some ([], at_put False (var s), store s)"
    and "\<And>r s. r \<le> - (2 ^ 31) \<Longrightarrow> order_step env req resp (at_connect r (var s)) (store s) = None"
    and "\<And>r s b s'. \<lbrakk>r \<noteq> 0; \<not> r \<le> - (2 ^ 31); connect s = (b, s')\<rbrakk> \<Longrightarrow>
      order_step env req resp (at_connect r (var s)) (store s) =
        Some ([], if b then at_call (r - 1) (var s') else at_connect (r - 1) (var s'), store s')"
    and "\<And>r s. call s = None \<Longrightarrow> order_step env req resp (at_call r (var s)) (store s) = None"
    and "\<And>r s b s'. call s = Some (b, s') \<Longrightarrow> \<exists>evs. order_step env req resp (at_call r (var s)) (store s) =
      Some (evs, if b then at_put True (var s') else at_connect r (var s'), store s')"
  shows "runs_to env req resp (at_connect r (var s)) (store s)
    (map_option (\<lambda>(b, s'). (at_put b (var s'), store s')) (retry_loop connect call r s))"
proof (induction "nat (r + 2 ^ 31)" arbitrary: r s rule: less_induct)
  case less
  consider "r = 0" | "r \<le> - (2 ^ 31)" | "r \<noteq> 0" "\<not> r \<le> - (2 ^ 31)" by blast
  then show ?case
  proof cases
    case 1
    then show ?thesis using runs_to_step[OF assms(1) runs_to_here] by simp
  next
    case 2
    then show ?thesis using runs_to_fail[OF assms(2)] by (simp add: retry_loop.simps[of _ _ r])
  next
    case 3
    then have "nat (r - 1 + 2 ^ 31) < nat (r + 2 ^ 31)" by simp
    note again = less.hyps[OF this]
    obtain b s1 where con: "connect s = (b, s1)" by fastforce
    note s1 = assms(3)[OF 3 con]
    show ?thesis
    proof (cases b)
      case False
      then show ?thesis using runs_to_step[OF s1] again[of s1] 3 con by (simp add: retry_loop.simps[of _ _ r])
    next
      case b: True
      show ?thesis
      proof (cases "call s1")
        case None
        then show ?thesis using runs_to_step[OF s1] runs_to_fail[OF assms(4)] 3 con b
          by (simp add: retry_loop.simps[of _ _ r])
      next
        case (Some x)
        then obtain returned s2 where call: "call s1 = Some (returned, s2)" by (cases x) auto
        from assms(5)[OF call] obtain evs where s2: "order_step env req resp (at_call (r - 1) (var s1)) (store s1) =
          Some (evs, if returned then at_put True (var s2) else at_connect (r - 1) (var s2), store s2)" by blast
        show ?thesis
          using runs_to_step[OF s1] runs_to_step[OF s2] again[of s2] 3 con b call
          by (cases returned) (simp_all add: runs_to_here retry_loop.simps[of _ _ r])
      qed
    qed
  qed
qed

lemma authen_loop_runs:
  assumes "trade_session req = Some session" and "heap (authen_clients st) p = Some c"
  shows "runs_to env req resp (O_authen_connect p r ret) st
    (map_option (\<lambda>(b, c', ret', w'). (O_authen_put p b ret', put_authen p c' w' st))
      (retry_loop (connect_authen (env_network env) (env_flags env))
         (authenticate (env_authen env) (session_query session)) r (c, ret, outside st)))"
proof -
  let ?var = "\<lambda>(c :: rpc_client, ret :: int, w). ret" and ?store = "\<lambda>(c, ret :: int, w). put_authen p c w st"
  have "runs_to env req resp (O_authen_connect p r (?var (c, ret, outside st))) (?store (c, ret, outside st))
    (map_option (\<lambda>(b, s'). (O_authen_put p b (?var s'), ?store s'))
      (retry_loop (connect_authen (env_network env) (env_flags env))
         (authenticate (env_authen env) (session_query session)) r (c, ret, outside st)))"
    by (rule retry_loop_runs[where at_call = "O_authen_call p"])
      (use assms(1) in \<open>auto simp: order_step_def silent_def authen_connect_def connect_authen_def
         authenticate_def authen_call_def split: prod.splits option.splits\<close>)
  then show ?thesis using assms(2) by (simp add: case_prod_unfold)
qed

lemma trade_loop_runs:
  assumes "trade_session req = Some session" and "heap (trade_clients st) p = Some c"
  shows "runs_to env req resp (O_trade_connect p r q a) st
    (map_option (\<lambda>(b, c', a', w'). (O_trade_put p b a', put_trade p c' w' st))
      (retry_loop (connect_sp (env_network env) (env_flags env))
         (invoke (rpc_AddOrder (env_trade env)) q) r (c, a, outside st)))"
proof -
  let ?var = "\<lambda>(c :: rpc_client, a :: AddOrderResp, w). a"
    and ?store = "\<lambda>(c, a :: AddOrderResp, w). put_trade p c w st"
  have "runs_to env req resp (O_trade_connect p r q (?var (c, a, outside st))) (?store (c, a, outside st))
    (map_option (\<lambda>(b, s'). (O_trade_put p b (?var s'), ?store s'))
      (retry_loop (connect_sp (env_network env) (env_flags env))
         (invoke (rpc_AddOrder (env_trade env)) q) r (c, a, outside st)))"
    by (rule retry_loop_runs[where at_call = "\<lambda>r. O_trade_call p r q"])
      (use assms(1) in \<open>auto simp: order_step_def silent_def trade_connect_def connect_sp_def
         invoke_def trade_call_def split: prod.splits option.splits if_splits\<close>)
  then show ?thesis using assms(2) by (simp add: case_prod_unfold)
qed

lemma ValidateSession_runs:
  assumes "trade_session req = Some session"
  shows "runs_to env req resp O_authen_get st
    (map_option (\<lambda>(ret, st'). (if auth_SUCCESS (env_enumerators env) \<noteq> ret
        then O_done (trade_answer resp ErrCode_FUTURES_SESSION_ERR ''SESSION ERROR'') else O_stamp, st'))
      (ValidateSession env session st))"
proof -
  obtain p pool w where get: "GetClientPtr (env_malloc env)
      (AuthenClientPool_NewClientPtr (env_network env) (env_flags env)) (authen_clients st) (outside st) = (p, pool, w)"
    by (cases "GetClientPtr (env_malloc env) (AuthenClientPool_NewClientPtr (env_network env) (env_flags env))
      (authen_clients st) (outside st)") auto
  show ?thesis
  proof (cases "heap pool p")
    case None
    then show ?thesis using get assms
      by (auto intro!: runs_to_fail simp: order_step_def silent_def authen_get_def ValidateSession_def)
  next
    case (Some c)
    define st1 where "st1 = st\<lparr>authen_clients := pool, outside := w\<rparr>"
    have c: "heap (authen_clients st1) p = Some c" "outside st1 = w" using Some by (simp_all add: st1_def)
    have s1: "order_step env req resp O_authen_get st =
        Some ([], O_authen_connect p (m_retry_time c) (auth_UNKNOWN (env_enumerators env)), st1)"
      using get Some assms by (simp add: order_step_def silent_def authen_get_def st1_def)
    note loop = authen_loop_runs[OF assms c(1), of env resp "m_retry_time c" "auth_UNKNOWN (env_enumerators env)"]
    show ?thesis
    proof (cases "Authen_ValidateSession (env_network env) (env_flags env) (env_enumerators env) (env_authen env)
        (session_query session) c w")
      case None
      then show ?thesis using runs_to_step[OF s1 loop] get Some c(2)
        by (simp add: Authen_ValidateSession_def ValidateSession_def session_query_def)
    next
      case (Some x)
      then obtain b c' ret w' where call: "Authen_ValidateSession (env_network env) (env_flags env) (env_enumerators env)
          (env_authen env) (session_query session) c w = Some (b, c', ret, w')" by (cases x) auto
      then have s2: "runs_to env req resp O_authen_get st (Some (O_authen_put p b ret, put_authen p c' w' st1))"
        using runs_to_step[OF s1 loop] c(2) by (simp add: Authen_ValidateSession_def)
      have "order_step env req resp (O_authen_put p b ret) (put_authen p c' w' st1) =
          Some ([], if auth_SUCCESS (env_enumerators env) \<noteq> ret
             then O_done (trade_answer resp ErrCode_FUTURES_SESSION_ERR ''SESSION ERROR'') else O_stamp,
            st\<lparr>authen_clients := release_client p b (pool\<lparr>heap := (heap pool)(p \<mapsto> c')\<rparr>), outside := w'\<rparr>)"
        using assms by (simp add: order_step_def put_authen_def st1_def)
      from runs_to_trans[OF s2 runs_to_step[OF this runs_to_here]] show ?thesis
        using call get \<open>heap pool p = Some c\<close> by (simp add: ValidateSession_def session_query_def)
    qed
  qed
qed

lemma call_AddOrder_runs:
  assumes "trade_session req = Some session"
  shows "runs_to env req resp (O_trade_get q) st
    (map_option (\<lambda>(r, st'). (O_done r, st'))
      (call_trade env (SPTradeInfo_AddOrder (env_network env) (env_flags env) (env_trade env) q) (new_AddOrderResp env)
        (trade_answer resp)
        (\<lambda>a. if addr_err_no a = trade_SUCCESS (env_enumerators env)
             then trade_answer resp ErrCode_SUCCESS ''SUCCESS''
             else trade_answer resp ErrCode_FUTURES_TRADE_ERR ''TRADE ERROR'') st))"
proof -
  obtain p pool w where get: "GetClientPtr (env_malloc env)
      (SPTradeInfoClientPool_NewClientPtr (env_network env) (env_flags env)) (trade_clients st) (outside st) = (p, pool, w)"
    by (cases "GetClientPtr (env_malloc env) (SPTradeInfoClientPool_NewClientPtr (env_network env) (env_flags env))
      (trade_clients st) (outside st)") auto
  show ?thesis
  proof (cases "heap pool p")
    case None
    then show ?thesis using get assms
      by (auto intro!: runs_to_fail simp: order_step_def silent_def trade_get_def call_trade_def)
  next
    case (Some c)
    define st1 where "st1 = st\<lparr>trade_clients := pool, outside := w\<rparr>"
    have c: "heap (trade_clients st1) p = Some c" "outside st1 = w" using Some by (simp_all add: st1_def)
    have s1: "order_step env req resp (O_trade_get q) st =
        Some ([], O_trade_connect p (FLAGS_rpc_call_times (env_flags env)) q (new_AddOrderResp env), st1)"
      using get Some assms by (simp add: order_step_def silent_def trade_get_def st1_def)
    note loop = trade_loop_runs[OF assms c(1), of env resp "FLAGS_rpc_call_times (env_flags env)" q "new_AddOrderResp env"]
    show ?thesis
    proof (cases "SPTradeInfo_AddOrder (env_network env) (env_flags env) (env_trade env) q c (new_AddOrderResp env) w")
      case None
      then show ?thesis using runs_to_step[OF s1 loop] get Some c(2)
        by (simp add: SPTradeInfo_AddOrder_def call_trade_def)
    next
      case (Some x)
      then obtain b c' a w' where call: "SPTradeInfo_AddOrder (env_network env) (env_flags env) (env_trade env) q c
          (new_AddOrderResp env) w = Some (b, c', a, w')" by (cases x) auto
      then have s2: "runs_to env req resp (O_trade_get q) st (Some (O_trade_put p b a, put_trade p c' w' st1))"
        using runs_to_step[OF s1 loop] c(2) by (simp add: SPTradeInfo_AddOrder_def)
      have s3: "order_step env req resp (O_trade_put p b a) (put_trade p c' w' st1) =
          Some ([], O_done (if \<not> b then trade_answer resp ErrCode_FUTURES_INFO_BUSY ''FUTURES INFO BUSY''
                    else if addr_err_no a = trade_SUCCESS (env_enumerators env)
                    then trade_answer resp ErrCode_SUCCESS ''SUCCESS''
                    else trade_answer resp ErrCode_FUTURES_TRADE_ERR ''TRADE ERROR''),
            st\<lparr>trade_clients := release_client p b (pool\<lparr>heap := (heap pool)(p \<mapsto> c')\<rparr>), outside := w'\<rparr>)"
        using assms by (simp add: order_step_def put_trade_def st1_def)
      from runs_to_trans[OF s2 runs_to_step[OF s3 runs_to_here]] show ?thesis
        using call get \<open>heap pool p = Some c\<close> by (simp add: call_trade_def)
    qed
  qed
qed

text \<open> the steps of a thread are those of the function: run without interruption from its start, the
  thread ends with exactly the response and the state that the sequential model of
  \<^verbatim>\<open>FuturesTrade\<close> computes, or runs into undefined behaviour exactly when that does.\<close>

lemma order_thread_alone:
  "\<exists>n. order_run env req resp n O_start st =
     map_option (\<lambda>(r, st'). (O_done r, st')) (FuturesTrade env req resp st)"
proof -
  have "runs_to env req resp O_start st (map_option (\<lambda>(r, st'). (O_done r, st')) (FuturesTrade env req resp st))"
  proof (cases "trade_session req")
    case None
    then have "order_step env req resp O_start st =
        Some ([], O_done (trade_answer resp ErrCode_FUTURES_REQ_ERR ''REQ ERROR''), st)" by (simp add: order_step_def)
    from runs_to_step[OF this runs_to_here] show ?thesis using None
      by (simp add: FuturesTrade_def trade_answer_def)
  next
    case (Some session)
    show ?thesis
    proof (cases "expected_signature env req = Some (str_field (trade_signature req))")
      case False
      have "order_step env req resp O_start st = None \<and> FuturesTrade env req resp st = None \<or>
          order_step env req resp O_start st =
            Some ([], O_done (trade_answer resp ErrCode_FUTURES_SESSION_ERR ''VALIDATE ERROR''), st) \<and>
          FuturesTrade env req resp st = Some (trade_answer resp ErrCode_FUTURES_SESSION_ERR ''VALIDATE ERROR'', st)"
        using Some False by (auto simp: order_step_def FuturesTrade_def trade_answer_def Let_def split: option.split)
      then show ?thesis
      proof
        assume *: "order_step env req resp O_start st = None \<and> FuturesTrade env req resp st = None"
        then show ?thesis by (simp add: runs_to_fail)
      next
        assume *: "order_step env req resp O_start st =
            Some ([], O_done (trade_answer resp ErrCode_FUTURES_SESSION_ERR ''VALIDATE ERROR''), st) \<and>
          FuturesTrade env req resp st = Some (trade_answer resp ErrCode_FUTURES_SESSION_ERR ''VALIDATE ERROR'', st)"
        from runs_to_step[OF this[THEN conjunct1] runs_to_here] show ?thesis using * by simp
      qed
    next
      case sig: True
      have s1: "order_step env req resp O_start st = Some ([], O_authen_get, st)"
        using Some sig by (simp add: order_step_def)
      note val = ValidateSession_runs[OF Some, of env resp st]
      have whole: "FuturesTrade env req resp st = with_session env (Some session) (trade_answer resp) (\<lambda>session st1.
          case access_info env st1 of (access, st2) \<Rightarrow>
            case env_clock env (outside st2) of (tp, w3) \<Rightarrow>
              call_trade env (SPTradeInfo_AddOrder (env_network env) (env_flags env) (env_trade env)
                (add_order_req env req session access tp)) (new_AddOrderResp env) (trade_answer resp)
                (\<lambda>a. if addr_err_no a = trade_SUCCESS (env_enumerators env)
                     then trade_answer resp ErrCode_SUCCESS ''SUCCESS''
                     else trade_answer resp ErrCode_FUTURES_TRADE_ERR ''TRADE ERROR'') (st2\<lparr>outside := w3\<rparr>)) st"
        unfolding FuturesTrade_def trade_answer_def[abs_def] Let_def using Some sig by simp
      show ?thesis
      proof (cases "ValidateSession env session st")
        case None
        then show ?thesis using runs_to_step[OF s1 val] whole by (simp add: with_session_def)
      next
        case (Some x)
        then obtain ret st1 where v: "ValidateSession env session st = Some (ret, st1)" by (cases x) auto
        show ?thesis
        proof (cases "auth_SUCCESS (env_enumerators env) = ret")
          case False
          then show ?thesis using runs_to_step[OF s1 val] whole v by (simp add: with_session_def)
        next
          case ok: True
          obtain access st2 where acc: "access_info env st1 = (access, st2)" by fastforce
          obtain tp w3 where clock: "env_clock env (outside st2) = (tp, w3)" by fastforce
          have s2: "order_step env req resp O_stamp st1 = Some ([], O_clock access, st2)"
            "order_step env req resp (O_clock access) st2 =
               Some ([], O_trade_get (add_order_req env req session access tp), st2\<lparr>outside := w3\<rparr>)"
            using \<open>trade_session req = Some session\<close> acc clock by (simp_all add: order_step_def)
          have "runs_to env req resp O_start st (Some (O_stamp, st1))"
            using runs_to_step[OF s1 val] v ok by simp
          from runs_to_trans[OF this runs_to_step[OF s2(1) runs_to_step[OF s2(2)
              call_AddOrder_runs[OF \<open>trade_session req = Some session\<close>]]]]
          show ?thesis using whole v ok acc clock by (simp add: with_session_def)
        qed
      qed
    qed
  qed
  then show ?thesis by (simp add: runs_to_def)
qed

end
