(* ===== verification/Order_Threads_Props.thy ===== *)
theory Order_Threads_Props imports Order_Threads
begin

text \<open>
  Any number of threads that run \<^verbatim>\<open>FuturesTrade\<close> at once, their steps interleaved in any
  order, beside threads that run the other request functions. Of those only the use of the pools is
  described: they borrow, use and hand back clients as the pools allow and keep them in order; and
  they, like the services, may change the world outside at any time.
\<close>

section \<open>The threads together\<close>

record 'w threads =
  pcs :: "nat \<Rightarrow> order_pc"
  shared :: "'w proxy_state"
  authen_lent :: "(nat \<times> pointer) set"
  trade_lent :: "(nat \<times> pointer) set"
  events :: "(nat \<times> order_event) list"
  steps_taken :: "nat \<Rightarrow> nat"

definition is_done :: "order_pc \<Rightarrow> bool" where
  "is_done pc \<longleftrightarrow> (case pc of O_done r \<Rightarrow> True | _ \<Rightarrow> False)"

definition all_good :: "flags \<Rightarrow> client_pool \<Rightarrow> bool" where
  "all_good fl p \<longleftrightarrow> (\<forall>x c. heap p x = Some c \<longrightarrow> good_client fl c)"

abbreviation new_authen :: "('w, 'j) environment \<Rightarrow> 'w \<Rightarrow> rpc_client \<times> 'w" where
  "new_authen env \<equiv> AuthenClientPool_NewClientPtr (env_network env) (env_flags env)"

abbreviation new_trade :: "('w, 'j) environment \<Rightarrow> 'w \<Rightarrow> rpc_client \<times> 'w" where
  "new_trade env \<equiv> SPTradeInfoClientPool_NewClientPtr (env_network env) (env_flags env)"

inductive threads_step ::
  "('w, 'j) environment \<Rightarrow> (nat \<Rightarrow> FuturesTradeRequest) \<Rightarrow> FuturesTradeReturn \<Rightarrow> 'w threads \<Rightarrow> 'w threads \<Rightarrow> bool"
  for env reqs resp where
  order: "\<lbrakk>\<not> is_done (pcs s t); order_step env (reqs t) resp (pcs s t) (shared s) = Some (evs, pc', st')\<rbrakk> \<Longrightarrow>
    threads_step env reqs resp s (s\<lparr>pcs := (pcs s)(t := pc'), shared := st',
      events := events s @ map (Pair t) evs, steps_taken := (steps_taken s)(t := Suc (steps_taken s t))\<rparr>)"
| other_authen: "\<lbrakk>pool_step (env_malloc env) (new_authen env)
      (authen_clients (shared s), authen_lent s, outside (shared s)) (p, H, w); all_good (env_flags env) p\<rbrakk> \<Longrightarrow>
    threads_step env reqs resp s (s\<lparr>shared := (shared s)\<lparr>authen_clients := p, outside := w\<rparr>, authen_lent := H\<rparr>)"
| other_trade: "\<lbrakk>pool_step (env_malloc env) (new_trade env)
      (trade_clients (shared s), trade_lent s, outside (shared s)) (p, H, w); all_good (env_flags env) p\<rbrakk> \<Longrightarrow>
    threads_step env reqs resp s (s\<lparr>shared := (shared s)\<lparr>trade_clients := p, outside := w\<rparr>, trade_lent := H\<rparr>)"
| world: "threads_step env reqs resp s (s\<lparr>shared := (shared s)\<lparr>outside := w\<rparr>\<rparr>)"

definition threads_start :: "'w proxy_state \<Rightarrow> 'w threads" where
  "threads_start st = \<lparr> pcs = (\<lambda>t. O_start), shared = st, authen_lent = {}, trade_lent = {}, events = [],
     steps_taken = (\<lambda>t. 0) \<rparr>"

inductive threads_reachable ::
  "('w, 'j) environment \<Rightarrow> (nat \<Rightarrow> FuturesTradeRequest) \<Rightarrow> FuturesTradeReturn \<Rightarrow> 'w threads \<Rightarrow> bool"
  for env reqs resp where
  start: "state_ok env st \<Longrightarrow> threads_reachable env reqs resp (threads_start st)"
| step: "\<lbrakk>threads_reachable env reqs resp s; threads_step env reqs resp s s'\<rbrakk> \<Longrightarrow>
    threads_reachable env reqs resp s'"

section \<open>Who holds which client\<close>

fun authen_held :: "order_pc \<Rightarrow> pointer option" where
  "authen_held (O_authen_connect p n ret) = Some p"
| "authen_held (O_authen_call p n ret) = Some p"
| "authen_held (O_authen_put p b ret) = Some p"
| "authen_held pc = None"

fun trade_held :: "order_pc \<Rightarrow> pointer option" where
  "trade_held (O_trade_connect p n q a) = Some p"
| "trade_held (O_trade_call p n q a) = Some p"
| "trade_held (O_trade_put p b a) = Some p"
| "trade_held pc = None"

text \<open>
  What a step of a thread does to a pool, given the client it holds before and after: nothing, use
  the held client, borrow one, or hand it back.
\<close>

inductive pool_act ::
  "flags \<Rightarrow> allocator \<Rightarrow> ('w \<Rightarrow> rpc_client \<times> 'w) \<Rightarrow> pointer option \<Rightarrow> pointer option \<Rightarrow>
   client_pool \<Rightarrow> client_pool \<Rightarrow> bool" for fl malloc new_client where
  idle: "pool_act fl malloc new_client h h p p"
| uses: "\<lbrakk>heap p x = Some c; good_client fl c'\<rbrakk> \<Longrightarrow>
    pool_act fl malloc new_client (Some x) (Some x) p (p\<lparr>heap := (heap p)(x \<mapsto> c')\<rparr>)"
| borrows: "GetClientPtr malloc new_client p w = (x, p', w') \<Longrightarrow>
    pool_act fl malloc new_client None (Some x) p p'"
| returns: "pool_act fl malloc new_client (Some x) None p (release_client x b p)"

text \<open>All holders of a pool: the order threads and the others.\<close>

definition holders :: "(nat \<Rightarrow> pointer option) \<Rightarrow> (nat \<times> pointer) set \<Rightarrow> ((nat + nat) \<times> pointer) set" where
  "holders held H = {(Inl t, x) | t x. held t = Some x} \<union> {(Inr u, x) | u x. (u, x) \<in> H}"

definition pool_inv :: "flags \<Rightarrow> (nat \<Rightarrow> pointer option) \<Rightarrow> (nat \<times> pointer) set \<Rightarrow> client_pool \<Rightarrow> bool" where
  "pool_inv fl held H p \<longleftrightarrow> owned (m_client_set p) (dom (heap p)) (holders held H) \<and> all_good fl p"

lemma holders_mem [simp]:
  "(Inl t, x) \<in> holders held H \<longleftrightarrow> held t = Some x" "(Inr u, x) \<in> holders held H \<longleftrightarrow> (u, x) \<in> H"
  by (simp_all add: holders_def)

lemma holders_eqI:
  assumes "\<And>t x. (Inl t, x) \<in> A \<longleftrightarrow> held t = Some x" and "\<And>u x. (Inr u, x) \<in> A \<longleftrightarrow> (u, x) \<in> H"
  shows "holders held H = A"
proof (rule set_eqI)
  fix y :: "(nat + nat) \<times> pointer"
  show "y \<in> holders held H \<longleftrightarrow> y \<in> A" using assms by (cases y; cases "fst y") auto
qed

lemma holders_simps:
  "held t = None \<Longrightarrow> holders (held(t := Some x)) H = insert (Inl t, x) (holders held H)"
  "held t = Some x \<Longrightarrow> holders (held(t := None)) H = holders held H - {(Inl t, x)}"
  "holders held (insert (u, x) H) = insert (Inr u, x) (holders held H)"
  "holders held (H - {(u, x)}) = holders held H - {(Inr u, x)}"
  by (rule holders_eqI; auto)+

lemma pool_inv_live: "pool_inv fl held H p \<Longrightarrow> held t = Some x \<Longrightarrow> \<exists>c. heap p x = Some c \<and> good_client fl c"
  unfolding pool_inv_def all_good_def
  by (metis holders_mem(1) owned_live domD)

lemma GetClientPtr_good:
  assumes "GetClientPtr malloc new_client p w = (x, p', w')" and "all_good fl p"
    and "\<And>w c w'. new_client w = (c, w') \<Longrightarrow> good_client fl c"
  shows "all_good fl p'"
  using assms by (auto simp: GetClientPtr_def all_good_def Let_def split: if_splits prod.splits)

lemma release_good: "all_good fl p \<Longrightarrow> all_good fl (release_client x b p)"
  by (auto simp: release_client_def drop_client_def FreeClientPtr_def all_good_def split: if_splits)

lemma pool_act_inv:
  assumes "pool_act fl malloc new_client (held t) h' p p'" and "pool_inv fl held H p" and "allocates malloc"
    and "\<And>w c w'. new_client w = (c, w') \<Longrightarrow> good_client fl c"
  shows "pool_inv fl (held(t := h')) H p'"
  using assms(1)
proof (cases rule: pool_act.cases)
  case idle
  then show ?thesis using assms(2) by (metis fun_upd_triv)
next
  case (uses x c c')
  then have "held(t := h') = held" by (metis fun_upd_triv)
  with uses assms(2) show ?thesis by (auto simp: pool_inv_def all_good_def insert_absorb domI)
next
  case (borrows w x w')
  then show ?thesis
    using pool.acquire_owned[OF assms(3), of p "holders held H" new_client w x p' w' "Inl t"] assms(2)
      GetClientPtr_good[OF borrows(3) _ assms(4)]
    by (simp add: pool_inv_def holders_simps(1))
next
  case (returns x b)
  then show ?thesis
    using pool.release_owned[of p "holders held H" "Inl t" x b] assms(2)
    by (simp add: pool_inv_def holders_simps release_good)
qed

text \<open>A step leaves the clients alone that others hold.\<close>

lemma pool_act_frame:
  assumes "pool_act fl malloc new_client (held t) h' p p'" and "pool_inv fl held H p" and "allocates malloc"
    and "u \<noteq> t" and "held u = Some y"
  shows "heap p' y = heap p y"
proof -
  have own: "owned (m_client_set p) (dom (heap p)) (holders held H)" using assms(2) by (simp add: pool_inv_def)
  have y: "y \<in> dom (heap p)" "y \<notin> m_client_set p"
    using own assms(5) owned_live[OF own, of "Inl u" y]
    by (auto simp: owned_def) (metis assms(5) disjoint_iff holders_mem(1) image_eqI snd_conv)
  have other: "x \<noteq> y" if "held t = Some x" for x
    using owned_holder[OF own, of "Inl t" y "Inl u"] that assms(4,5) by auto
  from assms(1) show ?thesis
  proof (cases rule: pool_act.cases)
    case (borrows w x w')
    have fin: "finite (dom (heap p))" "m_client_set p \<subseteq> dom (heap p)" using own by (auto simp: owned_def)
    have "malloc (dom (heap p)) \<noteq> y" using assms(3) fin(1) y(1) by (auto simp: allocates_def)
    then show ?thesis using borrows(3) by (auto simp: GetClientPtr_def Let_def split: if_splits prod.splits)
  qed (use other in \<open>auto simp: release_client_def drop_client_def FreeClientPtr_def split: if_splits\<close>)
qed

section \<open>What a step of a thread keeps\<close>

text \<open>
  How many steps of its own a thread has left at most, where it is; \<open>m\<close> and \<open>r\<close> are the
  numbers of retries of the two wrappers.
\<close>

fun steps_left :: "nat \<Rightarrow> nat \<Rightarrow> order_pc \<Rightarrow> nat" where
  "steps_left m r O_start = 2 * m + 2 * r + 9"
| "steps_left m r O_authen_get = 2 * m + 2 * r + 8"
| "steps_left m r (O_authen_call p n ret) = 2 * nat n + 2 * r + 8"
| "steps_left m r (O_authen_connect p n ret) = 2 * nat n + 2 * r + 7"
| "steps_left m r (O_authen_put p b ret) = 2 * r + 6"
| "steps_left m r O_stamp = 2 * r + 5"
| "steps_left m r (O_clock access) = 2 * r + 4"
| "steps_left m r (O_trade_get q) = 2 * r + 3"
| "steps_left m r (O_trade_call p n q a) = 2 * nat n + 3"
| "steps_left m r (O_trade_connect p n q a) = 2 * nat n + 2"
| "steps_left m r (O_trade_put p b a) = 1"
| "steps_left m r (O_done x) = 0"

text \<open>A thread that is about to send has retries left and a connected client.\<close>

definition connected_at :: "client_pool \<Rightarrow> pointer \<Rightarrow> bool" where
  "connected_at pool p \<longleftrightarrow> (\<exists>c k. heap pool p = Some c \<and> m_client c = Some k)"

fun ready_at :: "flags \<Rightarrow> order_pc \<Rightarrow> client_pool \<Rightarrow> client_pool \<Rightarrow> bool" where
  "ready_at fl (O_authen_connect p n ret) ac tc = (0 \<le> n \<and> n \<le> FLAGS_m_retry_times fl)"
| "ready_at fl (O_authen_call p n ret) ac tc = (0 \<le> n \<and> n < FLAGS_m_retry_times fl \<and> connected_at ac p)"
| "ready_at fl (O_trade_connect p n q a) ac tc = (0 \<le> n \<and> n \<le> FLAGS_rpc_call_times fl)"
| "ready_at fl (O_trade_call p n q a) ac tc = (0 \<le> n \<and> n < FLAGS_rpc_call_times fl \<and> connected_at tc p)"
| "ready_at fl pc ac tc = True"

abbreviation authen_act :: "('w, 'j) environment \<Rightarrow> pointer option \<Rightarrow> pointer option \<Rightarrow> client_pool \<Rightarrow> client_pool \<Rightarrow> bool" where
  "authen_act env \<equiv> pool_act (env_flags env) (env_malloc env) (new_authen env)"

abbreviation trade_act :: "('w, 'j) environment \<Rightarrow> pointer option \<Rightarrow> pointer option \<Rightarrow> client_pool \<Rightarrow> client_pool \<Rightarrow> bool" where
  "trade_act env \<equiv> pool_act (env_flags env) (env_malloc env) (new_trade env)"

text \<open>What a step does, seen from the two pools and from its own measure.\<close>

definition acts ::
  "('w, 'j) environment \<Rightarrow> order_pc \<Rightarrow> 'w proxy_state \<Rightarrow> order_pc \<Rightarrow> 'w proxy_state \<Rightarrow> bool" where
  "acts env pc st pc' st' \<longleftrightarrow>
     authen_act env (authen_held pc) (authen_held pc') (authen_clients st) (authen_clients st') \<and>
     trade_act env (trade_held pc) (trade_held pc') (trade_clients st) (trade_clients st') \<and>
     ready_at (env_flags env) pc' (authen_clients st') (trade_clients st') \<and>
     (let m = nat (FLAGS_m_retry_times (env_flags env)); r = nat (FLAGS_rpc_call_times (env_flags env))
      in steps_left m r pc' < steps_left m r pc)"

lemma connected_at_put [simp]: "connected_at (p\<lparr>heap := h(x \<mapsto> c)\<rparr>) x \<longleftrightarrow> m_client c \<noteq> None"
  by (auto simp: connected_at_def)

lemma InitClient_good:
  assumes "good_client fl c"
  shows "SPTradeInfo_InitClient net fl c w = (b, c', w') \<Longrightarrow> good_client fl c' \<and> (b \<longrightarrow> m_client c' \<noteq> None)"
    and "Authen_InitClient net fl c w = (b, c', w') \<Longrightarrow> good_client fl c' \<and> (b \<longrightarrow> m_client c' \<noteq> None)"
  using assms SPTradeInfo_InitClient_ok Authen_InitClient_ok unfolding good_client_def
  by (metis client_ok_def)+

lemma good_client_failed [simp]: "good_client fl c \<Longrightarrow> good_client fl (c\<lparr>m_is_inited := False\<rparr>)"
  by (simp add: good_client_def)

lemma good_retries: "good_client fl c \<Longrightarrow> m_retry_time c = FLAGS_m_retry_times fl"
  by (simp add: good_client_def)

lemma authen_get_acts:
  assumes "env_ok env" "all_good (env_flags env) (authen_clients st)" "authen_get env st = Some (pc', st')"
  shows "acts env O_authen_get st pc' st'"
proof -
  obtain x p w where get: "GetClientPtr (env_malloc env) (new_authen env) (authen_clients st) (outside st) = (x, p, w)"
    by (cases "GetClientPtr (env_malloc env) (new_authen env) (authen_clients st) (outside st)") auto
  with assms(3) obtain c where c: "heap p x = Some c" and
    res: "pc' = O_authen_connect x (m_retry_time c) (auth_UNKNOWN (env_enumerators env))"
      "st' = st\<lparr>authen_clients := p, outside := w\<rparr>"
    by (auto simp: authen_get_def split: option.splits)
  have "all_good (env_flags env) p" using get assms(2) new_clients_good(2) by (rule GetClientPtr_good)
  with c have "m_retry_time c = FLAGS_m_retry_times (env_flags env)" by (auto simp: all_good_def good_client_def)
  then show ?thesis using res get assms(1) by (auto simp: acts_def env_ok_def intro: pool_act.intros)
qed

lemma trade_get_acts:
  assumes "env_ok env" "all_good (env_flags env) (trade_clients st)" "trade_get env q st = Some (pc', st')"
  shows "acts env (O_trade_get q) st pc' st'"
proof -
  obtain x p w where get: "GetClientPtr (env_malloc env) (new_trade env) (trade_clients st) (outside st) = (x, p, w)"
    by (cases "GetClientPtr (env_malloc env) (new_trade env) (trade_clients st) (outside st)") auto
  with assms(3) obtain c where c: "heap p x = Some c" and
    res: "pc' = O_trade_connect x (FLAGS_rpc_call_times (env_flags env)) q (new_AddOrderResp env)"
      "st' = st\<lparr>trade_clients := p, outside := w\<rparr>"
    by (auto simp: trade_get_def split: option.splits)
  then show ?thesis using get assms(1) by (auto simp: acts_def env_ok_def intro: pool_act.intros)
qed

lemma authen_connect_acts:
  assumes "all_good (env_flags env) (authen_clients st)"
    and "ready_at (env_flags env) (O_authen_connect p n ret) (authen_clients st) (trade_clients st)"
    and "authen_connect env p n ret st = Some (pc', st')"
  shows "acts env (O_authen_connect p n ret) st pc' st'"
proof (cases "n = 0")
  case True
  then show ?thesis using assms(3) by (auto simp: authen_connect_def acts_def Let_def intro: pool_act.intros)
next
  case False
  with assms(2,3) obtain c where c: "heap (authen_clients st) p = Some c"
    by (auto simp: authen_connect_def split: option.splits if_splits)
  obtain b c' w' where i: "Authen_InitClient (env_network env) (env_flags env) c (outside st) = (b, c', w')"
    by (cases "Authen_InitClient (env_network env) (env_flags env) c (outside st)") auto
  have good: "good_client (env_flags env) c'" "b \<Longrightarrow> m_client c' \<noteq> None"
    using InitClient_good(2)[OF _ i] assms(1) c by (auto simp: all_good_def)
  have "authen_act env (Some p) (Some p) (authen_clients st) ((authen_clients st)\<lparr>heap := (heap (authen_clients st))(p \<mapsto> c')\<rparr>)"
    using c good(1) by (rule pool_act.uses)
  then show ?thesis using assms(2,3) False c i good(2)
    by (auto simp: authen_connect_def acts_def put_authen_def Let_def intro: pool_act.idle)
qed

lemma trade_connect_acts:
  assumes "all_good (env_flags env) (trade_clients st)"
    and "ready_at (env_flags env) (O_trade_connect p n q a) (authen_clients st) (trade_clients st)"
    and "trade_connect env p n q a st = Some (pc', st')"
  shows "acts env (O_trade_connect p n q a) st pc' st'"
proof (cases "n = 0")
  case True
  then show ?thesis using assms(3) by (auto simp: trade_connect_def acts_def Let_def intro: pool_act.intros)
next
  case False
  with assms(2,3) obtain c where c: "heap (trade_clients st) p = Some c"
    by (auto simp: trade_connect_def split: option.splits if_splits)
  obtain b c' w' where i: "SPTradeInfo_InitClient (env_network env) (env_flags env) c (outside st) = (b, c', w')"
    by (cases "SPTradeInfo_InitClient (env_network env) (env_flags env) c (outside st)") auto
  have good: "good_client (env_flags env) c'" "b \<Longrightarrow> m_client c' \<noteq> None"
    using InitClient_good(1)[OF _ i] assms(1) c by (auto simp: all_good_def)
  have "trade_act env (Some p) (Some p) (trade_clients st) ((trade_clients st)\<lparr>heap := (heap (trade_clients st))(p \<mapsto> c')\<rparr>)"
    using c good(1) by (rule pool_act.uses)
  then show ?thesis using assms(2,3) False c i good(2)
    by (auto simp: trade_connect_def acts_def put_trade_def Let_def intro: pool_act.idle)
qed

lemma authen_call_acts:
  assumes "all_good (env_flags env) (authen_clients st)"
    and "ready_at (env_flags env) (O_authen_call p n ret) (authen_clients st) (trade_clients st)"
    and "authen_call env session p n ret st = Some (evs, pc', st')"
  shows "acts env (O_authen_call p n ret) st pc' st'"
proof -
  from assms(3) obtain c where c: "heap (authen_clients st) p = Some c"
    by (auto simp: authen_call_def split: option.splits)
  with assms(1) have good: "good_client (env_flags env) c" by (auto simp: all_good_def)
  have "authen_act env (Some p) (Some p) (authen_clients st) ((authen_clients st)\<lparr>heap := (heap (authen_clients st))(p \<mapsto> c')\<rparr>)"
    if "good_client (env_flags env) c'" for c'
    using c that by (rule pool_act.uses)
  from this[OF good] this[OF good_client_failed[OF good]] show ?thesis using assms(2,3) c
    by (auto simp: authen_call_def acts_def put_authen_def Let_def intro: pool_act.idle
        split: option.splits prod.splits if_splits)
qed

lemma trade_call_acts:
  assumes "all_good (env_flags env) (trade_clients st)"
    and "ready_at (env_flags env) (O_trade_call p n q a) (authen_clients st) (trade_clients st)"
    and "trade_call env p n q a st = Some (evs, pc', st')"
  shows "acts env (O_trade_call p n q a) st pc' st'"
proof -
  from assms(3) obtain c where c: "heap (trade_clients st) p = Some c"
    by (auto simp: trade_call_def split: option.splits)
  with assms(1) have good: "good_client (env_flags env) c" by (auto simp: all_good_def)
  have "trade_act env (Some p) (Some p) (trade_clients st) ((trade_clients st)\<lparr>heap := (heap (trade_clients st))(p \<mapsto> c')\<rparr>)"
    if "good_client (env_flags env) c'" for c'
    using c that by (rule pool_act.uses)
  from this[OF good] this[OF good_client_failed[OF good]] show ?thesis using assms(2,3) c
    by (auto simp: trade_call_def acts_def put_trade_def Let_def intro: pool_act.idle
        split: option.splits prod.splits if_splits)
qed

lemma order_step_acts:
  assumes "env_ok env" "all_good (env_flags env) (authen_clients st)" "all_good (env_flags env) (trade_clients st)"
    and "ready_at (env_flags env) pc (authen_clients st) (trade_clients st)" and "\<not> is_done pc"
    and "trade_session req \<noteq> None"
    and "order_step env req resp pc st = Some (evs, pc', st')"
  shows "acts env pc st pc' st'"
proof -
  obtain session where s: "trade_session req = Some session" using assms(6) by blast
  show ?thesis
  proof (cases pc)
    case O_authen_get
    then show ?thesis using assms s authen_get_acts[OF assms(1,2)] by (auto simp: order_step_def silent_def)
  next
    case (O_authen_connect p n ret)
    then show ?thesis using assms s authen_connect_acts[OF assms(2)] by (auto simp: order_step_def silent_def)
  next
    case (O_authen_call p n ret)
    then show ?thesis using assms s authen_call_acts[OF assms(2)] by (auto simp: order_step_def)
  next
    case (O_trade_get q)
    then show ?thesis using assms s trade_get_acts[OF assms(1,3)] by (auto simp: order_step_def silent_def)
  next
    case (O_trade_connect p n q a)
    then show ?thesis using assms s trade_connect_acts[OF assms(3)] by (auto simp: order_step_def silent_def)
  next
    case (O_trade_call p n q a)
    then show ?thesis using assms s trade_call_acts[OF assms(3)] by (auto simp: order_step_def)
  qed (use assms(5,7) s in \<open>auto simp: order_step_def acts_def Let_def is_done_def access_info_def GenerateUniqueID_def intro: pool_act.intros
      split: option.splits if_splits prod.splits\<close>)
qed

section \<open>The invariant of all threads\<close>

text \<open>What the others do to a pool.\<close>

lemma pool_step_frame:
  assumes "pool_step malloc new_client (p, H, w) (p', H', w')" and "pool_inv fl held H p"
    and "allocates malloc" and "all_good fl p'"
  shows "pool_inv fl held H' p' \<and> (held t = Some y \<longrightarrow> heap p' y = heap p y)"
proof -
  have own: "owned (m_client_set p) (dom (heap p)) (holders held H)" using assms(2) by (simp add: pool_inv_def)
  have other: "x \<noteq> y" if "held t = Some y" "(u, x) \<in> H" for u x
    using owned_holder[OF own, of "Inl t" y "Inr u"] that by auto
  from assms(1) show ?thesis
  proof (cases rule: pool_step.cases)
    case (borrow client t')
    have fin: "finite (dom (heap p))" "m_client_set p \<subseteq> dom (heap p)" using own by (auto simp: owned_def)
    have "heap p' y = heap p y" if "held t = Some y"
    proof -
      have "y \<in> dom (heap p)" by (rule owned_live[OF own, of "Inl t"]) (simp add: that)
      then have "malloc (dom (heap p)) \<noteq> y" using assms(3) fin(1) by (auto simp: allocates_def)
      then show ?thesis using borrow(2) by (auto simp: GetClientPtr_def Let_def split: if_splits prod.splits)
    qed
    moreover have "owned (m_client_set p') (dom (heap p')) (insert (Inr t', client) (holders held H))"
      using pool.acquire_owned[OF assms(3) own borrow(2)] by blast
    ultimately show ?thesis using borrow(1) assms(4) by (simp add: pool_inv_def holders_simps)
  next
    case (use_client t' client c c')
    then show ?thesis using own assms(4) other by (auto simp: pool_inv_def insert_absorb domI)
  next
    case (hand_back t' client usable)
    have "owned (m_client_set p') (dom (heap p')) (holders held H - {(Inr t', client)})"
      using pool.release_owned[OF own, of "Inr t'" client usable] hand_back by simp
    moreover have "heap p' y = heap p y" if "held t = Some y"
      using other[OF that hand_back(4)] hand_back(1)
      by (auto simp: release_client_def drop_client_def FreeClientPtr_def split: if_splits)
    ultimately show ?thesis using hand_back assms(4) by (simp add: pool_inv_def holders_simps)
  qed
qed

lemma ready_at_frame:
  assumes "ready_at fl pc ac tc"
    and "\<And>x. authen_held pc = Some x \<Longrightarrow> heap ac' x = heap ac x"
    and "\<And>x. trade_held pc = Some x \<Longrightarrow> heap tc' x = heap tc x"
  shows "ready_at fl pc ac' tc'"
  using assms by (cases pc) (auto simp: connected_at_def)

definition thread_ok :: "flags \<Rightarrow> FuturesTradeRequest \<Rightarrow> client_pool \<Rightarrow> client_pool \<Rightarrow> order_pc \<Rightarrow> nat \<Rightarrow> bool" where
  "thread_ok fl req ac tc pc taken \<longleftrightarrow>
     ready_at fl pc ac tc \<and> (pc \<noteq> O_start \<and> \<not> is_done pc \<longrightarrow> trade_session req \<noteq> None) \<and>
     (let m = nat (FLAGS_m_retry_times fl); r = nat (FLAGS_rpc_call_times fl)
      in taken + steps_left m r pc \<le> 2 * m + 2 * r + 9)"

definition threads_inv :: "('w, 'j) environment \<Rightarrow> (nat \<Rightarrow> FuturesTradeRequest) \<Rightarrow> 'w threads \<Rightarrow> bool" where
  "threads_inv env reqs s \<longleftrightarrow>
     pool_inv (env_flags env) (\<lambda>t. authen_held (pcs s t)) (authen_lent s) (authen_clients (shared s)) \<and>
     pool_inv (env_flags env) (\<lambda>t. trade_held (pcs s t)) (trade_lent s) (trade_clients (shared s)) \<and>
     (\<forall>t. thread_ok (env_flags env) (reqs t) (authen_clients (shared s)) (trade_clients (shared s))
        (pcs s t) (steps_taken s t))"

lemma order_step_no_session:
  assumes "trade_session req = None" "order_step env req resp O_start st = Some (evs, pc', st')"
  shows "acts env O_start st pc' st'"
  using assms by (auto simp: order_step_def acts_def Let_def intro: pool_act.intros)

lemma order_step_thread_ok:
  assumes "env_ok env" "all_good (env_flags env) (authen_clients st)" "all_good (env_flags env) (trade_clients st)"
    and "thread_ok (env_flags env) req (authen_clients st) (trade_clients st) pc n" and "\<not> is_done pc"
    and "order_step env req resp pc st = Some (evs, pc', st')"
  shows "acts env pc st pc' st'"
    and "thread_ok (env_flags env) req (authen_clients st') (trade_clients st') pc' (Suc n)"
proof -
  show acts: "acts env pc st pc' st'"
  proof (cases "trade_session req")
    case None
    then have "pc = O_start" using assms(4,5) by (auto simp: thread_ok_def)
    then show ?thesis using order_step_no_session None assms(6) by blast
  next
    case Some
    then show ?thesis
      using order_step_acts[OF assms(1-3) _ assms(5) _ assms(6)] assms(4) by (simp add: thread_ok_def)
  qed
  have "trade_session req = None \<Longrightarrow> is_done pc'"
    using assms(6) by (auto simp: order_step_def is_done_def)
  then show "thread_ok (env_flags env) req (authen_clients st') (trade_clients st') pc' (Suc n)"
    using acts assms(4) by (auto simp: thread_ok_def acts_def Let_def)
qed

lemma start_inv:
  assumes "state_ok env st"
  shows "threads_inv env reqs (threads_start st)"
  using assms by (auto simp: threads_inv_def threads_start_def thread_ok_def pool_inv_def holders_def owned_def
      state_ok_def pool_ok_def all_good_def)

lemma threads_step_inv:
  assumes "threads_step env reqs resp s s'" and "threads_inv env reqs s" and "env_ok env"
  shows "threads_inv env reqs s'"
  using assms(1)
proof (cases rule: threads_step.cases)
  case (order t evs pc' st')
  have m: "allocates (env_malloc env)" using assms(3) by (simp add: env_ok_def)
  have pools: "pool_inv (env_flags env) (\<lambda>t. authen_held (pcs s t)) (authen_lent s) (authen_clients (shared s))"
    "pool_inv (env_flags env) (\<lambda>t. trade_held (pcs s t)) (trade_lent s) (trade_clients (shared s))"
    and ok: "\<And>t. thread_ok (env_flags env) (reqs t) (authen_clients (shared s)) (trade_clients (shared s))
      (pcs s t) (steps_taken s t)"
    using assms(2) unfolding threads_inv_def by blast+
  then have good: "all_good (env_flags env) (authen_clients (shared s))" "all_good (env_flags env) (trade_clients (shared s))"
    by (simp_all add: pool_inv_def)
  note step = order_step_thread_ok[OF assms(3) good ok order(2,3)]
  have a: "authen_act env (authen_held (pcs s t)) (authen_held pc') (authen_clients (shared s)) (authen_clients st')"
    and b: "trade_act env (trade_held (pcs s t)) (trade_held pc') (trade_clients (shared s)) (trade_clients st')"
    using step(1) by (simp_all add: acts_def)
  have others: "thread_ok (env_flags env) (reqs u) (authen_clients st') (trade_clients st') (pcs s u) (steps_taken s u)"
    if "u \<noteq> t" for u
    using ok[of u] ready_at_frame[of "env_flags env" "pcs s u" "authen_clients (shared s)" "trade_clients (shared s)"]
      pool_act_frame[where held = "\<lambda>t. authen_held (pcs s t)", OF a pools(1) m that]
      pool_act_frame[where held = "\<lambda>t. trade_held (pcs s t)", OF b pools(2) m that]
    by (simp add: thread_ok_def)
  have "pool_inv (env_flags env) ((\<lambda>t. authen_held (pcs s t))(t := authen_held pc')) (authen_lent s) (authen_clients st')"
    by (rule pool_act_inv[OF _ pools(1) m new_clients_good(2)]) (use a in auto)
  moreover have "pool_inv (env_flags env) ((\<lambda>t. trade_held (pcs s t))(t := trade_held pc')) (trade_lent s) (trade_clients st')"
    by (rule pool_act_inv[OF _ pools(2) m new_clients_good(1)]) (use b in auto)
  ultimately show ?thesis using order(1) others step(2)
    by (simp add: threads_inv_def fun_upd_def if_distrib)
next
  case (other_authen p H w)
  have m: "allocates (env_malloc env)" using assms(3) by (simp add: env_ok_def)
  note f = pool_step_frame[where held = "\<lambda>t. authen_held (pcs s t)", OF other_authen(2) _ m other_authen(3)]
  show ?thesis using assms(2) f other_authen(1) 
    by (auto simp: threads_inv_def thread_ok_def intro: ready_at_frame)
next
  case (other_trade p H w)
  have m: "allocates (env_malloc env)" using assms(3) by (simp add: env_ok_def)
  note f = pool_step_frame[where held = "\<lambda>t. trade_held (pcs s t)", OF other_trade(2) _ m other_trade(3)]
  show ?thesis using assms(2) f other_trade(1)
    by (auto simp: threads_inv_def thread_ok_def intro: ready_at_frame)
next
  case (world w)
  then show ?thesis using assms(2) by (simp add: threads_inv_def)
qed

lemma threads_reachable_inv:
  assumes "threads_reachable env reqs resp s" and "env_ok env"
  shows "threads_inv env reqs s"
  using assms(1)
proof (induction rule: threads_reachable.induct)
  case (start st)
  then show ?case by (rule start_inv)
next
  case (step s s')
  then show ?case using threads_step_inv assms(2) by blast
qed

section \<open>No thread gets stuck\<close>

lemma order_step_defined:
  assumes "env_ok env" and "pool_inv (env_flags env) ah ahs (authen_clients st)"
    and "pool_inv (env_flags env) th ths (trade_clients st)"
    and "ah t = authen_held pc" and "th t = trade_held pc"
    and "ready_at (env_flags env) pc (authen_clients st) (trade_clients st)"
    and "expected_signature env req \<noteq> None"
  shows "order_step env req resp pc st \<noteq> None"
proof (cases "trade_session req")
  case None
  then show ?thesis by (simp add: order_step_def)
next
  case (Some session)
  have m: "allocates (env_malloc env)" using assms(1) by (simp add: env_ok_def)
  have live: "authen_held pc = Some p \<Longrightarrow> \<exists>c. heap (authen_clients st) p = Some c"
    "trade_held pc = Some p \<Longrightarrow> \<exists>c. heap (trade_clients st) p = Some c" for p
    using pool_inv_live[OF assms(2), of t p] pool_inv_live[OF assms(3), of t p] assms(4,5) by auto
  have fin: "finite (dom (heap (authen_clients st)))" "m_client_set (authen_clients st) \<subseteq> dom (heap (authen_clients st))"
    "finite (dom (heap (trade_clients st)))" "m_client_set (trade_clients st) \<subseteq> dom (heap (trade_clients st))"
    using assms(2,3) by (auto simp: pool_inv_def owned_def)
  have got: "\<exists>c. heap p x = Some c"
    if "GetClientPtr (env_malloc env) new pool w = (x, p, w')" "finite (dom (heap pool))" "m_client_set pool \<subseteq> dom (heap pool)"
    for new and pool :: client_pool and w w' :: 'a and x p
    using GetClientPtr_acquires[OF that m] by blast
  show ?thesis
  proof (cases pc)
    case O_authen_get
    then show ?thesis using Some got[OF _ fin(1,2)]
      by (fastforce simp: order_step_def silent_def authen_get_def split: prod.splits option.splits)
  next
    case (O_trade_get q)
    then show ?thesis using Some got[OF _ fin(3,4)]
      by (fastforce simp: order_step_def silent_def trade_get_def split: prod.splits option.splits)
  qed (use Some live assms(6,7) in \<open>auto simp: order_step_def silent_def authen_connect_def authen_call_def
      trade_connect_def trade_call_def connected_at_def split: option.splits prod.splits\<close>)
qed

lemma pool_inv_apart:
  assumes "pool_inv fl held H p"
  shows "t \<noteq> u \<Longrightarrow> held t \<noteq> None \<Longrightarrow> held t \<noteq> held u" "held t = Some x \<Longrightarrow> x \<notin> m_client_set p"
proof -
  have own: "owned (m_client_set p) (dom (heap p)) (holders held H)" using assms by (simp add: pool_inv_def)
  show "held t \<noteq> held u" if "t \<noteq> u" "held t \<noteq> None"
    using owned_holder[OF own, of "Inl t" _ "Inl u"] that by auto
  show "x \<notin> m_client_set p" if "held t = Some x"
  proof -
    have "(Inl t, x) \<in> holders held H" using that by simp
    from imageI[OF this, of snd] own show ?thesis by (auto simp: owned_def)
  qed
qed

lemma reachable_step_defined:
  assumes "threads_reachable env reqs resp s" and "env_ok env"
    and "length (md5_buffer (stack_memory env)) = 64" and "length (signed_text (reqs t)) + 63 < 2 ^ 32"
  shows "order_step env (reqs t) resp (pcs s t) (shared s) \<noteq> None"
proof -
  have "pool_inv (env_flags env) (\<lambda>t. authen_held (pcs s t)) (authen_lent s) (authen_clients (shared s))"
    "pool_inv (env_flags env) (\<lambda>t. trade_held (pcs s t)) (trade_lent s) (trade_clients (shared s))"
    "ready_at (env_flags env) (pcs s t) (authen_clients (shared s)) (trade_clients (shared s))"
    using threads_reachable_inv[OF assms(1,2)] by (auto simp: threads_inv_def thread_ok_def)
  moreover have "expected_signature env (reqs t) \<noteq> None" using expected_signature_eq[OF assms(3,4)] by simp
  ultimately show ?thesis 
    using order_step_defined[where ah = "\<lambda>t. authen_held (pcs s t)" and th = "\<lambda>t. trade_held (pcs s t)"
      and t = t and pc = "pcs s t", OF assms(2)] by blast
qed

text \<open>
  Whatever the other threads do between its steps, a thread that enters an order never reaches a
  state in which the code would be undefined: in every reachable state each thread that has not
  answered yet can take its next step (its client is alive and, where it sends, connected; the
  retry counter does not overflow). In the same state no two threads hold the same client, and no
  thread holds a client that is idle in its pool. The allocator must be sound, the retry counts not
  negative and the signed text shorter than 4 GB.
\<close>

lemma threads_never_stuck:
  assumes "threads_reachable env reqs resp s" and "env_ok env"
    and "length (md5_buffer (stack_memory env)) = 64" and "length (signed_text (reqs t)) + 63 < 2 ^ 32"
  shows "order_step env (reqs t) resp (pcs s t) (shared s) \<noteq> None \<and>
    (t \<noteq> u \<longrightarrow> authen_held (pcs s t) \<noteq> None \<longrightarrow> authen_held (pcs s t) \<noteq> authen_held (pcs s u)) \<and>
    (t \<noteq> u \<longrightarrow> trade_held (pcs s t) \<noteq> None \<longrightarrow> trade_held (pcs s t) \<noteq> trade_held (pcs s u)) \<and>
    (\<forall>p. authen_held (pcs s t) = Some p \<longrightarrow> p \<notin> m_client_set (authen_clients (shared s))) \<and>
    (\<forall>p. trade_held (pcs s t) = Some p \<longrightarrow> p \<notin> m_client_set (trade_clients (shared s)))"
proof -
  have "pool_inv (env_flags env) (\<lambda>t. authen_held (pcs s t)) (authen_lent s) (authen_clients (shared s))"
    "pool_inv (env_flags env) (\<lambda>t. trade_held (pcs s t)) (trade_lent s) (trade_clients (shared s))"
    using threads_reachable_inv[OF assms(1,2)] by (auto simp: threads_inv_def)
  note apart = this[THEN pool_inv_apart(1)] this[THEN pool_inv_apart(2)]
  show ?thesis using reachable_step_defined[OF assms] apart by blast
qed

section \<open>Every thread comes to an end\<close>

lemma thread_finishes_alone:
  assumes "threads_reachable env reqs resp s" and "env_ok env"
    and "length (md5_buffer (stack_memory env)) = 64" and "length (signed_text (reqs t)) + 63 < 2 ^ 32"
  shows "\<exists>n r st'. order_run env (reqs t) resp n (pcs s t) (shared s) = Some (O_done r, st') \<and>
    n \<le> steps_left (nat (FLAGS_m_retry_times (env_flags env))) (nat (FLAGS_rpc_call_times (env_flags env))) (pcs s t)"
  using assms(1)
proof (induction "steps_left (nat (FLAGS_m_retry_times (env_flags env))) (nat (FLAGS_rpc_call_times (env_flags env))) (pcs s t)"
    arbitrary: s rule: less_induct)
  case less
  show ?case
  proof (cases "is_done (pcs s t)")
    case True
    then obtain r where "pcs s t = O_done r" by (cases "pcs s t") (auto simp: is_done_def)
    then have "order_run env (reqs t) resp 0 (pcs s t) (shared s) = Some (O_done r, shared s)" by simp
    then show ?thesis by (metis le0)
  next
    case False
    obtain evs pc' st' where step: "order_step env (reqs t) resp (pcs s t) (shared s) = Some (evs, pc', st')"
      using reachable_step_defined[OF less.prems assms(2-4)] by auto
    let ?s = "s\<lparr>pcs := (pcs s)(t := pc'), shared := st', events := events s @ map (Pair t) evs,
      steps_taken := (steps_taken s)(t := Suc (steps_taken s t))\<rparr>"
    have reach: "threads_reachable env reqs resp ?s"
      using less.prems threads_step.order[where s = s and t = t and reqs = reqs, OF False step] by (rule threads_reachable.step)
    have "acts env (pcs s t) (shared s) pc' st'"
      using order_step_thread_ok(1)[OF assms(2) _ _ _ False step] threads_reachable_inv[OF less.prems assms(2)]
      by (auto simp: threads_inv_def pool_inv_def)
    then have fewer: "steps_left (nat (FLAGS_m_retry_times (env_flags env))) (nat (FLAGS_rpc_call_times (env_flags env))) pc' <
      steps_left (nat (FLAGS_m_retry_times (env_flags env))) (nat (FLAGS_rpc_call_times (env_flags env))) (pcs s t)"
      by (simp add: acts_def Let_def)
    then obtain n r st'' where run: "order_run env (reqs t) resp n pc' st' = Some (O_done r, st'')"
      and n: "n \<le> steps_left (nat (FLAGS_m_retry_times (env_flags env))) (nat (FLAGS_rpc_call_times (env_flags env))) pc'"
      using less.hyps[OF _ reach] by auto
    have "order_run env (reqs t) resp (Suc n) (pcs s t) (shared s) = Some (O_done r, st'')" using step run by simp
    with n fewer show ?thesis by (meson Suc_leI le_less_trans)
  qed
qed


text \<open>
  Every thread that enters an order comes to an end, whatever the others, the network and the two
  services do: it never takes more than \<open>2 * m + 2 * r + 9\<close> steps, where \<open>m\<close> and \<open>r\<close> are the
  retries the flags \<^verbatim>\<open>m_retry_times\<close> and \<^verbatim>\<open>rpc_call_times\<close> allow, and from every
  reachable state at most the steps that remain of these, run by the thread alone, bring it to its
  answer: it never waits for another thread.
\<close>

lemma threads_terminate:
  assumes "threads_reachable env reqs resp s" and "env_ok env"
    and "length (md5_buffer (stack_memory env)) = 64" and "length (signed_text (reqs t)) + 63 < 2 ^ 32"
  shows "\<exists>n r st'. order_run env (reqs t) resp n (pcs s t) (shared s) = Some (O_done r, st') \<and>
    steps_taken s t + n \<le>
      2 * nat (FLAGS_m_retry_times (env_flags env)) + 2 * nat (FLAGS_rpc_call_times (env_flags env)) + 9"
proof -
  have "steps_taken s t + steps_left (nat (FLAGS_m_retry_times (env_flags env))) (nat (FLAGS_rpc_call_times (env_flags env))) (pcs s t) \<le>
      2 * nat (FLAGS_m_retry_times (env_flags env)) + 2 * nat (FLAGS_rpc_call_times (env_flags env)) + 9"
    using threads_reachable_inv[OF assms(1,2)] by (auto simp: threads_inv_def thread_ok_def Let_def)
  with thread_finishes_alone[OF assms] show ?thesis by (meson add_left_mono le_trans)
qed

section \<open>A run to evaluate on\<close>

lemma order_run_reaches:
  assumes "threads_reachable env reqs resp s" and "trade_session (reqs t) \<noteq> None"
    and "order_run env (reqs t) resp n (pcs s t) (shared s) = Some (pc, st)"
  shows "\<exists>s'. threads_reachable env reqs resp s' \<and> pcs s' = (pcs s)(t := pc) \<and> shared s' = st"
  using assms(1,3)
proof (induction n arbitrary: s)
  case 0
  then show ?case by (metis fun_upd_triv option.inject order_run.simps(1) prod.inject)
next
  case (Suc n)
  obtain evs pc' st' where step: "order_step env (reqs t) resp (pcs s t) (shared s) = Some (evs, pc', st')"
    using Suc.prems(2) by (auto split: option.splits)
  show ?case
  proof (cases "is_done (pcs s t)")
    case True
    then have "pc' = pcs s t" "st' = shared s"
      using step assms(2) by (auto simp: order_step_def is_done_def split: order_pc.splits option.splits)
    then show ?thesis using Suc.IH[OF Suc.prems(1)] Suc.prems(2) step by simp
  next
    case False
    let ?s = "s\<lparr>pcs := (pcs s)(t := pc'), shared := st', events := events s @ map (Pair t) evs,
      steps_taken := (steps_taken s)(t := Suc (steps_taken s t))\<rparr>"
    have reach: "threads_reachable env reqs resp ?s"
      using Suc.prems(1) threads_step.order[where s = s and t = t and reqs = reqs, OF False step]
      by (rule threads_reachable.step)
    have "order_run env (reqs t) resp n (pcs ?s t) (shared ?s) = Some (pc, st)" using Suc.prems(2) step by simp
    from Suc.IH[OF reach this] obtain s' where "threads_reachable env reqs resp s'"
      "pcs s' = (pcs ?s)(t := pc)" "shared s' = st" by blast
    moreover have "(pcs ?s)(t := pc) = (pcs s)(t := pc)" by simp
    ultimately show ?thesis by metis
  qed
qed

lemma open_env_simps:
  "env_flags open_env = default_flags" "env_enumerators open_env = sample_enumerators"
  "env_network open_env = sample_network False" "env_malloc open_env = next_address"
  "env_clock open_env = Pair 1" "rpc_AddOrder (env_trade open_env) = fails_first 0 \<lparr> addr_err_no = 0 \<rparr>"
  "env_authen open_env = (\<lambda>k session w. (Some 0, w))"
  by (auto simp: open_env_def sample_env_def sample_service_def)

lemma sample_trade_simps:
  "trade_signature (sample_trade x) = Some x"
  "trade_session (sample_trade x) = Some \<lparr> session_str = Some ''good'', uid = Some 1 \<rparr>"
  by (simp_all add: sample_trade_def)

lemma open_signature: "expected_signature open_env (sample_trade sample_signature) = Some sample_signature"
  using sample_signature_expected by (simp add: expected_signature_def open_env_def)

lemmas sample_step_simps =
  order_step_def silent_def authen_get_def authen_connect_def authen_call_def trade_get_def trade_connect_def
  trade_call_def put_authen_def put_trade_def GetClientPtr_def next_address_def
  AuthenClientPool_NewClientPtr_def new_AuthenServerWrapper_def Authen_InitClient_def unconnected_def
  SPTradeInfoClientPool_NewClientPtr_def new_SPTradeInfoWrapper_def SPTradeInfo_InitClient_def
  sample_network_def sample_enumerators_def access_info_def GenerateUniqueID_def fails_first_def calls_in_def
  sample_trade_simps open_signature open_env_simps

lemma sample_order_run:
  "\<exists>st c. order_run open_env (sample_trade sample_signature) blank_status_return 11 O_start sample_state =
     Some (O_done (trade_answer blank_status_return ErrCode_SUCCESS ''SUCCESS''), st) \<and>
     authen_clients st = \<lparr> m_client_set = {1}, heap = [1 \<mapsto> c] \<rparr>"
  by (simp add: eval_nat_numeral sample_state_def empty_pool_def sample_step_simps)
    (simp add: release_client_def FreeClientPtr_def drop_client_def, blast)

lemma sample_borrow_run:
  "authen_clients st = \<lparr> m_client_set = {1}, heap = [1 \<mapsto> c] \<rparr> \<Longrightarrow>
     \<exists>st' n r. order_run open_env (sample_trade sample_signature) blank_status_return 2 O_start st =
       Some (O_authen_connect 1 n r, st') \<and> authen_clients st' = \<lparr> m_client_set = {}, heap = [1 \<mapsto> c] \<rparr>"
  "authen_clients st = \<lparr> m_client_set = {}, heap = [1 \<mapsto> c] \<rparr> \<Longrightarrow>
     \<exists>st' n r. order_run open_env (sample_trade sample_signature) blank_status_return 2 O_start st =
       Some (O_authen_connect 2 n r, st')"
  by (simp_all add: eval_nat_numeral sample_step_simps)

lemma sample_threads_reachable:
  "\<exists>s n r n' r'. threads_reachable open_env (\<lambda>t. sample_trade sample_signature) blank_status_return s \<and>
     pcs s 0 = O_done (trade_answer blank_status_return ErrCode_SUCCESS ''SUCCESS'') \<and>
     pcs s 1 = O_authen_connect 1 n r \<and> pcs s 2 = O_authen_connect 2 n' r'"
proof -
  let ?reach = "threads_reachable open_env (\<lambda>t. sample_trade sample_signature) blank_status_return"
  have "state_ok open_env sample_state" by (simp add: state_ok_def sample_state_def)
  from threads_reachable.start[OF this] have s0: "?reach (threads_start sample_state)" .
  have start: "pcs (threads_start sample_state) t = O_start" "shared (threads_start sample_state) = sample_state" for t
    by (simp_all add: threads_start_def)
  note reaches = order_run_reaches[where reqs = "\<lambda>t. sample_trade sample_signature", simplified sample_trade_simps, simplified]
  obtain st c where r0: "order_run open_env (sample_trade sample_signature) blank_status_return 11 O_start sample_state =
      Some (O_done (trade_answer blank_status_return ErrCode_SUCCESS ''SUCCESS''), st)"
    and st: "authen_clients st = \<lparr> m_client_set = {1}, heap = [1 \<mapsto> c] \<rparr>" using sample_order_run by blast
  obtain s1 where s1: "?reach s1" "pcs s1 = (pcs (threads_start sample_state))(0 :=
      O_done (trade_answer blank_status_return ErrCode_SUCCESS ''SUCCESS''))" "shared s1 = st"
    using reaches[OF s0, of 11 0] r0 start by metis
  obtain st' n r where r1: "order_run open_env (sample_trade sample_signature) blank_status_return 2 O_start st =
      Some (O_authen_connect 1 n r, st')" and st': "authen_clients st' = \<lparr> m_client_set = {}, heap = [1 \<mapsto> c] \<rparr>"
    using sample_borrow_run(1)[OF st] by blast
  have "pcs s1 1 = O_start" "pcs s1 2 = O_start" using s1(2) start by simp_all
  then obtain s2 where s2: "?reach s2" "pcs s2 = (pcs s1)(1 := O_authen_connect 1 n r)" "shared s2 = st'"
    using reaches[OF s1(1), of 2 1] r1 s1(3) by metis
  obtain st'' n' r' where r2: "order_run open_env (sample_trade sample_signature) blank_status_return 2 O_start st' =
      Some (O_authen_connect 2 n' r', st'')"
    using sample_borrow_run(2)[OF st'] by blast
  have "pcs s2 2 = O_start" using s2(2) s1(2) start by simp
  then obtain s3 where s3: "?reach s3" "pcs s3 = (pcs s2)(2 := O_authen_connect 2 n' r')"
    using reaches[OF s2(1), of 2 2] r2 s2(3) by metis
  with s2(2) s1(2) show ?thesis by (intro exI[of _ s3]) simp
qed

lemma open_env_ok [simp]: "env_ok open_env"
  by (simp add: env_ok_def open_env_simps)

lemma open_env_short:
  "length (md5_buffer (stack_memory open_env)) = 64"
  "length (signed_text (sample_trade sample_signature)) + 63 < 2 ^ 32"
  by (simp_all add: open_env_def sample_env_def sample_md5_def signed_text_def sample_trade_def decimal_int_def decimal.simps)

theorem threads_never_stuck_witness:
  "\<exists>s :: (nat + nat) list threads. authen_held (pcs s 1) \<noteq> None \<and> authen_held (pcs s 1) \<noteq> authen_held (pcs s 2) \<and>
     1 \<notin> m_client_set (authen_clients (shared s)) \<and>
     order_step open_env (sample_trade sample_signature) blank_status_return (pcs s 1) (shared s) \<noteq> None"
proof -
  obtain s n r where s: "threads_reachable open_env (\<lambda>t. sample_trade sample_signature) blank_status_return s"
    "pcs s 1 = O_authen_connect 1 n r" using sample_threads_reachable by blast
  from threads_never_stuck[OF s(1) open_env_ok open_env_short, of 1 2] s(2) show ?thesis
    by (intro exI[of _ s]) simp
qed

theorem threads_terminate_witness:
  "\<exists>(s :: (nat + nat) list threads) n r st'. pcs s 1 \<noteq> O_start \<and>
     order_run open_env (sample_trade sample_signature) blank_status_return n (pcs s 1) (shared s) = Some (O_done r, st')"
proof -
  obtain s n r where s: "threads_reachable open_env (\<lambda>t. sample_trade sample_signature) blank_status_return s"
    "pcs s 1 = O_authen_connect 1 n r" using sample_threads_reachable by blast
  from threads_terminate[OF s(1) open_env_ok open_env_short, of 1] obtain n r st' where
    "order_run open_env (sample_trade sample_signature) blank_status_return n (pcs s 1) (shared s) = Some (O_done r, st')"
    by blast
  with s(2) show ?thesis by (metis order_pc.distinct(3))
qed

end
