(* ===== verification/Order_Logs.thy ===== *)
theory Order_Logs imports Order_Threads_Props
begin

text \<open>
  What the interleaved threads of \<open>Order_Threads_Props\<close> send to the two services: the log of
  each thread is one of a few shapes, and its response is a function of the log.
\<close>

section \<open>What every thread sends\<close>

definition thread_log :: "nat \<Rightarrow> 'w threads \<Rightarrow> order_event list" where
  "thread_log t s = map snd (filter (\<lambda>e. fst e = t) (events s))"

text \<open>
  The whole of what a thread may send once its session is confirmed: the check, \<open>k\<close> times the
  order without an answer, and perhaps the order with its answer.
\<close>

definition trade_log ::
  "('w, 'j) environment \<Rightarrow> LoginSession \<Rightarrow> AddOrderReq \<Rightarrow> nat \<Rightarrow> AddOrderResp option \<Rightarrow> order_event list" where
  "trade_log env session q k answered =
     Ev_checked (session_query session) (auth_SUCCESS (env_enumerators env)) #
     replicate k (Ev_order q None) @ (case answered of None \<Rightarrow> [] | Some a \<Rightarrow> [Ev_order q (Some a)])"

definition is_signed :: "('w, 'j) environment \<Rightarrow> FuturesTradeRequest \<Rightarrow> bool" where
  "is_signed env req \<longleftrightarrow> expected_signature env req = Some (str_field (trade_signature req))"

text \<open>An order that the request describes, the request being signed.\<close>

definition order_of :: "('w, 'j) environment \<Rightarrow> FuturesTradeRequest \<Rightarrow> LoginSession \<Rightarrow> AddOrderReq \<Rightarrow> bool" where
  "order_of env req session q \<longleftrightarrow>
     is_signed env req \<and> (\<exists>access tp. q = add_order_req env req session access tp)"

definition tries :: "nat \<Rightarrow> AddOrderResp option \<Rightarrow> nat" where
  "tries k answered = (case answered of None \<Rightarrow> k | Some a \<Rightarrow> Suc k)"

definition order_result :: "('w, 'j) environment \<Rightarrow> FuturesTradeReturn \<Rightarrow> AddOrderResp option \<Rightarrow> FuturesTradeReturn" where
  "order_result env resp answered = (case answered of
       None \<Rightarrow> trade_answer resp ErrCode_FUTURES_INFO_BUSY ''FUTURES INFO BUSY''
     | Some a \<Rightarrow> if addr_err_no a = trade_SUCCESS (env_enumerators env)
                 then trade_answer resp ErrCode_SUCCESS ''SUCCESS''
                 else trade_answer resp ErrCode_FUTURES_TRADE_ERR ''TRADE ERROR'')"

fun log_ok :: "('w, 'j) environment \<Rightarrow> FuturesTradeRequest \<Rightarrow> FuturesTradeReturn \<Rightarrow> LoginSession \<Rightarrow>
    order_pc \<Rightarrow> order_event list \<Rightarrow> bool" where
  "log_ok env req resp s O_start l = (l = [])"
| "log_ok env req resp s O_authen_get l = (l = [] \<and> is_signed env req)"
| "log_ok env req resp s (O_authen_connect p n ret) l =
     (l = [] \<and> is_signed env req \<and> ret = auth_UNKNOWN (env_enumerators env))"
| "log_ok env req resp s (O_authen_call p n ret) l =
     (l = [] \<and> is_signed env req \<and> ret = auth_UNKNOWN (env_enumerators env))"
| "log_ok env req resp s (O_authen_put p b ret) l = (is_signed env req \<and>
     (l = [] \<and> ret = auth_UNKNOWN (env_enumerators env) \<or> l = [Ev_checked (session_query s) ret]))"
| "log_ok env req resp s O_stamp l =
     (is_signed env req \<and> l = [Ev_checked (session_query s) (auth_SUCCESS (env_enumerators env))])"
| "log_ok env req resp s (O_clock access) l =
     (is_signed env req \<and> l = [Ev_checked (session_query s) (auth_SUCCESS (env_enumerators env))])"
| "log_ok env req resp s (O_trade_get q) l = (order_of env req s q \<and> l = trade_log env s q 0 None)"
| "log_ok env req resp s (O_trade_connect p n q a) l = (order_of env req s q \<and>
     (\<exists>k. l = trade_log env s q k None \<and> int k + n \<le> FLAGS_rpc_call_times (env_flags env)))"
| "log_ok env req resp s (O_trade_call p n q a) l = (order_of env req s q \<and>
     (\<exists>k. l = trade_log env s q k None \<and> int k + n < FLAGS_rpc_call_times (env_flags env)))"
| "log_ok env req resp s (O_trade_put p b a) l = (\<exists>q k. order_of env req s q \<and>
     l = trade_log env s q k (if b then Some a else None) \<and>
     int (tries k (if b then Some a else None)) \<le> FLAGS_rpc_call_times (env_flags env))"
| "log_ok env req resp s (O_done x) l =
     ((l = [] \<or> (\<exists>ret. l = [Ev_checked (session_query s) ret])) \<and>
        x \<in> {trade_answer resp ErrCode_FUTURES_SESSION_ERR ''VALIDATE ERROR'',
             trade_answer resp ErrCode_FUTURES_SESSION_ERR ''SESSION ERROR''} \<or>
      (\<exists>q k answered. order_of env req s q \<and> l = trade_log env s q k answered \<and>
        int (tries k answered) \<le> FLAGS_rpc_call_times (env_flags env) \<and> x = order_result env resp answered))"

lemma trade_log_append:
  "trade_log env s q k None @ [Ev_order q None] = trade_log env s q (Suc k) None"
  "trade_log env s q k None @ [Ev_order q (Some a)] = trade_log env s q k (Some a)"
  "[Ev_checked (session_query s) (auth_SUCCESS (env_enumerators env))] = trade_log env s q 0 None"
  by (simp_all add: trade_log_def replicate_append_same)

lemma order_step_log:
  assumes "order_step env req resp pc st = Some (evs, pc', st')" and "trade_session req = Some session"
    and "log_ok env req resp session pc l" and "0 \<le> FLAGS_rpc_call_times (env_flags env)"
    and "auth_UNKNOWN (env_enumerators env) \<noteq> auth_SUCCESS (env_enumerators env)"
    and "ready_at (env_flags env) pc (authen_clients st) (trade_clients st)"
  shows "log_ok env req resp session pc' (l @ evs)"
proof (cases pc)
  case O_start
  then show ?thesis using assms(1-3)
    by (auto simp: order_step_def is_signed_def split: option.splits if_splits)
next
  case O_authen_get
  then show ?thesis using assms(1-3)
    by (auto simp: order_step_def silent_def authen_get_def Let_def split: option.splits prod.splits)
next
  case (O_authen_connect p n ret)
  then show ?thesis using assms(1-3)
    by (auto simp: order_step_def silent_def authen_connect_def split: option.splits prod.splits if_splits)
next
  case (O_authen_call p n ret)
  then show ?thesis using assms(1-3)
    by (auto simp: order_step_def authen_call_def split: option.splits prod.splits if_splits)
next
  case (O_authen_put p b ret)
  then show ?thesis using assms(1-3,5) by (auto simp: order_step_def)
next
  case O_stamp
  then show ?thesis using assms(1-3) by (auto simp: order_step_def split: prod.splits)
next
  case (O_clock access)
  then show ?thesis using assms(1-3)
    by (auto simp: order_step_def order_of_def trade_log_append(3) split: prod.splits) blast+
next
  case (O_trade_get q)
  then show ?thesis using assms(1-3)
    by (auto simp: order_step_def silent_def trade_get_def Let_def split: option.splits prod.splits intro: exI[of _ 0])
next
  case (O_trade_connect p n q a)
  then obtain k where k: "order_of env req session q" "l = trade_log env session q k None"
    "int k + n \<le> FLAGS_rpc_call_times (env_flags env)" using assms(3) by auto
  from O_trade_connect assms(1,2) have "evs = []" and
    "pc' = O_trade_put p False a \<and> n = 0 \<or> pc' = O_trade_call p (n - 1) q a \<or> pc' = O_trade_connect p (n - 1) q a"
    by (auto simp: order_step_def silent_def trade_connect_def split: option.splits prod.splits if_splits)
  with k show ?thesis by (auto simp: tries_def intro!: exI[of _ q] exI[of _ k])
next
  case (O_trade_call p n q a)
  then obtain k where k: "order_of env req session q" "l = trade_log env session q k None"
    "int k + n < FLAGS_rpc_call_times (env_flags env)" using assms(3) by auto
  have "int (Suc k) + n \<le> FLAGS_rpc_call_times (env_flags env)" using k(3) by simp
  then show ?thesis using O_trade_call assms(1,2,6) k
    by (fastforce simp: order_step_def trade_call_def trade_log_append tries_def split: option.splits prod.splits if_splits)
next
  case (O_trade_put p b a)
  then show ?thesis using assms(1-3)
    by (fastforce simp: order_step_def order_result_def split: if_splits)
next
  case (O_done x)
  then show ?thesis using assms(1-3) by (auto simp: order_step_def)
qed

definition logs_inv :: "('w, 'j) environment \<Rightarrow> (nat \<Rightarrow> FuturesTradeRequest) \<Rightarrow> FuturesTradeReturn \<Rightarrow> 'w threads \<Rightarrow> bool" where
  "logs_inv env reqs resp s \<longleftrightarrow> (\<forall>t. case trade_session (reqs t) of
       None \<Rightarrow> thread_log t s = []
     | Some session \<Rightarrow> log_ok env (reqs t) resp session (pcs s t) (thread_log t s))"

lemma logs_invD:
  assumes "logs_inv env reqs resp s"
  shows "trade_session (reqs t) = None \<Longrightarrow> thread_log t s = []"
    and "trade_session (reqs t) = Some session \<Longrightarrow> log_ok env (reqs t) resp session (pcs s t) (thread_log t s)"
  using assms[unfolded logs_inv_def, rule_format, of t] by simp_all

lemma thread_log_step [simp]:
  "thread_log u (s\<lparr>pcs := a, shared := b, events := events s @ map (Pair t) evs, steps_taken := c\<rparr>) =
     thread_log u s @ (if u = t then evs else [])"
  by (induction evs arbitrary: s) (auto simp: thread_log_def o_def)

lemma logs_inv_cong:
  assumes "pcs s' = pcs s" and "events s' = events s"
  shows "logs_inv env reqs resp s' = logs_inv env reqs resp s"
  unfolding logs_inv_def thread_log_def assms ..

lemma threads_step_logs:
  assumes "threads_step env reqs resp s s'" and "logs_inv env reqs resp s" and "threads_inv env reqs s"
    and "env_ok env" and "auth_UNKNOWN (env_enumerators env) \<noteq> auth_SUCCESS (env_enumerators env)"
  shows "logs_inv env reqs resp s'"
  using assms(1)
proof (cases rule: threads_step.cases)
  case (order t evs pc' st')
  have ready: "ready_at (env_flags env) (pcs s t) (authen_clients (shared s)) (trade_clients (shared s))"
    using assms(3) by (auto simp: threads_inv_def thread_ok_def)
  have calls: "0 \<le> FLAGS_rpc_call_times (env_flags env)" using assms(4) by (simp add: env_ok_def)
  have this_one: "case trade_session (reqs t) of None \<Rightarrow> thread_log t s @ evs = []
     | Some session \<Rightarrow> log_ok env (reqs t) resp session pc' (thread_log t s @ evs)"
  proof (cases "trade_session (reqs t)")
    case None
    then have "thread_log t s = []" using assms(2) by (rule logs_invD(1)[rotated])
    then show ?thesis using None order(3) by (auto simp: order_step_def)
  next
    case (Some session)
    then have "log_ok env (reqs t) resp session (pcs s t) (thread_log t s)"
      using assms(2) by (rule logs_invD(2)[rotated])
    then show ?thesis using order_step_log[OF order(3) Some _ calls assms(5) ready] Some by simp
  qed
  have "case trade_session (reqs u) of None \<Rightarrow> thread_log u s' = []
     | Some session \<Rightarrow> log_ok env (reqs u) resp session (pcs s' u) (thread_log u s')" for u
    using this_one order(1) logs_invD[OF assms(2), of u] by (cases "u = t") (auto split: option.split)
  then show ?thesis by (simp add: logs_inv_def)
qed (use assms(2) logs_inv_cong[of s' s env reqs resp] in simp_all)

lemma threads_reachable_logs:
  assumes "threads_reachable env reqs resp s" and "env_ok env"
    and "auth_UNKNOWN (env_enumerators env) \<noteq> auth_SUCCESS (env_enumerators env)"
  shows "logs_inv env reqs resp s"
  using assms(1)
proof (induction rule: threads_reachable.induct)
  case (start st)
  then show ?case by (auto simp: logs_inv_def threads_start_def thread_log_def split: option.splits)
next
  case (step s s')
  then show ?case using threads_step_logs threads_reachable_inv assms(2,3) by blast
qed

lemma log_ok_sent:
  assumes "log_ok env req resp session pc l" and "ready_at (env_flags env) pc ac tc"
  shows "l = [] \<or> (\<exists>ret. l = [Ev_checked (session_query session) ret]) \<or>
    (\<exists>q k answered. order_of env req session q \<and> l = trade_log env session q k answered \<and>
       int (tries k answered) \<le> FLAGS_rpc_call_times (env_flags env))"
proof (cases pc)
  case (O_trade_get q)
  then show ?thesis using assms by (auto simp: trade_log_def)
next
  case (O_trade_connect p n q a)
  then obtain k where "order_of env req session q" "l = trade_log env session q k None"
    "int (tries k None) \<le> FLAGS_rpc_call_times (env_flags env)"
    using assms by (auto simp: tries_def)
  then show ?thesis by blast
next
  case (O_trade_call p n q a)
  then obtain k where "order_of env req session q" "l = trade_log env session q k None"
    "int (tries k None) \<le> FLAGS_rpc_call_times (env_flags env)"
    using assms by (auto simp: tries_def)
  then show ?thesis by blast
qed (use assms in auto)



end
