(* ===== verification/Program.thy ===== *)
theory Program imports Serving
begin

text \<open>
  The program: \<^verbatim>\<open>main\<close>, the part of the constructor of \<^verbatim>\<open>ServerBase\<close> that can fail,
  and \<^verbatim>\<open>run\<close>; and what holds of the server they start, for as long as it runs.
\<close>

section \<open>Starting the server\<close>

text \<open>
  boost::asio as the constructor uses it. \<open>resolve\<close> gives the first endpoint of an address, None
  when it throws; \<open>listens_on\<close> says whether the acceptor could be opened, bound and told to listen.
\<close>

record 'e tcp =
  resolve :: "string \<Rightarrow> string \<Rightarrow> 'e option"
  listens_on :: "'e \<Rightarrow> bool"

definition ServerBase_new :: "'e tcp \<Rightarrow> string \<Rightarrow> string \<Rightarrow> conn \<Rightarrow> int \<Rightarrow> 'w \<Rightarrow> 'w server option" where
  "ServerBase_new net address port mem now w =
     (case resolve net address port of
        None \<Rightarrow> None
      | Some endpoint \<Rightarrow> if listens_on net endpoint then Some (new_server mem now w) else None)"

text \<open>
  \<^verbatim>\<open>run\<close> starts \<^verbatim>\<open>WorkerThread\<close> in one thread per round of its loop and then runs
  the I/O service itself: the number of threads that run handlers.
\<close>

function start_workers :: "int \<Rightarrow> int \<Rightarrow> nat \<Rightarrow> nat" where
  "start_workers server_thread_num thread_index workers =
     (if thread_index < server_thread_num
      then start_workers server_thread_num (thread_index + 1) (Suc workers) else workers)"
  by pat_completeness auto

termination start_workers
  by (relation "measure (\<lambda>(n, i, k). nat (n - i))") auto

declare start_workers.simps [simp del]

definition ServerBase_run :: "int \<Rightarrow> nat" where
  "ServerBase_run server_thread_num = Suc (start_workers server_thread_num 0 0)"

definition default_server_thread_num :: int where
  "default_server_thread_num = 100"

text \<open>
  What the command line leaves: gflags ends the process for one it does not accept (None). \<open>services\<close>
  is what the flags make the business logic work on.
\<close>

datatype ('w, 'h) program_end = Exit int | Threw int | Serving 'h "'w server" nat

definition program_main ::
  "(string list \<Rightarrow> (flags \<times> int) option) \<Rightarrow> (flags \<Rightarrow> ('w, 'j) environment) \<Rightarrow> codecs \<Rightarrow> 'e tcp \<Rightarrow>
   conn \<Rightarrow> int \<Rightarrow> 'w \<Rightarrow> string list \<Rightarrow>
   ('w proxy_state option, 'w proxy_state option handler) program_end" where
  "program_main ParseCommandLineFlags services cs net mem now w argv =
     (case ParseCommandLineFlags argv of
        None \<Rightarrow> Exit 1
      | Some (fl, server_thread_num) \<Rightarrow>
          (let handler = new_RequestHandler (services fl) cs ''.''
           in case ServerBase_new net (FLAGS_listen_ip fl) (FLAGS_listen_port fl) mem now
                  (Some \<lparr> authen_clients = empty_pool, trade_clients = empty_pool, outside = w \<rparr>) of
                None \<Rightarrow> Threw 0
              | Some s \<Rightarrow> Serving handler s (ServerBase_run server_thread_num)))"

lemma start_workers_count: "start_workers n i k = k + nat (n - i)"
  by (induction n i k rule: start_workers.induct) (subst start_workers.simps, auto)

lemma ServerBase_run_threads: "ServerBase_run n = Suc (nat n)"
  by (simp add: ServerBase_run_def start_workers_count)

section \<open>What a step of the server does to the business state\<close>

lemma world_simps [simp]:
  "world (start_op op s) = world s" "world (finish_op op s) = world s" "world (put_conn c k s) = world s"
  "world (Connection_Stop c s) = world s" "world (DoClose c s) = world s" "world (Reply c k s) = world s"
  "world (Manager_Stop c s) = world s" "world (Manager_StopAll s) = world s" "world (Monitor_pass now s) = world s"
  "world (Manager_Start c remote s) = world s" "world (StartAcceptConnection mem now s) = world s"
  "world (HandleNewConnection e remote mem now s) = world s" "world (ServerStop s) = world s"
  "world (HandleRead_error c err s) = world s"
  by (simp_all add: start_op_def finish_op_def put_conn_def Connection_Stop_def DoClose_def Reply_def
      Manager_Stop_def Manager_StopAll_def Monitor_pass_def Manager_Start_def Connection_Start_def
      StartAcceptConnection_def HandleNewConnection_def ServerStop_def HandleRead_error_def Let_def)

text \<open>A registered function is the only thing that changes it.\<close>

definition runs_function :: "'w handler \<Rightarrow> 'w \<Rightarrow> 'w \<Rightarrow> bool" where
  "runs_function H w w' \<longleftrightarrow> w' = w \<or> (\<exists>path f body. m_handle_map H path = Some f \<and> w' = snd (f body w))"

lemma HandleRequest_world: "runs_function H w (snd (HandleRequest B H req rep w))"
  by (auto simp: runs_function_def HandleRequest_def ProccessReqFromHandle_def find_handle_def Let_def
      split: option.splits if_splits prod.splits) (metis snd_conv)+

lemma HandleRead_world:
  assumes "HandleRead B H now c dat s = Some s'"
  shows "runs_function H (world s) (world s')"
proof -
  obtain k where k: "conns s c = Some k" using assms by (auto simp: HandleRead_def split: option.splits)
  define k1 where "k1 = UpdateActivieTime now (k\<lparr>m_buffer := fill_buffer (m_buffer k) dat\<rparr>)"
  obtain res p r where parse: "parse B (m_request_parser k1) (m_request k1) (m_buffer k1) (length dat) = Some (res, p, r)"
    using assms k unfolding k1_def by (auto simp: HandleRead_def Let_def split: option.splits)
  have "world s' = world s" if "res \<noteq> Tri_true"
    using assms k parse that
    by (cases res) (auto simp: HandleRead_def k1_def[symmetric] Let_def split: if_splits)
  moreover have "\<exists>req rep. world s' = snd (HandleRequest B H req rep (world s))" if "res = Tri_true"
    using assms k parse that
    by (auto simp: HandleRead_def k1_def[symmetric] Let_def split: prod.splits) (metis snd_conv)+
  ultimately show ?thesis
    using HandleRequest_world[of H "world s" B] by (metis runs_function_def)
qed

lemma step_world:
  assumes "step B H s s'"
  shows "runs_function H (world s) (world s')"
  using assms
proof (cases rule: step.cases)
  case (read_done c dat now)
  then show ?thesis using HandleRead_world by fastforce
next
  case (write_done c bytes e)
  then show ?thesis by (auto simp: HandleWrite_def runs_function_def split: option.splits if_splits)
qed (auto simp: runs_function_def)

section \<open>The business state of a running program\<close>

definition keeps_pools :: "('w, 'j) environment \<Rightarrow> 'w proxy_state option handle_function \<Rightarrow> bool" where
  "keeps_pools env f \<longleftrightarrow> (\<forall>body st st'. state_ok env st \<longrightarrow> snd (f body (Some st)) = Some st' \<longrightarrow> state_ok env st') \<and>
     (\<forall>body. snd (f body None) = None)"

lemma ADD_HANDLE_keeps:
  assumes "\<And>req st resp st'. \<lbrakk>state_ok env st; f req st = Some (resp, st')\<rbrakk> \<Longrightarrow> state_ok env st'"
  shows "keeps_pools env (ADD_HANDLE codec f)"
  using assms by (auto simp: keeps_pools_def ADD_HANDLE_def split: option.splits)

lemma answers_keeps: "answers env x \<Longrightarrow> x = Some (resp, st) \<Longrightarrow> state_ok env st"
  by simp

lemma FuturesTrade_keeps:
  assumes "env_ok env" and "state_ok env st" and "FuturesTrade env req resp st = Some (resp', st')"
  shows "state_ok env st'"
proof (cases "trade_session req = None")
  case True
  then show ?thesis using assms by (simp add: FuturesTrade_def)
next
  case False
  then have "expected_signature env req \<noteq> None"
    using assms(3) by (auto simp: FuturesTrade_def Let_def split: option.splits)
  from FuturesTrade_signed_answered[OF assms(1,2) this, of resp] show ?thesis by (simp add: assms(3))
qed

lemma CancelPendingOrder_keeps:
  assumes "env_ok env" and "state_ok env st" and "CancelPendingOrder env req resp st = Some (resp', st')"
  shows "state_ok env st'"
proof (cases "atoi (cstr (str_field (cancel_order_id req)))")
  case (Some n)
  from CancelPendingOrder_answered[OF assms(1,2) this, of resp] show ?thesis by (simp add: assms(3))
next
  case None
  show ?thesis
  proof (cases "cancel_session req")
    case None
    then show ?thesis using assms by (simp add: CancelPendingOrder_def with_session_def)
  next
    case (Some session)
    obtain ret st1 where "ValidateSession env session st = Some (ret, st1)" "state_ok env st1"
      using ValidateSession_defined[OF assms(1,2)] by blast
    then show ?thesis using assms(3) None Some
      by (auto simp: CancelPendingOrder_def with_session_def split: if_splits prod.splits)
  qed
qed

lemma QuerySymbolByName_keeps:
  "state_ok env st \<Longrightarrow> QuerySymbolByName env req resp st = Some (resp', st') \<Longrightarrow> state_ok env st'"
  by (auto simp: QuerySymbolByName_def state_ok_def Let_def split: option.splits if_splits)

lemmas handle_defs =
  handle_QueryMyFuturesAssets_def handle_QueryUserStatus_def handle_QueryFuturesAccountConfig_def
  handle_QueryPendingOrders_def handle_QueryHoldingOrders_def handle_QueryOrderDetail_def
  handle_QueryTransactionRecord_def handle_FuturesTrade_def handle_CancelPendingOrder_def
  handle_QueryHistoryOrders_def handle_SymbolTypeRecommend_def handle_SymbolListByType_def
  handle_QuerySymbolByName_def handle_TradeConfirmInfo_def handle_QuerySymbolTradeInfo_def
  handle_QueryFifthOrder_def handle_QuerySymbolQuotations_def handle_FuturesGraph_def handle_FuturesKLine_def

lemmas stub_defs =
  SymbolTypeRecommend_def SymbolListByType_def QueryFifthOrder_def QuerySymbolQuotations_def
  FuturesGraph_def FuturesKLine_def

lemma stubs_keep:
  "state_ok env st \<Longrightarrow> SymbolTypeRecommend env q1 r st = Some (resp, st') \<Longrightarrow> state_ok env st'"
  "state_ok env st \<Longrightarrow> SymbolListByType env q2 r st = Some (resp, st') \<Longrightarrow> state_ok env st'"
  "state_ok env st \<Longrightarrow> QueryFifthOrder env q3 r st = Some (resp, st') \<Longrightarrow> state_ok env st'"
  "state_ok env st \<Longrightarrow> QuerySymbolQuotations env q4 r st = Some (resp, st') \<Longrightarrow> state_ok env st'"
  "state_ok env st \<Longrightarrow> FuturesGraph env q5 r st = Some (resp, st') \<Longrightarrow> state_ok env st'"
  "state_ok env st \<Longrightarrow> FuturesKLine env q6 r st = Some (resp, st') \<Longrightarrow> state_ok env st'"
  by (simp_all add: stub_defs)

lemma queries_keep:
  assumes "env_ok env"
  shows "state_ok env st \<Longrightarrow> QueryMyFuturesAssets env q1 r1 st = Some (p1, st') \<Longrightarrow> state_ok env st'"
    "state_ok env st \<Longrightarrow> QueryPendingOrders env q2 r2 st = Some (p2, st') \<Longrightarrow> state_ok env st'"
    "state_ok env st \<Longrightarrow> QueryHoldingOrders env q3 r3 st = Some (p3, st') \<Longrightarrow> state_ok env st'"
    "state_ok env st \<Longrightarrow> QueryOrderDetail env q4 r4 st = Some (p4, st') \<Longrightarrow> state_ok env st'"
    "state_ok env st \<Longrightarrow> QueryTransactionRecord env q5 r5 st = Some (p5, st') \<Longrightarrow> state_ok env st'"
    "state_ok env st \<Longrightarrow> QueryHistoryOrders env q6 r6 st = Some (p6, st') \<Longrightarrow> state_ok env st'"
    "state_ok env st \<Longrightarrow> QueryUserStatus env q7 r7 st = Some (p7, st') \<Longrightarrow> state_ok env st'"
    "state_ok env st \<Longrightarrow> QueryFuturesAccountConfig env q8 r8 st = Some (p8, st') \<Longrightarrow> state_ok env st'"
    "state_ok env st \<Longrightarrow> TradeConfirmInfo env q9 r9 st = Some (p9, st') \<Longrightarrow> state_ok env st'"
    "state_ok env st \<Longrightarrow> QuerySymbolTradeInfo env q10 r10 st = Some (p10, st') \<Longrightarrow> state_ok env st'"
  by (erule answers_keeps[rotated], erule queries_answered[OF assms])+

lemma handlers_keep:
  assumes "env_ok env" and "map_of (handle_table env cs) n = Some f"
  shows "keeps_pools env f"
proof -
  note keeps = queries_keep[OF assms(1)] FuturesTrade_keeps[OF assms(1)] CancelPendingOrder_keeps[OF assms(1)]
    QuerySymbolByName_keeps stubs_keep
  have "\<forall>f \<in> snd ` set (handle_table env cs). keeps_pools env f"
    unfolding handle_table_def
    by (simp, intro conjI; (rule ADD_HANDLE_keeps, unfold handle_defs, erule (1) keeps))
  moreover have "f \<in> snd ` set (handle_table env cs)" using map_of_SomeD[OF assms(2)] by force
  ultimately show ?thesis by blast
qed

text \<open>
  What messages and back ends must be like for every function to have a defined result: an order's
  signed text is below 4 GB (protocol buffers refuses messages long before), the number of an order
  to cancel fits an \<^verbatim>\<open>int\<close>, every item the symbol search answers with has its two texts,
  and libcurl hands over blocks below 4 GB.
\<close>

definition tame :: "('w, 'j) environment \<Rightarrow> codecs \<Rightarrow> bool" where
  "tame env cs \<longleftrightarrow> length (md5_buffer (stack_memory env)) = 64 \<and>
     (\<forall>s. length (signed_text (parse_message (codec_FuturesTrade cs) s)) + 63 < 2 ^ 32) \<and>
     (\<forall>s. atoi (cstr (str_field (cancel_order_id (parse_message (codec_CancelPendingOrder cs) s)))) \<noteq> None) \<and>
     (\<forall>root i. i < js_size (env_json env) root \<longrightarrow>
        js_text (env_json env) root i ''futureId'' \<noteq> None \<and> js_text (env_json env) root i ''futureName'' \<noteq> None) \<and>
     (\<forall>url w. \<forall>b \<in> set (fst (fst (easy_perform (env_curl env) url w))). length b < 2 ^ 32)"

lemma store_blocks_defined: "\<forall>b \<in> set bs. length b < 2 ^ 32 \<Longrightarrow> \<exists>out'. store_blocks bs out = Some out'"
  by (induction bs arbitrary: out) (auto simp: curlStroreRst_def)

lemma curl_tries_defined:
  assumes "\<And>url w b. b \<in> set (fst (fst (easy_perform cu url w))) \<Longrightarrow> length b < 2 ^ 32"
  shows "curl_tries cu url n res out w \<noteq> None"
proof (induction n arbitrary: res out w)
  case (Suc n)
  obtain blocks code w' where p: "easy_perform cu url w = ((blocks, code), w')"
    by (cases "easy_perform cu url w") auto
  then have "\<forall>b \<in> set blocks. length b < 2 ^ 32" using assms[of _ url w] by simp
  then obtain out' where "store_blocks blocks out = Some out'" using store_blocks_defined by blast
  then show ?case using p Suc.IH by simp
qed simp

lemma symbols_from_defined:
  assumes "\<And>i. i \<in> set is \<Longrightarrow> js_text js root i ''futureId'' \<noteq> None \<and> js_text js root i ''futureName'' \<noteq> None"
  shows "symbols_from js root is items \<noteq> None"
  using assms
proof (induction "is" arbitrary: items)
  case (Cons i js')
  from Cons.prems[of i] obtain c t where texts: "js_text js root i ''futureId'' = Some c" "js_text js root i ''futureName'' = Some t"
    by auto
  with Cons show ?case by simp
qed simp

lemma QuerySymbolByName_defined:
  assumes "tame env cs"
  shows "QuerySymbolByName env req resp st \<noteq> None"
proof -
  have tries: "curl_tries (env_curl env) url n res out w = None \<Longrightarrow> False" for url n res out w
    using curl_tries_defined[of "env_curl env" url n res out w] assms by (auto simp: tame_def)
  have call: "fnDoCurl (env_curl env) url out w = None \<Longrightarrow> False" for url out w
    by (auto simp: fnDoCurl_def split: prod.splits option.splits if_splits dest: tries)
  have items: "ToProtoSymbolByName (env_json env) root resp = None \<Longrightarrow> False" for root
    using symbols_from_defined[of "[0 ..< js_size (env_json env) root]" "env_json env" root "symbols resp"] assms
    by (auto simp: ToProtoSymbolByName_def tame_def)
  show ?thesis
  proof
    assume "QuerySymbolByName env req resp st = None"
    then show False
      by (auto simp: QuerySymbolByName_def Let_def split: option.splits if_splits prod.splits dest: call items)
  qed
qed

lemma ADD_HANDLE_defined:
  assumes "\<And>s. f (parse_message codec s) st \<noteq> None"
  shows "snd (ADD_HANDLE codec f body (Some st)) \<noteq> None"
  using assms[of body] by (auto simp: ADD_HANDLE_def split: option.splits)

lemma answers_defined: "answers env x \<Longrightarrow> x \<noteq> None"
  by (auto simp: answers_def split: option.splits)

lemma handlers_defined:
  assumes "env_ok env" and "tame env cs" and "state_ok env st" and "map_of (handle_table env cs) n = Some f"
  shows "snd (f body (Some st)) \<noteq> None"
proof -
  have trade: "FuturesTrade env (parse_message (codec_FuturesTrade cs) s) r st \<noteq> None" for s r
    using assms(2) by (intro answers_defined[OF FuturesTrade_answered[OF assms(1,3)]]) (simp_all add: tame_def)
  have cancel: "CancelPendingOrder env (parse_message (codec_CancelPendingOrder cs) s) r st \<noteq> None" for s r
  proof -
    obtain n where "atoi (cstr (str_field (cancel_order_id (parse_message (codec_CancelPendingOrder cs) s)))) = Some n"
      using assms(2) unfolding tame_def by blast
    then show ?thesis by (intro answers_defined[OF CancelPendingOrder_answered[OF assms(1,3)]])
  qed
  note defined = queries_answered[OF assms(1,3), THEN answers_defined] trade cancel QuerySymbolByName_defined[OF assms(2)]
  have "\<forall>f \<in> snd ` set (handle_table env cs). snd (f body (Some st)) \<noteq> None"
    unfolding handle_table_def
    by (simp only: list.set image_insert snd_conv image_empty ball_simps simp_thms, intro conjI;
      (rule ADD_HANDLE_defined, unfold handle_defs, rule defined | simp add: ADD_HANDLE_def handle_defs stub_defs))
  moreover have "f \<in> snd ` set (handle_table env cs)" using map_of_SomeD[OF assms(4)] by force
  ultimately show ?thesis by blast
qed

lemma step_keeps_clients:
  assumes "step B (new_RequestHandler env cs doc_root) s s'" and "env_ok env"
    and "case world s of None \<Rightarrow> \<not> tame env cs | Some st \<Rightarrow> state_ok env st"
  shows "case world s' of None \<Rightarrow> \<not> tame env cs | Some st \<Rightarrow> state_ok env st"
proof (cases "world s' = world s")
  case True
  then show ?thesis using assms(3) by simp
next
  case False
  then obtain path f body where f: "map_of (handle_table env cs) (unslashed path) = Some f"
    and s': "world s' = snd (f body (world s))"
    using step_world[OF assms(1)] by (auto simp: runs_function_def RequestHandler_lookup)
  show ?thesis
  proof (cases "world s")
    case None
    then show ?thesis using handlers_keep[OF assms(2) f] assms(3) s' by (simp add: keeps_pools_def)
  next
    case (Some st)
    then have ok: "state_ok env st" using assms(3) by simp
    show ?thesis
    proof (cases "world s'")
      case None
      then show ?thesis using handlers_defined[OF assms(2) _ ok f, of body] Some s' by auto
    next
      case (Some st')
      then show ?thesis using handlers_keep[OF assms(2) f] ok \<open>world s = Some st\<close> s' by (auto simp: keeps_pools_def)
    qed
  qed
qed



lemma sample_tame: "tame sample_env sample_codecs"
  by (simp add: tame_def sample_codecs_def stub_codec_def sample_env_def sample_md5_def)
    (simp add: signed_text_def sample_trade_def sample_cancellation_def decimal_int_def decimal.simps
      atoi_def cstr_def is_space_def is_decimal_def decimal_value_def)



section \<open>An answer that ends the program\<close>

lemma symbols_from_fails:
  assumes "i \<in> set is" and "js_text js root i ''futureId'' = None \<or> js_text js root i ''futureName'' = None"
  shows "symbols_from js root is items = None"
  using assms by (induction "is" arbitrary: items) (auto split: option.splits)


text \<open>A search that answers with a list of one number.\<close>

definition number_env :: "((nat + nat) list, unit) environment" where
  "number_env = sample_env\<lparr>env_json := \<lparr> js_parse = (\<lambda>s. Some ()), js_size = (\<lambda>j. 1),
     js_at = (\<lambda>j i. Some ()), js_member = (\<lambda>j k. None), js_asString = (\<lambda>j. Some ''1'') \<rparr>\<rparr>"


end
