(* ===== verification/Workers.thy ===== *)
theory Workers imports Program Order_Threads_Props
begin

text \<open>
  The worker threads of the server, each of which runs one registered function after the other:
  every function of \<^verbatim>\<open>src/src/request_handler.h\<close> and
  \<^verbatim>\<open>src/src/futures_proxy.cc\<close>, taken apart into the operations on what threads share. A
  function is written down as a value of the datatype \<open>code\<close>: its next operation and, for each
  outcome of that, the code that follows. One step of a worker performs one operation.
  \<open>Workers_Alone\<close> shows that a worker nobody interrupts computes the function of the sequential
  model; \<open>Workers_Props\<close> bounds what it does, and \<open>Workers_System\<close> interleaves any number of workers.
\<close>

section \<open>Code\<close>

datatype pool_name = Authen_pool | Trade_pool

text \<open>
  The operations: borrow a client of a pool and look at the object; operate on a borrowed client and
  the world; give a borrowed client up, returned to its pool or not; operate on the world only.
  \<open>C_undefined\<close> is reached where the code has no defined continuation.
\<close>

datatype ('o, 'w) code =
  C_done 'o
| C_undefined
| C_get pool_name "pointer \<Rightarrow> rpc_client \<Rightarrow> ('o, 'w) code"
| C_use pool_name pointer "rpc_client \<Rightarrow> 'w \<Rightarrow> (rpc_client \<times> 'w \<times> ('o, 'w) code) option"
| C_put pool_name pointer bool "('o, 'w) code"
| C_world "'w \<Rightarrow> ('o, 'w) code \<times> 'w"

definition pool_of :: "pool_name \<Rightarrow> 'w proxy_state \<Rightarrow> client_pool" where
  "pool_of k st = (case k of Authen_pool \<Rightarrow> authen_clients st | Trade_pool \<Rightarrow> trade_clients st)"

definition set_pool :: "pool_name \<Rightarrow> client_pool \<Rightarrow> 'w proxy_state \<Rightarrow> 'w proxy_state" where
  "set_pool k p st =
     (case k of Authen_pool \<Rightarrow> st\<lparr>authen_clients := p\<rparr> | Trade_pool \<Rightarrow> st\<lparr>trade_clients := p\<rparr>)"

text \<open>The object at \<open>p\<close> replaced, and the world.\<close>

definition put_client :: "pool_name \<Rightarrow> pointer \<Rightarrow> rpc_client \<Rightarrow> 'w \<Rightarrow> 'w proxy_state \<Rightarrow> 'w proxy_state" where
  "put_client k p c w st =
     (set_pool k ((pool_of k st)\<lparr>heap := (heap (pool_of k st))(p \<mapsto> c)\<rparr>) st)\<lparr>outside := w\<rparr>"

definition new_of :: "('w, 'j) environment \<Rightarrow> pool_name \<Rightarrow> 'w \<Rightarrow> rpc_client \<times> 'w" where
  "new_of env k = (case k of Authen_pool \<Rightarrow> new_authen env | Trade_pool \<Rightarrow> new_trade env)"

definition code_step ::
  "('w, 'j) environment \<Rightarrow> ('o, 'w) code \<Rightarrow> 'w proxy_state \<Rightarrow> (('o, 'w) code \<times> 'w proxy_state) option" where
  "code_step env x st =
     (case x of
        C_done out \<Rightarrow> Some (C_done out, st)
      | C_undefined \<Rightarrow> None
      | C_get k f \<Rightarrow>
          (case GetClientPtr (env_malloc env) (new_of env k) (pool_of k st) (outside st) of (p, pool, w) \<Rightarrow>
             (case heap pool p of
                None \<Rightarrow> None
              | Some c \<Rightarrow> Some (f p c, (set_pool k pool st)\<lparr>outside := w\<rparr>)))
      | C_use k p g \<Rightarrow>
          (case heap (pool_of k st) p of
             None \<Rightarrow> None
           | Some c \<Rightarrow>
               (case g c (outside st) of
                  None \<Rightarrow> None
                | Some (c', w', x') \<Rightarrow>
                    Some (x', put_client k p c' w' st)))
      | C_put k p usable x' \<Rightarrow> Some (x', set_pool k (release_client p usable (pool_of k st)) st)
      | C_world g \<Rightarrow> (case g (outside st) of (x', w') \<Rightarrow> Some (x', st\<lparr>outside := w'\<rparr>)))"

text \<open>A number of steps of one worker alone.\<close>

fun code_run ::
  "('w, 'j) environment \<Rightarrow> nat \<Rightarrow> ('o, 'w) code \<Rightarrow> 'w proxy_state \<Rightarrow> (('o, 'w) code \<times> 'w proxy_state) option" where
  "code_run env 0 x st = Some (x, st)"
| "code_run env (Suc n) x st =
     (case code_step env x st of None \<Rightarrow> None | Some (x', st') \<Rightarrow> code_run env n x' st')"

section \<open>The building blocks\<close>

text \<open>
  The retry loop on the client at \<open>p\<close>: connecting is one operation, the call another. \<open>ret\<close>
  is what follows the loop, given its result and the answer.
\<close>

function retry_code ::
  "pool_name \<Rightarrow> pointer \<Rightarrow> (('a, 'w) call_state \<Rightarrow> bool \<times> ('a, 'w) call_state) \<Rightarrow>
   (('a, 'w) call_state \<Rightarrow> (bool \<times> ('a, 'w) call_state) option) \<Rightarrow> int \<Rightarrow> 'a \<Rightarrow>
   (bool \<Rightarrow> 'a \<Rightarrow> ('o, 'w) code) \<Rightarrow> ('o, 'w) code" where
  "retry_code k p connect call retry_time answer ret =
     (if retry_time = 0 then ret False answer
      else if retry_time \<le> - (2 ^ 31) then C_undefined
      else C_use k p (\<lambda>c w.
        case connect (c, answer, w) of (connected, c1, answer1, w1) \<Rightarrow>
          Some (c1, w1,
            if \<not> connected then retry_code k p connect call (retry_time - 1) answer1 ret
            else C_use k p (\<lambda>c w.
              case call (c, answer1, w) of
                None \<Rightarrow> None
              | Some (returned, c2, answer2, w2) \<Rightarrow>
                  Some (c2, w2, if returned then ret True answer2
                                else retry_code k p connect call (retry_time - 1) answer2 ret)))))"
  by pat_completeness auto

termination retry_code
  by (relation "measure (\<lambda>(k, p, connect, call, retry_time, answer, ret). nat (retry_time + 2 ^ 31))") auto

declare retry_code.simps [simp del]

definition ValidateSession_code ::
  "('w, 'j) environment \<Rightarrow> LoginSession \<Rightarrow> (int \<Rightarrow> ('o, 'w) code) \<Rightarrow> ('o, 'w) code" where
  "ValidateSession_code env login_session ret =
     (let thrift_req = \<lparr> m_session_id = str_field (session_str login_session),
                         m_uid = int_field (uid login_session) \<rparr>
      in C_get Authen_pool (\<lambda>p c.
           retry_code Authen_pool p (connect_authen (env_network env) (env_flags env))
             (authenticate (env_authen env) thrift_req) (m_retry_time c) (auth_UNKNOWN (env_enumerators env))
             (\<lambda>rpc_valided thrift_ret. C_put Authen_pool p rpc_valided (ret thrift_ret))))"

text \<open>
  The functions get \<open>ret\<close>, what follows them given their response; \<open>fail\<close> fills the
  status of a response as in the sequential model.
\<close>

definition session_code ::
  "('w, 'j) environment \<Rightarrow> LoginSession option \<Rightarrow> (FuturesError \<Rightarrow> string \<Rightarrow> 'r) \<Rightarrow>
   (LoginSession \<Rightarrow> ('o, 'w) code) \<Rightarrow> ('r \<Rightarrow> ('o, 'w) code) \<Rightarrow> ('o, 'w) code" where
  "session_code env session fail act ret =
     (case session of
        None \<Rightarrow> ret (fail ErrCode_FUTURES_REQ_ERR ''REQ ERROR'')
      | Some login_session \<Rightarrow>
          ValidateSession_code env login_session (\<lambda>thrift_ret.
            if auth_SUCCESS (env_enumerators env) \<noteq> thrift_ret
            then ret (fail ErrCode_FUTURES_SESSION_ERR ''SESSION ERROR'')
            else act login_session))"

definition access_code ::
  "('w, 'j) environment \<Rightarrow> (AccessInfo \<Rightarrow> ('o, 'w) code) \<Rightarrow> ('o, 'w) code" where
  "access_code env act =
     C_world (\<lambda>w.
       case GenerateUniqueID (env_clock env) ''futures_cell_proxy'' (CELL_PROXY (env_enumerators env)) w of
         (access, w') \<Rightarrow> (act access, w'))"

text \<open>
  A call of the trading service: \<open>tries\<close> is the number of tries the wrapper's method allows, which it
  reads from the client or from a flag.
\<close>

definition trade_code ::
  "('w, 'j) environment \<Rightarrow> ('q, 'a, 'w) remote \<Rightarrow> 'q \<Rightarrow> (rpc_client \<Rightarrow> int) \<Rightarrow> 'a \<Rightarrow>
   (FuturesError \<Rightarrow> string \<Rightarrow> 'r) \<Rightarrow> ('a \<Rightarrow> 'r) \<Rightarrow> ('r \<Rightarrow> ('o, 'w) code) \<Rightarrow> ('o, 'w) code" where
  "trade_code env remote req tries answer fail finish ret =
     C_get Trade_pool (\<lambda>p c.
       retry_code Trade_pool p (connect_sp (env_network env) (env_flags env)) (invoke remote req) (tries c) answer
         (\<lambda>rpc_ret answer'. C_put Trade_pool p rpc_ret (ret
            (if \<not> rpc_ret then fail ErrCode_FUTURES_INFO_BUSY ''FUTURES INFO BUSY'' else finish answer'))))"

section \<open>The functions\<close>

type_synonym ('q, 'r, 'o, 'w, 'j) code_function =
  "('w, 'j) environment \<Rightarrow> 'q \<Rightarrow> 'r \<Rightarrow> ('r \<Rightarrow> ('o, 'w) code) \<Rightarrow> ('o, 'w) code"

text \<open>The number of tries of the two methods that change orders.\<close>

definition order_tries :: "('w, 'j) environment \<Rightarrow> rpc_client \<Rightarrow> int" where
  "order_tries env c = FLAGS_rpc_call_times (env_flags env)"

definition QueryMyFuturesAssets_code :: "(QueryMyFuturesAssetsRequest, QueryMyFuturesAssetsReturn, 'o, 'w, 'j) code_function" where
  "QueryMyFuturesAssets_code env req resp ret =
     (let fail = (\<lambda>err msg. resp\<lparr>assets_status_info := fill_status (assets_status_info resp) err msg\<rparr>)
      in session_code env (assets_login_session req) fail (\<lambda>session.
           access_code env (\<lambda>access.
             trade_code env (rpc_GetAccInfo (env_trade env)) (assets_req req session access) m_retry_time
               (new_GetAccInfoResp env) fail (assets_answer env resp) ret)) ret)"

definition QueryPendingOrders_code :: "(QueryPendingOrdersRequest, QueryPendingOrdersReturn, 'o, 'w, 'j) code_function" where
  "QueryPendingOrders_code env req resp ret =
     (let fail = (\<lambda>err msg. resp\<lparr>orders_status_info := fill_status (orders_status_info resp) err msg\<rparr>)
      in session_code env (pending_login_session req) fail (\<lambda>session.
           access_code env (\<lambda>access.
             trade_code env (rpc_GetActiveOrder (env_trade env)) (pending_req req session access) m_retry_time
               (new_GetActiveOrderResp env) fail (pending_answer env resp) ret)) ret)"

definition QueryHoldingOrders_code :: "(QueryHoldingOrdersRequest, QueryHoldingOrdersReturn, 'o, 'w, 'j) code_function" where
  "QueryHoldingOrders_code env req resp ret =
     (let fail = (\<lambda>err msg. resp\<lparr>orders_status_info := fill_status (orders_status_info resp) err msg\<rparr>)
      in session_code env (holding_login_session req) fail (\<lambda>session.
           access_code env (\<lambda>access.
             trade_code env (rpc_GetPosition (env_trade env)) (holding_req req session access) m_retry_time
               (new_GetPositionResp env) fail (holding_answer env resp) ret)) ret)"

definition QueryOrderDetail_code :: "(QueryOrderDetailRequest, QueryOrderDetailReturn, 'o, 'w, 'j) code_function" where
  "QueryOrderDetail_code env req resp ret =
     (let fail = (\<lambda>err msg. resp\<lparr>detail_status_info := fill_status (detail_status_info resp) err msg\<rparr>)
      in session_code env (detail_login_session req) fail (\<lambda>session.
           access_code env (\<lambda>access.
             trade_code env (rpc_GetOrderByNo (env_trade env)) (detail_req req session access) m_retry_time
               (new_GetOrderByNoResp env) fail (detail_answer env resp) ret)) ret)"

definition QueryTransactionRecord_code :: "(QueryTransactionRecordRequest, QueryTransactionRecordReturn, 'o, 'w, 'j) code_function" where
  "QueryTransactionRecord_code env req resp ret =
     (let fail = (\<lambda>err msg. resp\<lparr>records_status_info := fill_status (records_status_info resp) err msg\<rparr>)
      in session_code env (records_login_session req) fail (\<lambda>session.
           access_code env (\<lambda>access.
             trade_code env (rpc_GetFundInOutRecord (env_trade env)) (records_req req session access) m_retry_time
               (new_GetFundInOutRecordResp env) fail (records_answer env resp) ret)) ret)"

definition QueryHistoryOrders_code :: "(QueryHistoryOrderRequest, QueryHistoryOrderReturn, 'o, 'w, 'j) code_function" where
  "QueryHistoryOrders_code env req resp ret =
     (let fail = (\<lambda>err msg. resp\<lparr>orders_status_info := fill_status (orders_status_info resp) err msg\<rparr>)
      in session_code env (history_login_session req) fail (\<lambda>session.
           access_code env (\<lambda>access.
             trade_code env (rpc_GetHisOrder (env_trade env)) (history_req req session access) m_retry_time
               (new_GetHisOrderResp env) fail (history_answer env resp) ret)) ret)"

definition FuturesTrade_code :: "(FuturesTradeRequest, FuturesTradeReturn, 'o, 'w, 'j) code_function" where
  "FuturesTrade_code env req resp ret =
     (let fail = (\<lambda>err msg. resp\<lparr>only_status_info := fill_status (only_status_info resp) err msg\<rparr>)
      in case trade_session req of
           None \<Rightarrow> ret (fail ErrCode_FUTURES_REQ_ERR ''REQ ERROR'')
         | Some _ \<Rightarrow>
             (case expected_signature env req of
                None \<Rightarrow> C_undefined
              | Some aes_string \<Rightarrow>
                  if aes_string \<noteq> str_field (trade_signature req)
                  then ret (fail ErrCode_FUTURES_SESSION_ERR ''VALIDATE ERROR'')
                  else session_code env (trade_session req) fail (\<lambda>session.
                    access_code env (\<lambda>access.
                      C_world (\<lambda>w. case env_clock env w of (tp, w') \<Rightarrow>
                        (trade_code env (rpc_AddOrder (env_trade env)) (add_order_req env req session access tp)
                           (order_tries env) (new_AddOrderResp env) fail
                           (\<lambda>add_order_resp.
                              if addr_err_no add_order_resp = trade_SUCCESS (env_enumerators env)
                              then fail ErrCode_SUCCESS ''SUCCESS''
                              else fail ErrCode_FUTURES_TRADE_ERR ''TRADE ERROR'') ret, w')))) ret))"

definition CancelPendingOrder_code ::
  "(CancelPendingOrderRequest, FututesCancelPendingOrderReturn, 'o, 'w, 'j) code_function" where
  "CancelPendingOrder_code env req resp ret =
     (let fail = (\<lambda>err msg. resp\<lparr>only_status_info := fill_status (only_status_info resp) err msg\<rparr>)
      in session_code env (cancel_session req) fail (\<lambda>session.
           access_code env (\<lambda>access.
             case atoi (cstr (str_field (cancel_order_id req))) of
               None \<Rightarrow> C_undefined
             | Some order_no \<Rightarrow>
                 trade_code env (rpc_DeleteOrder (env_trade env))
                   \<lparr> delq_access_info = access, delq_user_id = int_field (uid session),
                     delq_AccNo = str_field (cancel_futures_id req), delq_IntOrderNo = order_no,
                     delq_DeleteMode = 1, delq_ProdCode = str_field (cancel_symbol req) \<rparr>
                   (order_tries env) (new_DeleteOrderResp env) fail
                   (\<lambda>delete_order_resp.
                      if delr_err_no delete_order_resp = trade_SUCCESS (env_enumerators env)
                      then fail ErrCode_SUCCESS ''SUCCESS''
                      else fail ErrCode_FUTURES_RETURN_ERR ''DELETE ERROR'') ret)) ret)"

definition QueryUserStatus_code :: "(QueryUserStatusRequest, QueryUserStatusReturn, 'o, 'w, 'j) code_function" where
  "QueryUserStatus_code env req resp ret =
     (let fail = (\<lambda>err msg. resp\<lparr>ustatus_status_info := fill_status (ustatus_status_info resp) err msg\<rparr>)
      in case ustatus_login_session req of
           None \<Rightarrow>
             ret (resp\<lparr>status_url := Some (FLAGS_futures_account_open_url (env_flags env)),
                       ustatus_status_info :=
                         fill_status (ustatus_status_info resp) ErrCode_FUTURES_REQ_ERR ''REQ ERROR''\<rparr>)
         | Some session \<Rightarrow>
             access_code env (\<lambda>access.
               trade_code env (rpc_GetUserAccountStatus (env_trade env)) (ustatus_req req session access) m_retry_time
                 (new_GetUserAccountStatusResp env) fail (ustatus_answer env resp) ret))"

definition TradeConfirmInfo_code :: "(TradeConfirmInfoRequest, TradeConfirmInfoReturn, 'o, 'w, 'j) code_function" where
  "TradeConfirmInfo_code env req resp ret =
     (let fail = (\<lambda>err msg. resp\<lparr>confirm_status_info := fill_status (confirm_status_info resp) err msg\<rparr>)
      in case confirm_session req of
           None \<Rightarrow> ret (fail ErrCode_FUTURES_REQ_ERR ''REQ ERROR'')
         | Some session \<Rightarrow>
             access_code env (\<lambda>access.
               trade_code env (rpc_GetFuturesQuoteFeeInfo (env_trade env))
                 (fee_info_req access session (confirm_futures_id req)) m_retry_time
                 (new_GetFuturesQuoteFeeInfoResp env) fail (confirm_answer env resp) ret))"

definition QuerySymbolTradeInfo_code ::
  "(QuerySymbolTradeInfoRequest, QuerySymbolTradeInfoReturn, 'o, 'w, 'j) code_function" where
  "QuerySymbolTradeInfo_code env req resp ret =
     (let fail = (\<lambda>err msg. resp\<lparr>tinfo_status_info := fill_status (tinfo_status_info resp) err msg\<rparr>)
      in case tinfo_session req of
           None \<Rightarrow> ret (fail ErrCode_FUTURES_REQ_ERR ''REQ ERROR'')
         | Some session \<Rightarrow>
             access_code env (\<lambda>access.
               trade_code env (rpc_GetFuturesQuoteFeeInfo (env_trade env))
                 (fee_info_req access session (tinfo_futures_id req)) m_retry_time
                 (new_GetFuturesQuoteFeeInfoResp env) fail (tinfo_answer env req resp) ret))"

text \<open>The search is one operation on the world: it uses no client.\<close>

definition QuerySymbolByName_code ::
  "(QuerySymbolByNameRequest, QuerySymbolByNameReturn, 'o, 'w, 'j) code_function" where
  "QuerySymbolByName_code env req resp ret =
     (let request_url = FLAGS_futures_search_url (env_flags env) @ ''futures/'' @ str_field (byname_key req);
          status = (\<lambda>err msg. resp\<lparr>byname_status_info := fill_status (byname_status_info resp) err msg\<rparr>)
      in C_world (\<lambda>w.
           case fnDoCurl (env_curl env) request_url '''' w of
             None \<Rightarrow> (C_undefined, w)
           | Some (code, ret_out, w') \<Rightarrow>
               (if code \<noteq> 0 then ret (status ErrCode_FUTURES_INFO_BUSY ''FUTURES INFO BUSY'')
                else
                  (case js_parse (env_json env) ret_out of
                     None \<Rightarrow> ret (status ErrCode_UNKNOWN ''UNKNOWN ERROR'')
                   | Some root \<Rightarrow>
                       (case ToProtoSymbolByName (env_json env) root resp of
                          None \<Rightarrow> C_undefined
                        | Some resp' \<Rightarrow>
                            ret (resp'\<lparr>byname_status_info :=
                                   fill_status (byname_status_info resp') ErrCode_SUCCESS ''SUCCESS''\<rparr>))), w')))"

text \<open>The functions that touch nothing threads share: the account settings, and those still to be written.\<close>

definition QueryFuturesAccountConfig_code ::
  "(QueryFuturesAcconutConfigRequest, QueryFuturesAccountConfigReturn, 'o, 'w, 'j) code_function" where
  "QueryFuturesAccountConfig_code env req resp ret =
     (case config_login_session req of
        None \<Rightarrow> ret (resp\<lparr>config_status_info :=
                  fill_status (config_status_info resp) ErrCode_FUTURES_REQ_ERR ''REQ ERROR''\<rparr>)
      | Some session \<Rightarrow>
          let resp' = ToProtoFuturesAccountConfig (env_flags env) req resp
          in ret (resp'\<lparr>config_status_info :=
                    fill_status (config_status_info resp') ErrCode_SUCCESS ''SUCCESS''\<rparr>))"

definition unwritten_code :: "('q, StatusReturn, 'o, 'w, 'j) code_function" where
  "unwritten_code env req resp ret = ret (answer_success resp)"

section \<open>The registered functions\<close>

text \<open>The inline function \<^verbatim>\<open>base##fun_name\<close> around a function, whose code ends in its output.\<close>

definition base_code ::
  "('q, 'r) codec \<Rightarrow> ('q \<Rightarrow> 'r \<Rightarrow> ('r \<Rightarrow> (string, 'w) code) \<Rightarrow> (string, 'w) code) \<Rightarrow> 'r \<Rightarrow> string \<Rightarrow> (string, 'w) code" where
  "base_code codec fun_name out_proto in_data =
     fun_name (parse_message codec in_data) out_proto (\<lambda>out_proto. C_done (serialize_message codec out_proto))"

definition code_table ::
  "('w, 'j) environment \<Rightarrow> codecs \<Rightarrow> (string \<times> (string \<Rightarrow> (string, 'w) code)) list" where
  "code_table env cs =
     [(''QueryMyFuturesAssets'',
         base_code (codec_QueryMyFuturesAssets cs) (QueryMyFuturesAssets_code env) new_assets_return),
      (''QueryUserStatus'', base_code (codec_QueryUserStatus cs) (QueryUserStatus_code env) new_user_status_return),
      (''QueryFuturesAccountConfig'',
         base_code (codec_QueryFuturesAccountConfig cs) (QueryFuturesAccountConfig_code env) new_config_return),
      (''QueryPendingOrders'', base_code (codec_QueryPendingOrders cs) (QueryPendingOrders_code env) new_orders_return),
      (''QueryHoldingOrders'', base_code (codec_QueryHoldingOrders cs) (QueryHoldingOrders_code env) new_orders_return),
      (''QueryOrderDetail'', base_code (codec_QueryOrderDetail cs) (QueryOrderDetail_code env) new_detail_return),
      (''QueryTransactionRecord'',
         base_code (codec_QueryTransactionRecord cs) (QueryTransactionRecord_code env) new_records_return),
      (''FuturesTrade'', base_code (codec_FuturesTrade cs) (FuturesTrade_code env) new_status_return),
      (''CancelPendingOrder'', base_code (codec_CancelPendingOrder cs) (CancelPendingOrder_code env) new_status_return),
      (''QueryHistoryOrders'', base_code (codec_QueryHistoryOrders cs) (QueryHistoryOrders_code env) new_orders_return),
      (''SymbolTypeRecommend'', base_code (codec_SymbolTypeRecommend cs) (unwritten_code env) new_status_return),
      (''SymbolListByType'', base_code (codec_SymbolListByType cs) (unwritten_code env) new_status_return),
      (''QuerySymbolByName'', base_code (codec_QuerySymbolByName cs) (QuerySymbolByName_code env) new_byname_return),
      (''TradeConfirmInfo'', base_code (codec_TradeConfirmInfo cs) (TradeConfirmInfo_code env) new_confirm_return),
      (''QuerySymbolTradeInfo'',
         base_code (codec_QuerySymbolTradeInfo cs) (QuerySymbolTradeInfo_code env) new_trade_info_return),
      (''QueryFifthOrder'', base_code (codec_QueryFifthOrder cs) (unwritten_code env) new_status_return),
      (''QuerySymbolQuotations'', base_code (codec_QuerySymbolQuotations cs) (unwritten_code env) new_status_return),
      (''FuturesGraph'', base_code (codec_FuturesGraph cs) (unwritten_code env) new_status_return),
      (''FuturesKLine'', base_code (codec_FuturesKLine cs) (unwritten_code env) new_status_return)]"

end
