(* ===== verification/Workers_Alone.thy ===== *)
theory Workers_Alone imports Workers
begin

text \<open>
  A worker that nobody interrupts: its code computes the function of the sequential model, for each of
  the nineteen registered functions.
\<close>

section \<open>Pools by name\<close>

lemma pool_of_set [simp]:
  "pool_of k (set_pool k p st) = p" "outside (set_pool k p st) = outside st"
  "set_pool k p (set_pool k p' st) = set_pool k p st"
  by (cases k; simp add: pool_of_def set_pool_def)+

lemma pool_of_outside [simp]: "pool_of k (st\<lparr>outside := w\<rparr>) = pool_of k st"
  "set_pool k p (st\<lparr>outside := w\<rparr>) = (set_pool k p st)\<lparr>outside := w\<rparr>"
  by (cases k; simp add: pool_of_def set_pool_def)+

lemma pool_of_other: "k \<noteq> l \<Longrightarrow> pool_of k (set_pool l p st) = pool_of k st"
  by (cases k; cases l; simp add: pool_of_def set_pool_def)

lemma put_client_simps [simp]:
  "pool_of k (put_client k p c w st) = (pool_of k st)\<lparr>heap := (heap (pool_of k st))(p \<mapsto> c)\<rparr>"
  "outside (put_client k p c w st) = w"
  "put_client k p c w (put_client k p c' w' st) = put_client k p c w st"
  by (simp_all add: put_client_def)

lemma pool_of_put_other: "k \<noteq> l \<Longrightarrow> pool_of k (put_client l p c w st) = pool_of k st"
  by (simp add: put_client_def pool_of_other)

lemma put_client_same: "heap (pool_of k st) p = Some c \<Longrightarrow> put_client k p c (outside st) st = st"
  by (cases k) (simp_all add: put_client_def pool_of_def set_pool_def fun_upd_idem map_upd_triv)

section \<open>Running alone\<close>

definition alone ::
  "('w, 'j) environment \<Rightarrow> ('o, 'w) code \<Rightarrow> 'w proxy_state \<Rightarrow> ('o \<times> 'w proxy_state) option \<Rightarrow> bool" where
  "alone env x st y \<longleftrightarrow> (\<exists>n. code_run env n x st = map_option (\<lambda>(out, st'). (C_done out, st')) y)"

lemma alone_done: "alone env (C_done out) st (Some (out, st))"
  unfolding alone_def by (rule exI[of _ 0]) simp

lemma alone_step:
  assumes "code_step env x st = Some (x', st')" and "alone env x' st' y"
  shows "alone env x st y"
proof -
  from assms(2) obtain n where "code_run env n x' st' = map_option (\<lambda>(out, st'). (C_done out, st')) y"
    unfolding alone_def by blast
  then have "code_run env (Suc n) x st = map_option (\<lambda>(out, st'). (C_done out, st')) y" using assms(1) by simp
  then show ?thesis unfolding alone_def by blast
qed

lemma alone_fail: "code_step env x st = None \<Longrightarrow> alone env x st None"
  unfolding alone_def by (rule exI[of _ 1]) simp

lemma alone_undefined: "alone env C_undefined st None"
  by (simp add: alone_fail code_step_def)

text \<open>Code that has to be continued computes a function of the state if it goes on with its result.\<close>

definition goes_on ::
  "('w, 'j) environment \<Rightarrow> ('r \<Rightarrow> ('o, 'w) code) \<Rightarrow> ('r \<times> 'w proxy_state) option \<Rightarrow> ('o \<times> 'w proxy_state) option \<Rightarrow> bool" where
  "goes_on env ret x y \<longleftrightarrow> (case x of None \<Rightarrow> y = None | Some (r, st) \<Rightarrow> alone env (ret r) st y)"

definition computes ::
  "('w, 'j) environment \<Rightarrow> (('r \<Rightarrow> ('o, 'w) code) \<Rightarrow> ('o, 'w) code) \<Rightarrow>
   ('w proxy_state \<Rightarrow> ('r \<times> 'w proxy_state) option) \<Rightarrow> bool" where
  "computes env B f \<longleftrightarrow> (\<forall>ret st y. goes_on env ret (f st) y \<longrightarrow> alone env (B ret) st y)"

lemma goes_on_simps [simp]:
  "goes_on env ret None y \<longleftrightarrow> y = None"
  "goes_on env ret (Some (r, st)) y \<longleftrightarrow> alone env (ret r) st y"
  by (simp_all add: goes_on_def)

lemma computesI: "(\<And>ret st y. goes_on env ret (f st) y \<Longrightarrow> alone env (B ret) st y) \<Longrightarrow> computes env B f"
  by (simp add: computes_def)

lemma computesD: "computes env B f \<Longrightarrow> goes_on env ret (f st) y \<Longrightarrow> alone env (B ret) st y"
  by (simp add: computes_def)

lemma computes_return [simp]: "computes env (\<lambda>ret. ret r) (\<lambda>st. Some (r, st))"
  by (simp add: computes_def)

lemma computes_undefined [simp]: "computes env (\<lambda>ret. C_undefined) (\<lambda>st. None)"
  by (simp add: computes_def alone_fail code_step_def)

lemma retry_code_alone:
  assumes "heap (pool_of k st) p = Some c"
    and "case retry_loop connect call n (c, a, outside st) of
           None \<Rightarrow> y = None
         | Some (b, c', a', w') \<Rightarrow> alone env (ret b a') (put_client k p c' w' st) y"
  shows "alone env (retry_code k p connect call n a ret) st y"
  using assms
proof (induction "nat (n + 2 ^ 31)" arbitrary: n a c st rule: less_induct)
  case less
  consider "n = 0" | "n \<noteq> 0" "n \<le> - (2 ^ 31)" | "n \<noteq> 0" "\<not> n \<le> - (2 ^ 31)" by blast
  then show ?case
  proof cases
    case 1
    then show ?thesis using less.prems by (simp add: retry_code.simps put_client_same)
  next
    case 2
    then have "retry_code k p connect call n a ret = C_undefined" by (simp add: retry_code.simps)
    moreover have "y = None" using 2 less.prems(2) by (simp add: retry_loop.simps)
    ultimately show ?thesis by (simp add: alone_fail code_step_def)
  next
    case 3
    then have "nat (n - 1 + 2 ^ 31) < nat (n + 2 ^ 31)" by simp
    note again = less.hyps[OF this]
    obtain b c1 a1 w1 where con: "connect (c, a, outside st) = (b, c1, a1, w1)" by (cases "connect (c, a, outside st)") auto
    show ?thesis
    proof (cases b)
      case False
      have "alone env (retry_code k p connect call (n - 1) a1 ret) (put_client k p c1 w1 st) y"
        by (rule again[of _ c1]) (use less.prems 3 con False in \<open>auto simp: retry_loop.simps[of _ _ n] split: option.splits\<close>)
      then show ?thesis
        by (rule alone_step[rotated])
          (use less.prems(1) 3 con False in \<open>simp add: retry_code.simps[of _ _ _ _ n] code_step_def\<close>)
    next
      case True
      show ?thesis
      proof (cases "call (c1, a1, w1)")
        case None
        then have "y = None" using less.prems(2) 3 con True by (simp add: retry_loop.simps[of _ _ n])
        show ?thesis unfolding \<open>y = None\<close>
          by (rule alone_step, use less.prems(1) 3 con True in \<open>simp add: retry_code.simps[of _ _ _ _ n] code_step_def\<close>)
            (simp add: alone_fail code_step_def None)
      next
        case (Some z)
        then obtain returned c2 a2 w2 where call: "call (c1, a1, w1) = Some (returned, c2, a2, w2)" by (cases z) auto
        have "alone env (if returned then ret True a2 else retry_code k p connect call (n - 1) a2 ret)
            (put_client k p c2 w2 st) y"
        proof (cases returned)
          case True
          then show ?thesis using less.prems(2) 3 con \<open>b\<close> call by (simp add: retry_loop.simps[of _ _ n])
        next
          case False
          have "alone env (retry_code k p connect call (n - 1) a2 ret) (put_client k p c2 w2 st) y"
            by (rule again[of _ c2]) (use less.prems 3 con \<open>b\<close> call False in \<open>auto simp: retry_loop.simps[of _ _ n] split: option.splits\<close>)
          then show ?thesis using False by simp
        qed
        then show ?thesis
          by (intro alone_step[where st = st, rotated], elim alone_step[rotated])
            (use less.prems(1) 3 con True call in \<open>simp_all add: retry_code.simps[of _ _ _ _ n] code_step_def\<close>)
      qed
    qed
  qed
qed

section \<open>The building blocks\<close>

lemma ValidateSession_alone:
  assumes "case ValidateSession env session st of
      None \<Rightarrow> y = None
    | Some (ret', st') \<Rightarrow> alone env (ret ret') st' y"
  shows "alone env (ValidateSession_code env session ret) st y"
proof -
  let ?req = "\<lparr> m_session_id = str_field (session_str session), m_uid = int_field (uid session) \<rparr>"
  obtain p pool w where get: "GetClientPtr (env_malloc env) (new_authen env) (authen_clients st) (outside st) = (p, pool, w)"
    by (cases "GetClientPtr (env_malloc env) (new_authen env) (authen_clients st) (outside st)") auto
  show ?thesis
  proof (cases "heap pool p")
    case None
    then have "y = None" using assms get by (simp add: ValidateSession_def)
    with None get show ?thesis
      by (simp add: ValidateSession_code_def alone_fail code_step_def new_of_def pool_of_def)
  next
    case (Some c)
    define st1 where "st1 = (set_pool Authen_pool pool st)\<lparr>outside := w\<rparr>"
    have w: "outside st1 = w" by (simp add: st1_def)
    have step: "code_step env (ValidateSession_code env session ret) st =
        Some (retry_code Authen_pool p (connect_authen (env_network env) (env_flags env))
          (authenticate (env_authen env) ?req) (m_retry_time c) (auth_UNKNOWN (env_enumerators env))
          (\<lambda>rpc_valided thrift_ret. C_put Authen_pool p rpc_valided (ret thrift_ret)), st1)"
      using get Some by (simp add: ValidateSession_code_def code_step_def new_of_def pool_of_def st1_def)
    have put: "code_step env (C_put Authen_pool p b x) (put_client Authen_pool p c' w' st1) =
        Some (x, st\<lparr>authen_clients := release_client p b (pool\<lparr>heap := (heap pool)(p \<mapsto> c')\<rparr>), outside := w'\<rparr>)"
      for b x c' w'
      by (simp add: code_step_def st1_def put_client_def set_pool_def pool_of_def)
    have "case retry_loop (connect_authen (env_network env) (env_flags env)) (authenticate (env_authen env) ?req)
        (m_retry_time c) (c, auth_UNKNOWN (env_enumerators env), outside st1) of
         None \<Rightarrow> y = None
       | Some (b, c', a', w') \<Rightarrow>
           alone env (C_put Authen_pool p b (ret a')) (put_client Authen_pool p c' w' st1) y"
      using assms get Some
      by (auto simp: ValidateSession_def Authen_ValidateSession_def w split: option.splits prod.splits
          intro!: alone_step[OF put])
    then have "alone env (retry_code Authen_pool p (connect_authen (env_network env) (env_flags env))
          (authenticate (env_authen env) ?req) (m_retry_time c) (auth_UNKNOWN (env_enumerators env))
          (\<lambda>rpc_valided thrift_ret. C_put Authen_pool p rpc_valided (ret thrift_ret))) st1 y"
      by (rule retry_code_alone[rotated]) (simp add: st1_def Some)
    with step show ?thesis by (rule alone_step)
  qed
qed

lemma session_computes:
  fixes act :: "LoginSession \<Rightarrow> ('r \<Rightarrow> ('o, 'w) code) \<Rightarrow> ('o, 'w) code"
  assumes "\<And>s. computes env (act s) (f s)"
  shows "computes env (\<lambda>ret. session_code env session fail (\<lambda>s. act s ret) ret) (with_session env session fail f)"
proof (rule computesI)
  fix ret :: "'r \<Rightarrow> ('o, 'w) code" and st y
  assume "goes_on env ret (with_session env session fail f st) y"
  then show "alone env (session_code env session fail (\<lambda>s. act s ret) ret) st y"
    by (auto simp: session_code_def with_session_def split: option.splits prod.splits if_splits
        intro!: ValidateSession_alone computesD[OF assms])
qed

lemma access_computes:
  fixes act :: "AccessInfo \<Rightarrow> ('r \<Rightarrow> ('o, 'w) code) \<Rightarrow> ('o, 'w) code"
  assumes "\<And>access. computes env (act access) (f access)"
  shows "computes env (\<lambda>ret. access_code env (\<lambda>access. act access ret))
    (\<lambda>st. case access_info env st of (access, st') \<Rightarrow> f access st')"
proof (rule computesI)
  fix ret :: "'r \<Rightarrow> ('o, 'w) code" and st y
  assume "goes_on env ret (case access_info env st of (access, st') \<Rightarrow> f access st') y"
  then show "alone env (access_code env (\<lambda>access. act access ret)) st y"
    by (auto simp: access_info_def split: prod.splits
        intro!: alone_step[of env "access_code env (\<lambda>access. act access ret)" st, rotated] computesD[OF assms])
      (simp add: access_code_def code_step_def)
qed

lemma trade_computes:
  "computes env (trade_code env remote req tries answer fail finish)
     (call_trade env (\<lambda>c a w. retry_loop (connect_sp (env_network env) (env_flags env)) (invoke remote req) (tries c) (c, a, w))
        answer fail finish)"
proof (rule computesI)
  fix ret st y
  let ?loop = "\<lambda>c a w. retry_loop (connect_sp (env_network env) (env_flags env)) (invoke remote req) (tries c) (c, a, w)"
  assume go: "goes_on env ret (call_trade env ?loop answer fail finish st) y"
  let ?result = "\<lambda>b a. if \<not> b then fail ErrCode_FUTURES_INFO_BUSY ''FUTURES INFO BUSY'' else finish a"
  obtain p pool w where get: "GetClientPtr (env_malloc env) (new_trade env) (trade_clients st) (outside st) = (p, pool, w)"
    by (cases "GetClientPtr (env_malloc env) (new_trade env) (trade_clients st) (outside st)") auto
  show "alone env (trade_code env remote req tries answer fail finish ret) st y"
  proof (cases "heap pool p")
    case None
    then have "y = None" using go get by (simp add: call_trade_def)
    with None get show ?thesis
      by (simp add: trade_code_def alone_fail code_step_def new_of_def pool_of_def)
  next
    case (Some c)
    define st1 where "st1 = (set_pool Trade_pool pool st)\<lparr>outside := w\<rparr>"
    have w: "outside st1 = w" by (simp add: st1_def)
    have step: "code_step env (trade_code env remote req tries answer fail finish ret) st =
        Some (retry_code Trade_pool p (connect_sp (env_network env) (env_flags env)) (invoke remote req) (tries c) answer
          (\<lambda>b a. C_put Trade_pool p b (ret (?result b a))), st1)"
      using get Some by (simp add: trade_code_def code_step_def new_of_def pool_of_def st1_def)
    have put: "code_step env (C_put Trade_pool p b x) (put_client Trade_pool p c' w' st1) =
        Some (x, st\<lparr>trade_clients := release_client p b (pool\<lparr>heap := (heap pool)(p \<mapsto> c')\<rparr>), outside := w'\<rparr>)"
      for b x c' w'
      by (simp add: code_step_def st1_def put_client_def set_pool_def pool_of_def)
    have "case ?loop c answer (outside st1) of
         None \<Rightarrow> y = None
       | Some (b, c', a', w') \<Rightarrow>
           alone env (C_put Trade_pool p b (ret (?result b a'))) (put_client Trade_pool p c' w' st1) y"
      using go get Some
      by (auto simp: call_trade_def w split: option.splits prod.splits if_splits
          intro!: alone_step[OF put])
    then have "alone env (retry_code Trade_pool p (connect_sp (env_network env) (env_flags env)) (invoke remote req)
        (tries c) answer (\<lambda>b a. C_put Trade_pool p b (ret (?result b a)))) st1 y"
      by (rule retry_code_alone[rotated]) (simp add: st1_def Some)
    with step show ?thesis by (rule alone_step)
  qed
qed

section \<open>The functions\<close>

lemmas trade_method_defs =
  SPTradeInfo_GetAccInfo_def [abs_def] SPTradeInfo_AddOrder_def [abs_def] SPTradeInfo_GetOrderByNo_def [abs_def]
  SPTradeInfo_GetActiveOrder_def [abs_def] SPTradeInfo_GetPosition_def [abs_def] SPTradeInfo_DeleteOrder_def [abs_def]
  SPTradeInfo_GetUserAccountStatus_def [abs_def] SPTradeInfo_GetHisOrder_def [abs_def]
  SPTradeInfo_GetFundInOutRecord_def [abs_def] SPTradeInfo_GetFuturesQuoteFeeInfo_def [abs_def]

lemmas block_computes = session_computes access_computes trade_computes
  trade_computes [where tries = "order_tries env" for env, unfolded order_tries_def]

lemma queries_compute:
  "computes env (QueryMyFuturesAssets_code env q1 r1) (QueryMyFuturesAssets env q1 r1)"
  "computes env (QueryPendingOrders_code env q2 r2) (QueryPendingOrders env q2 r2)"
  "computes env (QueryHoldingOrders_code env q3 r2) (QueryHoldingOrders env q3 r2)"
  "computes env (QueryOrderDetail_code env q4 r4) (QueryOrderDetail env q4 r4)"
  "computes env (QueryTransactionRecord_code env q5 r5) (QueryTransactionRecord env q5 r5)"
  "computes env (QueryHistoryOrders_code env q6 r2) (QueryHistoryOrders env q6 r2)"
  unfolding QueryMyFuturesAssets_code_def [abs_def] QueryMyFuturesAssets_def [abs_def]
    QueryPendingOrders_code_def [abs_def] QueryPendingOrders_def [abs_def]
    QueryHoldingOrders_code_def [abs_def] QueryHoldingOrders_def [abs_def]
    QueryOrderDetail_code_def [abs_def] QueryOrderDetail_def [abs_def]
    QueryTransactionRecord_code_def [abs_def] QueryTransactionRecord_def [abs_def]
    QueryHistoryOrders_code_def [abs_def] QueryHistoryOrders_def [abs_def] Let_def trade_method_defs
  by (rule block_computes)+

lemma computes_clock:
  fixes act :: "int \<Rightarrow> ('r \<Rightarrow> ('o, 'w) code) \<Rightarrow> ('o, 'w) code"
    and f :: "int \<Rightarrow> 'w proxy_state \<Rightarrow> ('r \<times> 'w proxy_state) option"
  assumes "\<And>tp. computes env (act tp) (f tp)"
  shows "computes env (\<lambda>ret. C_world (\<lambda>w. case env_clock env w of (tp, w') \<Rightarrow> (act tp ret, w')))
    (\<lambda>st. case env_clock env (outside st) of (tp, w) \<Rightarrow> f tp (st\<lparr>outside := w\<rparr>))"
proof (rule computesI)
  fix ret :: "'r \<Rightarrow> ('o, 'w) code" and st :: "'w proxy_state" and y
  obtain tp w where clock: "env_clock env (outside st) = (tp, w)" by fastforce
  assume "goes_on env ret (case env_clock env (outside st) of (tp, w) \<Rightarrow> f tp (st\<lparr>outside := w\<rparr>)) y"
  then have "alone env (act tp ret) (st\<lparr>outside := w\<rparr>) y" by (simp add: clock computesD[OF assms])
  then show "alone env (C_world (\<lambda>w. case env_clock env w of (tp, w') \<Rightarrow> (act tp ret, w'))) st y"
    by (rule alone_step[rotated]) (simp add: code_step_def clock)
qed

lemma FuturesTrade_computes: "computes env (FuturesTrade_code env req resp) (FuturesTrade env req resp)"
proof (cases "trade_session req")
  case None
  then show ?thesis by (simp add: FuturesTrade_code_def [abs_def] FuturesTrade_def [abs_def])
next
  case session: (Some session)
  show ?thesis
  proof (cases "expected_signature env req")
    case None
    then show ?thesis using session
      by (simp add: FuturesTrade_code_def [abs_def] FuturesTrade_def [abs_def] Let_def)
  next
    case (Some aes_string)
    show ?thesis
      unfolding FuturesTrade_code_def [abs_def] FuturesTrade_def [abs_def] Let_def session Some option.case
        trade_method_defs order_tries_def [abs_def]
      by (cases "aes_string \<noteq> str_field (trade_signature req)")
        (simp, simp only: if_False, intro block_computes computes_clock)
  qed
qed

lemma CancelPendingOrder_computes:
  "computes env (CancelPendingOrder_code env req resp) (CancelPendingOrder env req resp)"
proof -
  show ?thesis
    unfolding CancelPendingOrder_code_def [abs_def] CancelPendingOrder_def [abs_def] Let_def trade_method_defs
      order_tries_def [abs_def]
    by (cases "atoi (cstr (str_field (cancel_order_id req)))")
      (simp_all only: option.case, (intro block_computes computes_undefined)+)
qed

text \<open>A session that is only looked for.\<close>

lemma looked_for_computes:
  assumes "\<And>s. computes env (act s) (f s)"
  shows "computes env (\<lambda>ret. case session of None \<Rightarrow> ret r | Some s \<Rightarrow> act s ret)
    (\<lambda>st. case session of None \<Rightarrow> Some (r, st) | Some s \<Rightarrow> f s st)"
  by (cases session) (simp_all add: assms)

lemma fee_queries_compute:
  "computes env (QueryUserStatus_code env q1 r1) (QueryUserStatus env q1 r1)"
  "computes env (TradeConfirmInfo_code env q2 r2) (TradeConfirmInfo env q2 r2)"
  "computes env (QuerySymbolTradeInfo_code env q3 r3) (QuerySymbolTradeInfo env q3 r3)"
  unfolding QueryUserStatus_code_def [abs_def] QueryUserStatus_def [abs_def]
    TradeConfirmInfo_code_def [abs_def] TradeConfirmInfo_def [abs_def]
    QuerySymbolTradeInfo_code_def [abs_def] QuerySymbolTradeInfo_def [abs_def] Let_def trade_method_defs
  by (rule looked_for_computes block_computes)+

lemma QuerySymbolByName_computes:
  "computes env (QuerySymbolByName_code env req resp) (QuerySymbolByName env req resp)"
proof (rule computesI)
  fix ret st y
  let ?url = "FLAGS_futures_search_url (env_flags env) @ ''futures/'' @ str_field (byname_key req)"
  obtain x st' where step: "code_step env (QuerySymbolByName_code env req resp ret) st = Some (x, st')"
    by (cases "fnDoCurl (env_curl env) ?url [] (outside st)")
      (auto simp: QuerySymbolByName_code_def code_step_def Let_def)
  assume "goes_on env ret (QuerySymbolByName env req resp st) y"
  with step have "alone env x st' y"
    by (auto simp: QuerySymbolByName_def QuerySymbolByName_code_def Let_def code_step_def alone_undefined
        split: option.splits if_splits prod.splits)
  with step show "alone env (QuerySymbolByName_code env req resp ret) st y" by (rule alone_step)
qed

lemma quiet_compute:
  "computes env (QueryFuturesAccountConfig_code env q1 r1) (QueryFuturesAccountConfig env q1 r1)"
  "computes env (unwritten_code env q2 r2) (\<lambda>st. Some (answer_success r2, st))"
  unfolding QueryFuturesAccountConfig_code_def [abs_def] QueryFuturesAccountConfig_def [abs_def]
    unwritten_code_def [abs_def] Let_def
  by (rule looked_for_computes computes_return)+

section \<open>The registered functions\<close>

lemma base_code_computes:
  fixes fun_code :: "'q \<Rightarrow> 'r \<Rightarrow> ('r \<Rightarrow> (string, 'w) code) \<Rightarrow> (string, 'w) code"
    and fun_name :: "'q \<Rightarrow> 'w proxy_state \<Rightarrow> ('r \<times> 'w proxy_state) option"
  assumes "\<And>q. computes env (fun_code q out_proto) (fun_name q)"
  shows "case ADD_HANDLE codec fun_name body (Some st) of
      (out, None) \<Rightarrow> alone env (base_code codec fun_code out_proto body) st None
    | (out, Some st') \<Rightarrow> alone env (base_code codec fun_code out_proto body) st (Some (out, st'))"
proof (cases "fun_name (parse_message codec body) st")
  case None
  then show ?thesis
    using computesD[OF assms[of "parse_message codec body"], of "\<lambda>out. C_done (serialize_message codec out)" st None]
    by (simp add: ADD_HANDLE_def base_code_def)
next
  case (Some z)
  then show ?thesis
    using computesD[OF assms[of "parse_message codec body"], of "\<lambda>out. C_done (serialize_message codec out)" st
        "Some (serialize_message codec (fst z), snd z)"]
    by (cases z) (simp add: ADD_HANDLE_def base_code_def alone_done)
qed

definition computes_handle ::
  "('w, 'j) environment \<Rightarrow> (string \<times> (string \<Rightarrow> (string, 'w) code)) \<Rightarrow>
   (string \<times> 'w proxy_state option handle_function) \<Rightarrow> bool" where
  "computes_handle env x f \<longleftrightarrow> fst x = fst f \<and>
     (\<forall>body st. case snd f body (Some st) of
        (out, None) \<Rightarrow> alone env (snd x body) st None
      | (out, Some st') \<Rightarrow> alone env (snd x body) st (Some (out, st')))"

lemma computes_handleI:
  fixes fun_code :: "'q \<Rightarrow> 'r \<Rightarrow> ('r \<Rightarrow> (string, 'w) code) \<Rightarrow> (string, 'w) code"
    and fun_name :: "'q \<Rightarrow> 'w proxy_state \<Rightarrow> ('r \<times> 'w proxy_state) option"
  assumes "\<And>q. computes env (fun_code q out_proto) (fun_name q)"
  shows "computes_handle env (n, base_code codec fun_code out_proto) (n, ADD_HANDLE codec fun_name)"
  unfolding computes_handle_def fst_conv snd_conv
  by (intro conjI refl allI base_code_computes assms)

lemma tables_compute: "list_all2 (computes_handle env) (code_table env cs) (handle_table env cs)"
proof -
  note all = queries_compute FuturesTrade_computes CancelPendingOrder_computes fee_queries_compute
    QuerySymbolByName_computes quiet_compute
  show ?thesis
    unfolding code_table_def handle_table_def list_all2_Cons list_all2_Nil
    by (intro conjI refl; rule computes_handleI; unfold handle_defs [abs_def] stub_defs [abs_def]; rule all)
qed

lemma list_all2_map_of:
  assumes "list_all2 R xs ys" and "\<And>x y. R x y \<Longrightarrow> fst x = fst y" and "map_of xs n = Some a"
  shows "\<exists>b. map_of ys n = Some b \<and> R (n, a) (n, b)"
  using assms(1,3)
proof (induction rule: list_all2_induct)
  case (Cons x xs y ys)
  then show ?case using assms(2)[OF Cons(1)] by (cases x; cases y) (auto split: if_splits)
qed simp

text \<open>C5:
  A worker that nobody interrupts computes what the sequential model says: for each of the nineteen
  registered functions, every content and every state, running its code step by step ends in exactly the
  output and the state of the function that the handler has registered under its name, and it comes to a
  place without a defined continuation exactly where that function has no result.
\<close>

theorem worker_alone:
  assumes "map_of (code_table env cs) name = Some x"
  shows "\<exists>f. map_of (handle_table env cs) name = Some f \<and>
    (\<exists>n. code_run env n (x body) st =
       (case f body (Some st) of (out, None) \<Rightarrow> None | (out, Some st') \<Rightarrow> Some (C_done out, st')))"
proof -
  obtain f where f: "map_of (handle_table env cs) name = Some f" "computes_handle env (name, x) (name, f)"
    using list_all2_map_of[OF tables_compute _ assms] by (auto simp: computes_handle_def)
  have "\<exists>n. code_run env n (x body) st =
       (case f body (Some st) of (out, None) \<Rightarrow> None | (out, Some st') \<Rightarrow> Some (C_done out, st'))"
    using f(2) unfolding computes_handle_def alone_def by (fastforce split: prod.splits option.splits)
  with f(1) show ?thesis by blast
qed

theorem worker_alone_witness:
  "\<exists>n st. code_run sample_env n
      (base_code (codec_FuturesTrade sample_codecs) (FuturesTrade_code sample_env) new_status_return ''order'') sample_state =
    Some (C_done ''answer'', st)"
proof -
  have "map_of (code_table sample_env sample_codecs) ''FuturesTrade'' =
      Some (base_code (codec_FuturesTrade sample_codecs) (FuturesTrade_code sample_env) new_status_return)"
    by (simp add: code_table_def)
  from worker_alone[OF this, of "''order''" sample_state] obtain n where
    run: "code_run sample_env n
        (base_code (codec_FuturesTrade sample_codecs) (FuturesTrade_code sample_env) new_status_return ''order'') sample_state =
      (case ADD_HANDLE (codec_FuturesTrade sample_codecs) (handle_FuturesTrade sample_env) ''order'' (Some sample_state) of
         (out, None) \<Rightarrow> None | (out, Some st') \<Rightarrow> Some (C_done out, st'))"
    by (auto simp: handle_table_def)
  have "expected_signature sample_env (sample_trade sample_signature) \<noteq> None" by (simp add: sample_signature_expected)
  from FuturesTrade_signed_answered[OF sample_env_ok sample_state_ok this, of new_status_return]
  have "\<exists>resp st. FuturesTrade sample_env (sample_trade sample_signature) new_status_return sample_state = Some (resp, st)"
    by (auto simp: answers_def split: option.splits)
  then have "\<exists>st. (case ADD_HANDLE (codec_FuturesTrade sample_codecs) (handle_FuturesTrade sample_env) ''order'' (Some sample_state) of
      (out, None) \<Rightarrow> None | (out, Some st') \<Rightarrow> Some (C_done out, st')) = Some (C_done ''answer'', st)"
    by (auto simp: ADD_HANDLE_def handle_FuturesTrade_def sample_codecs_def stub_codec_def)
  with run show ?thesis by metis
qed

end
