(* ===== verification/Workers_Props.thy ===== *)
theory Workers_Props imports Workers_Alone
begin

text \<open>
  What the code of a registered function may rely on and does: it owns the clients it has borrowed, and
  whatever the world is like at each of its operations, it has a defined continuation, keeps the clients
  good, and after a bounded number of operations it is done and owns nothing.
\<close>

section \<open>What a worker owns\<close>

text \<open>
  The clients a worker has borrowed, with the objects as it left them: only the worker changes them.
  \<open>within env n h x\<close> says that a worker that owns \<open>h\<close> and goes on with \<open>x\<close> is done after at most
  \<open>n\<close> operations, has a defined continuation whatever the world is like at each of them, uses
  only what it owns, keeps the objects good, and owns nothing in the end.
\<close>

type_synonym holding = "pool_name \<rightharpoonup> pointer \<times> rpc_client"

inductive within :: "('w, 'j) environment \<Rightarrow> nat \<Rightarrow> holding \<Rightarrow> ('o, 'w) code \<Rightarrow> bool" for env where
  within_done: "within env n Map.empty (C_done out)"
| within_get: "\<lbrakk>h k = None; \<And>p c. good_client (env_flags env) c \<Longrightarrow> within env n (h(k \<mapsto> (p, c))) (f p c)\<rbrakk> \<Longrightarrow>
    within env (Suc n) h (C_get k f)"
| within_use: "\<lbrakk>h k = Some (p, c);
      \<And>w. \<exists>c' w' x. g c w = Some (c', w', x) \<and> good_client (env_flags env) c' \<and> within env n (h(k \<mapsto> (p, c'))) x\<rbrakk> \<Longrightarrow>
    within env (Suc n) h (C_use k p g)"
| within_put: "\<lbrakk>h k = Some (p, c); within env n (h(k := None)) x\<rbrakk> \<Longrightarrow> within env (Suc n) h (C_put k p usable x)"
| within_world: "(\<And>w. within env n h (fst (g w))) \<Longrightarrow> within env (Suc n) h (C_world g)"

inductive_simps within_simps:
  "within env n h (C_done out)" "within env n h C_undefined" "within env n h (C_get k f)"
  "within env n h (C_use k p g)" "within env n h (C_put k p usable x)" "within env n h (C_world g)"

lemma within_mono: "within env n h x \<Longrightarrow> n \<le> m \<Longrightarrow> within env m h x"
proof (induction arbitrary: m rule: within.induct)
  case (within_done n out)
  show ?case by (rule within.within_done)
next
  case (within_get h k n f)
  then obtain m' where m: "m = Suc m'" "n \<le> m'" by (cases m) auto
  show ?case unfolding m(1) by (rule within.within_get[OF within_get(1) within_get.IH]) (simp_all add: m(2))
next
  case (within_use h k p c g n)
  then obtain m' where m: "m = Suc m'" "n \<le> m'" by (cases m) auto
  have "\<exists>c' w' x. g c w = Some (c', w', x) \<and> good_client (env_flags env) c' \<and> within env m' (h(k \<mapsto> (p, c'))) x" for w
    using within_use.IH[of w] m(2) by blast
  with within_use(1) show ?case unfolding m(1) by (rule within.within_use)
next
  case (within_put h k p c n x usable)
  then obtain m' where m: "m = Suc m'" "n \<le> m'" by (cases m) auto
  show ?case unfolding m(1) by (rule within.within_put[OF within_put(1) within_put.IH]) (rule m(2))
next
  case (within_world n h g)
  then obtain m' where m: "m = Suc m'" "n \<le> m'" by (cases m) auto
  show ?case unfolding m(1) by (rule within.within_world[OF within_world.IH]) (rule m(2))
qed

section \<open>The retry loop on a borrowed client\<close>

text \<open>
  The contract of \<open>retried_call\<close> for a client under a retry loop, where a state of the call is valid
  when the client is good, and whether it is ready does not depend on the world.
\<close>

locale lent_client = retried_call connect call valid ready
  for connect :: "('a, 'w) call_state \<Rightarrow> bool \<times> ('a, 'w) call_state" and call and valid and ready +
  fixes fl :: flags
  assumes valid_good: "valid (c, a, w) \<longleftrightarrow> good_client fl c"
    and ready_kept: "ready (c, a, w) \<Longrightarrow> ready (c, a, w')"
begin

lemma loop_within:
  assumes "env_flags env = fl" and "h k = Some (p, c)" and "good_client fl c"
    and "\<And>b a c. good_client fl c \<Longrightarrow> within env N (h(k \<mapsto> (p, c))) (ret b a)"
  shows "within env (N + 2 * n) h (retry_code k p connect call (int n) a ret)"
  using assms(2,3,4)
proof (induction n arbitrary: h c a)
  case 0
  have "h(k \<mapsto> (p, c)) = h" using 0(1) by (simp add: fun_upd_idem)
  with 0(3)[OF 0(2), of False a] show ?case by (simp add: retry_code.simps)
next
  case (Suc n)
  have rest: "within env (N + 2 * n) (h(k \<mapsto> (p, c'))) (retry_code k p connect call (int n) a' ret)"
    if "good_client fl c'" for c' a'
    by (rule Suc.IH) (simp_all only: fun_upd_upd fun_upd_same Suc.prems(3), rule that)
  have less: "int (Suc n) - 1 = int n" "int (Suc n) \<noteq> 0" "\<not> int (Suc n) \<le> - (2 ^ 31)" by simp_all
  have called: "\<exists>c3 w3 x. (case call (c1, a1, w') of None \<Rightarrow> None
        | Some (returned, c2, a2, w2) \<Rightarrow>
            Some (c2, w2, if returned then ret True a2 else retry_code k p connect call (int n) a2 ret)) = Some (c3, w3, x) \<and>
      good_client fl c3 \<and> within env (N + 2 * n) (h(k \<mapsto> (p, c3))) x"
    if "good_client fl c1" and "ready (c1, a1, w1)" for c1 a1 w1 w'
  proof -
    have "valid (c1, a1, w')" "ready (c1, a1, w')" using that ready_kept valid_good by blast+
    then obtain b c2 a2 w2 where "call (c1, a1, w') = Some (b, c2, a2, w2)" "good_client fl c2"
      using call_defined valid_good by (metis prod_cases3)
    moreover have "within env (N + 2 * n) (h(k \<mapsto> (p, c2))) (ret True a2)"
      by (rule within_mono[OF Suc.prems(3)[OF \<open>good_client fl c2\<close>]]) simp
    ultimately show ?thesis using rest by simp
  qed
  define calls where "calls a1 = C_use k p (\<lambda>c w. case call (c, a1, w) of None \<Rightarrow> None
      | Some (returned, c2, a2, w2) \<Rightarrow>
          Some (c2, w2, if returned then ret True a2 else retry_code k p connect call (int n) a2 ret))" for a1
  define g where "g c w = (case connect (c, a, w) of (connected, c1, a1, w1) \<Rightarrow>
      Some (c1, w1, if \<not> connected then retry_code k p connect call (int n) a1 ret else calls a1))" for c w
  have code: "retry_code k p connect call (int (Suc n)) a ret = C_use k p g"
    unfolding g_def[abs_def] calls_def[abs_def] by (simp only: retry_code.simps[of k p connect call "int (Suc n)"] less if_False)
  have "\<exists>c' w' x. g c w = Some (c', w', x) \<and> good_client (env_flags env) c' \<and>
      within env (Suc (N + 2 * n)) (h(k \<mapsto> (p, c'))) x" for w
  proof -
    obtain b c1 a1 w1 where con: "connect (c, a, w) = (b, c1, a1, w1)" by (cases "connect (c, a, w)") auto
    have good: "good_client fl c1" using connect_valid[OF con] Suc.prems(2) valid_good by blast
    show ?thesis
    proof (cases b)
      case False
      then show ?thesis using con good within_mono[OF rest[OF good, of a1]] by (simp add: g_def assms(1))
    next
      case True
      then have ready: "ready (c1, a1, w1)"
        using connect_ready[of "(c, a, w)" "(c1, a1, w1)"] con Suc.prems(2) valid_good by simp
      have "within env (Suc (N + 2 * n)) (h(k \<mapsto> (p, c1))) (calls a1)"
        unfolding calls_def by (rule within_use[where c = c1]) (use called[OF good ready] assms(1) in simp_all)
      then show ?thesis using con good True by (simp add: g_def assms(1))
    qed
  qed
  then have "within env (Suc (Suc (N + 2 * n))) h (C_use k p g)" by (rule within_use[where h = h, OF Suc.prems(1)])
  then show ?case unfolding code by simp
qed

end

lemma good_valid: "valid_call (FLAGS_m_retry_times fl) (c, a, w) \<longleftrightarrow> good_client fl c"
  by (simp add: valid_call_def good_client_def)

interpretation sp_lent: lent_client "connect_sp net fl" "invoke remote req" "valid_call (FLAGS_m_retry_times fl)"
    ready_call fl
  for net fl remote req
  by unfold_locales (simp_all add: good_valid ready_call_def)

interpretation authen_lent: lent_client "connect_authen net fl" "authenticate service session"
    "valid_call (FLAGS_m_retry_times fl)" ready_call fl
  for net fl service session
  by unfold_locales (simp_all add: good_valid ready_call_def)

section \<open>The functions\<close>

abbreviation check_tries :: "('w, 'j) environment \<Rightarrow> nat" where
  "check_tries env \<equiv> nat (FLAGS_m_retry_times (env_flags env))"

definition call_tries :: "('w, 'j) environment \<Rightarrow> nat" where
  "call_tries env = max (nat (FLAGS_m_retry_times (env_flags env))) (nat (FLAGS_rpc_call_times (env_flags env)))"

lemma ValidateSession_within:
  assumes "env_ok env" and "\<And>r. within env N Map.empty (ret r)"
  shows "within env (N + 2 * check_tries env + 2) Map.empty (ValidateSession_code env session ret)"
proof -
  have "within env (Suc N + 2 * check_tries env) [Authen_pool \<mapsto> (p, c)]
      (retry_code Authen_pool p (connect_authen (env_network env) (env_flags env))
        (authenticate (env_authen env) q) (m_retry_time c) u (\<lambda>b r. C_put Authen_pool p b (ret r)))"
    if "good_client (env_flags env) c" for p c q u
  proof -
    have "m_retry_time c = int (check_tries env)" using that assms(1) by (simp add: env_ok_def good_client_def)
    moreover have "within env (Suc N) [Authen_pool \<mapsto> (p, c')] (C_put Authen_pool p b (ret r))" for c' b r
      using assms(2) by (simp add: within_simps)
    ultimately show ?thesis
      by (simp only:) (rule authen_lent.loop_within[OF refl _ that], simp, simp only: fun_upd_upd)
  qed
  then show ?thesis unfolding ValidateSession_code_def Let_def by (simp add: within_simps)
qed

lemma session_within:
  assumes "env_ok env" and "\<And>r. within env N Map.empty (ret r)" and "\<And>s. within env N Map.empty (act s)"
  shows "within env (N + 2 * check_tries env + 2) Map.empty (session_code env session fail act ret)"
proof (cases session)
  case None
  then show ?thesis using within_mono[OF assms(2)] by (simp add: session_code_def)
next
  case (Some s)
  then show ?thesis unfolding session_code_def Some option.case
    by (intro ValidateSession_within[OF assms(1)]) (simp only: assms(2,3) split: if_split, blast)
qed

lemma access_within:
  assumes "\<And>access. within env N h (act access)"
  shows "within env (Suc N) h (access_code env act)"
  unfolding access_code_def using assms by (auto simp: within_simps split: prod.splits)

lemma clock_within:
  assumes "\<And>tp. within env N h (act tp)"
  shows "within env (Suc N) h (C_world (\<lambda>w. case env_clock env w of (tp, w') \<Rightarrow> (act tp, w')))"
  using assms by (auto simp: within_simps split: prod.splits)

lemma trade_within:
  assumes "\<And>c. good_client (env_flags env) c \<Longrightarrow> 0 \<le> tries c \<and> tries c \<le> int (call_tries env)"
    and "\<And>r. within env N Map.empty (ret r)"
  shows "within env (N + 2 * call_tries env + 2) Map.empty (trade_code env remote req tries answer fail finish ret)"
proof -
  have "within env (Suc N + 2 * call_tries env) [Trade_pool \<mapsto> (p, c)]
      (retry_code Trade_pool p (connect_sp (env_network env) (env_flags env)) (invoke remote req) (tries c) answer
        (\<lambda>b a. C_put Trade_pool p b (ret (if \<not> b then fail ErrCode_FUTURES_INFO_BUSY ''FUTURES INFO BUSY'' else finish a))))"
    if "good_client (env_flags env) c" for p c
  proof -
    have tries: "tries c = int (nat (tries c))" "nat (tries c) \<le> call_tries env" using assms(1)[OF that] by auto
    have put: "within env (Suc N) [Trade_pool \<mapsto> (p, c')] (C_put Trade_pool p b (ret r))" for c' b r
      using assms(2) by (simp add: within_simps)
    have "within env (Suc N + 2 * nat (tries c)) [Trade_pool \<mapsto> (p, c)]
      (retry_code Trade_pool p (connect_sp (env_network env) (env_flags env)) (invoke remote req) (int (nat (tries c))) answer
        (\<lambda>b a. C_put Trade_pool p b (ret (if \<not> b then fail ErrCode_FUTURES_INFO_BUSY ''FUTURES INFO BUSY'' else finish a))))"
      by (rule sp_lent.loop_within[OF refl _ that]) (simp, simp only: fun_upd_upd put)
    then show ?thesis unfolding tries(1)[symmetric] by (rule within_mono) (simp add: tries(2))
  qed
  then show ?thesis unfolding trade_code_def by (simp add: within_simps)
qed

text \<open>The operations one request needs at most.\<close>

definition worker_bound :: "('w, 'j) environment \<Rightarrow> nat" where
  "worker_bound env = 2 * check_tries env + 2 * call_tries env + 6"

lemma order_tries_bound:
  "env_ok env \<Longrightarrow> 0 \<le> order_tries env c \<and> order_tries env c \<le> int (call_tries env)"
  "env_ok env \<Longrightarrow> good_client (env_flags env) c \<Longrightarrow> 0 \<le> m_retry_time c \<and> m_retry_time c \<le> int (call_tries env)"
  by (auto simp: env_ok_def order_tries_def call_tries_def good_client_def)

text \<open>What follows a function does nothing more; a session check, the two clocks and the call fit.\<close>

lemma blocks_within:
  fixes ret :: "'r \<Rightarrow> ('o, 'w) code"
  assumes "env_ok env" and "\<And>r n. within env n Map.empty (ret r)"
  shows "(\<And>s. within env (2 * call_tries env + 4) Map.empty (act s)) \<Longrightarrow>
      within env (worker_bound env) Map.empty (session_code env session fail act ret)"
    and "(\<And>x. within env (2 * call_tries env + 3) Map.empty (act1 x)) \<Longrightarrow>
      within env (2 * call_tries env + 4) Map.empty (access_code env act1)"
    and "(\<And>x. within env (2 * call_tries env + 2) Map.empty (act2 x)) \<Longrightarrow>
      within env (2 * call_tries env + 3) Map.empty (C_world (\<lambda>w. case env_clock env w of (tp, w') \<Rightarrow> (act2 tp, w')))"
    and "within env (2 * call_tries env + 2) Map.empty (trade_code env remote req m_retry_time answer fail' finish ret)"
    and "within env (2 * call_tries env + 3) Map.empty (trade_code env remote req m_retry_time answer fail' finish ret)"
    and "within env (2 * call_tries env + 2) Map.empty (trade_code env remote2 req2 (order_tries env) answer2 fail' finish2 ret)"
    and "within env (2 * call_tries env + 3) Map.empty (trade_code env remote2 req2 (order_tries env) answer2 fail' finish2 ret)"
proof -
  show "within env (worker_bound env) Map.empty (session_code env session fail act ret)"
    if "\<And>s. within env (2 * call_tries env + 4) Map.empty (act s)"
    by (rule within_mono[OF session_within[OF assms that]]) (simp add: worker_bound_def)
  show "within env (2 * call_tries env + 4) Map.empty (access_code env act1)"
    if "\<And>x. within env (2 * call_tries env + 3) Map.empty (act1 x)"
    by (rule within_mono[OF access_within[OF that]]) simp
  show "within env (2 * call_tries env + 3) Map.empty (C_world (\<lambda>w. case env_clock env w of (tp, w') \<Rightarrow> (act2 tp, w')))"
    if "\<And>x. within env (2 * call_tries env + 2) Map.empty (act2 x)"
    by (rule within_mono[OF clock_within[OF that]]) simp
  have N: "2 * call_tries env + 2 = 0 + 2 * call_tries env + 2" by simp
  have "within env (2 * call_tries env + 2) Map.empty (trade_code env remote req m_retry_time answer fail' finish ret)"
    unfolding N by (rule trade_within[OF order_tries_bound(2)[OF assms(1)] assms(2)])
  moreover have "within env (2 * call_tries env + 2) Map.empty
      (trade_code env remote2 req2 (order_tries env) answer2 fail' finish2 ret)"
    unfolding N by (rule trade_within[OF order_tries_bound(1)[OF assms(1)] assms(2)])
  ultimately show "within env (2 * call_tries env + 2) Map.empty (trade_code env remote req m_retry_time answer fail' finish ret)"
    "within env (2 * call_tries env + 3) Map.empty (trade_code env remote req m_retry_time answer fail' finish ret)"
    "within env (2 * call_tries env + 2) Map.empty (trade_code env remote2 req2 (order_tries env) answer2 fail' finish2 ret)"
    "within env (2 * call_tries env + 3) Map.empty (trade_code env remote2 req2 (order_tries env) answer2 fail' finish2 ret)"
    by (auto elim: within_mono)
qed

lemma queries_within:
  fixes ret :: "'r \<Rightarrow> ('o, 'w) code" and env :: "('w, 'j) environment"
  assumes "env_ok env" and "\<And>r n. within env n Map.empty (ret1 r)" "\<And>r n. within env n Map.empty (ret2 r)"
    "\<And>r n. within env n Map.empty (ret4 r)" "\<And>r n. within env n Map.empty (ret5 r)"
  shows "within env (worker_bound env) Map.empty (QueryMyFuturesAssets_code env q1 r1 ret1)"
    "within env (worker_bound env) Map.empty (QueryPendingOrders_code env q2 r2 ret2)"
    "within env (worker_bound env) Map.empty (QueryHoldingOrders_code env q3 r2 ret2)"
    "within env (worker_bound env) Map.empty (QueryOrderDetail_code env q4 r4 ret4)"
    "within env (worker_bound env) Map.empty (QueryTransactionRecord_code env q5 r5 ret5)"
    "within env (worker_bound env) Map.empty (QueryHistoryOrders_code env q6 r2 ret2)"
  unfolding QueryMyFuturesAssets_code_def QueryPendingOrders_code_def QueryHoldingOrders_code_def
    QueryOrderDetail_code_def QueryTransactionRecord_code_def QueryHistoryOrders_code_def Let_def
  by (rule blocks_within assms)+

lemma optional_within:
  assumes "within env n h x" and "\<And>s. within env n h (act s)"
  shows "within env n h (case session of None \<Rightarrow> x | Some s \<Rightarrow> act s)"
  using assms by (cases session) simp_all

lemma fee_queries_within:
  assumes "env_ok env" and "\<And>r n. within env n Map.empty (ret1 r)" "\<And>r n. within env n Map.empty (ret2 r)"
    "\<And>r n. within env n Map.empty (ret3 r)"
  shows "within env (worker_bound env) Map.empty (QueryUserStatus_code env q1 r1 ret1)"
    "within env (worker_bound env) Map.empty (TradeConfirmInfo_code env q2 r2 ret2)"
    "within env (worker_bound env) Map.empty (QuerySymbolTradeInfo_code env q3 r3 ret3)"
proof -
  have less: "2 * call_tries env + 4 \<le> worker_bound env" by (simp add: worker_bound_def)
  show "within env (worker_bound env) Map.empty (QueryUserStatus_code env q1 r1 ret1)"
    "within env (worker_bound env) Map.empty (TradeConfirmInfo_code env q2 r2 ret2)"
    "within env (worker_bound env) Map.empty (QuerySymbolTradeInfo_code env q3 r3 ret3)"
    unfolding QueryUserStatus_code_def TradeConfirmInfo_code_def QuerySymbolTradeInfo_code_def Let_def
    by (rule optional_within, rule assms, rule within_mono[OF _ less], (rule blocks_within assms)+)+
qed

lemma FuturesTrade_within:
  assumes "env_ok env" and "\<And>r n. within env n Map.empty (ret r)" and "expected_signature env req \<noteq> None"
  shows "within env (worker_bound env) Map.empty (FuturesTrade_code env req resp ret)"
proof (cases "trade_session req")
  case None
  then show ?thesis using assms(2) by (simp add: FuturesTrade_code_def)
next
  case session: (Some session)
  from assms(3) obtain aes_string where sig: "expected_signature env req = Some aes_string" by blast
  show ?thesis
  proof (cases "aes_string = str_field (trade_signature req)")
    case False
    then show ?thesis using assms(2) session sig by (simp add: FuturesTrade_code_def Let_def)
  next
    case True
    show ?thesis unfolding FuturesTrade_code_def Let_def session sig option.case True
      by (simp only: not_True_eq_False if_False simp_thms) (rule blocks_within assms)+
  qed
qed

lemma CancelPendingOrder_within:
  assumes "env_ok env" and "\<And>r n. within env n Map.empty (ret r)"
    and "atoi (cstr (str_field (cancel_order_id req))) = Some order_no"
  shows "within env (worker_bound env) Map.empty (CancelPendingOrder_code env req resp ret)"
  unfolding CancelPendingOrder_code_def Let_def assms(3) option.case by (rule blocks_within assms)+

lemma QuerySymbolByName_within:
  assumes "tame env cs" and "\<And>r n. within env n Map.empty (ret r)"
  shows "within env (Suc n) Map.empty (QuerySymbolByName_code env req resp ret)"
proof -
  let ?url = "FLAGS_futures_search_url (env_flags env) @ ''futures/'' @ str_field (byname_key req)"
  have defined: "QuerySymbolByName env req resp \<lparr> authen_clients = empty_pool, trade_clients = empty_pool, outside = w \<rparr> \<noteq> None" for w
    using QuerySymbolByName_defined[OF assms(1)] .
  show ?thesis
    unfolding QuerySymbolByName_code_def Let_def
  proof (rule within_world)
    fix w
    show "within env n Map.empty (fst (case fnDoCurl (env_curl env) ?url [] w of
        None \<Rightarrow> (C_undefined, w)
      | Some (code, ret_out, w') \<Rightarrow>
          (if code \<noteq> 0 then ret (resp\<lparr>byname_status_info :=
              fill_status (byname_status_info resp) ErrCode_FUTURES_INFO_BUSY ''FUTURES INFO BUSY''\<rparr>)
           else (case js_parse (env_json env) ret_out of
               None \<Rightarrow> ret (resp\<lparr>byname_status_info :=
                 fill_status (byname_status_info resp) ErrCode_UNKNOWN ''UNKNOWN ERROR''\<rparr>)
             | Some root \<Rightarrow> (case ToProtoSymbolByName (env_json env) root resp of
                 None \<Rightarrow> C_undefined
               | Some resp' \<Rightarrow> ret (resp'\<lparr>byname_status_info :=
                   fill_status (byname_status_info resp') ErrCode_SUCCESS ''SUCCESS''\<rparr>))), w')))"
      using defined[of w] assms(2)
      by (auto simp: QuerySymbolByName_def Let_def split: option.splits if_splits prod.splits)
  qed
qed

lemma quiet_within:
  assumes "\<And>r n. within env n Map.empty (ret1 r)" and "\<And>r n. within env n Map.empty (ret2 r)"
  shows "within env n Map.empty (QueryFuturesAccountConfig_code env q1 r1 ret1)"
    and "within env n Map.empty (unwritten_code env q2 r2 ret2)"
  using assms by (simp_all add: QueryFuturesAccountConfig_code_def unwritten_code_def Let_def split: option.splits)

text \<open>Every registered function, on every content.\<close>

lemma code_table_within:
  assumes "env_ok env" and "tame env cs" and "map_of (code_table env cs) name = Some f"
  shows "within env (worker_bound env) Map.empty (f body)"
proof -
  have trade: "expected_signature env (parse_message (codec_FuturesTrade cs) s) \<noteq> None" for s
    using expected_signature_eq[of env "parse_message (codec_FuturesTrade cs) s"] assms(2) by (simp add: tame_def)
  have cancel: "within env (worker_bound env) Map.empty
      (CancelPendingOrder_code env (parse_message (codec_CancelPendingOrder cs) s) resp (\<lambda>r. C_done (h r)))" for s resp h
    using assms(2) CancelPendingOrder_within[OF assms(1) within_done] unfolding tame_def by blast
  have search: "within env (worker_bound env) Map.empty (QuerySymbolByName_code env q resp (\<lambda>r. C_done (h r)))" for q resp h
    by (rule within_mono[OF QuerySymbolByName_within[OF assms(2) within_done, where n = 0]]) (simp add: worker_bound_def)
  note all = queries_within[OF assms(1) within_done within_done within_done within_done]
    fee_queries_within[OF assms(1) within_done within_done within_done]
    FuturesTrade_within[OF assms(1) within_done trade] cancel search quiet_within[OF within_done within_done]
  have "\<forall>f \<in> snd ` set (code_table env cs). within env (worker_bound env) Map.empty (f body)"
    unfolding code_table_def by (simp only: list.set image_insert snd_conv image_empty ball_simps simp_thms base_code_def, intro conjI; rule all)
  moreover have "f \<in> snd ` set (code_table env cs)" using map_of_SomeD[OF assms(3)] by force
  ultimately show ?thesis by blast
qed

end
