(* ===== verification/Workers_System.thy ===== *)
theory Workers_System imports Workers_Props
begin

text \<open>
  Any number of worker threads, each of which runs one registered function after the other, their steps
  interleaved in any order while the services change the world: no step is ever undefined, no two
  workers use the same client, every request comes to its answer, and all clients are back when no
  worker is busy.
\<close>

section \<open>The workers together\<close>

text \<open>
  What a worker is at (None while it waits for a request), the state they share, the steps each has taken
  for its request, and the outputs so far.
\<close>

record 'w workers =
  at_work :: "nat \<Rightarrow> (string, 'w) code option"
  in_common :: "'w proxy_state"
  taken :: "nat \<Rightarrow> nat"
  outputs :: "(nat \<times> string) list"

definition workers_start :: "'w proxy_state \<Rightarrow> 'w workers" where
  "workers_start st = \<lparr> at_work = (\<lambda>t. None), in_common = st, taken = (\<lambda>t. 0), outputs = [] \<rparr>"

text \<open>
  A worker that waits gets a request for a registered path; one that is at work performs its next
  operation; one that is done hands its output over and waits again. Whatever is outside may
  change at any time.
\<close>

inductive workers_step :: "('w, 'j) environment \<Rightarrow> codecs \<Rightarrow> 'w workers \<Rightarrow> 'w workers \<Rightarrow> bool" for env cs where
  takes: "\<lbrakk>at_work s t = None; map_of (code_table env cs) (unslashed path) = Some f\<rbrakk> \<Longrightarrow>
    workers_step env cs s (s\<lparr>at_work := (at_work s)(t \<mapsto> f body), taken := (taken s)(t := 0)\<rparr>)"
| works: "\<lbrakk>at_work s t = Some x; \<forall>out. x \<noteq> C_done out; code_step env x (in_common s) = Some (x', st')\<rbrakk> \<Longrightarrow>
    workers_step env cs s (s\<lparr>at_work := (at_work s)(t \<mapsto> x'), in_common := st', taken := (taken s)(t := Suc (taken s t))\<rparr>)"
| hands_over: "at_work s t = Some (C_done out) \<Longrightarrow>
    workers_step env cs s (s\<lparr>at_work := (at_work s)(t := None), outputs := outputs s @ [(t, out)]\<rparr>)"
| outside_changes: "workers_step env cs s (s\<lparr>in_common := (in_common s)\<lparr>outside := w\<rparr>\<rparr>)"

inductive workers_reachable :: "('w, 'j) environment \<Rightarrow> codecs \<Rightarrow> 'w workers \<Rightarrow> bool" for env cs where
  start: "state_ok env st \<Longrightarrow> workers_reachable env cs (workers_start st)"
| step: "\<lbrakk>workers_reachable env cs s; workers_step env cs s s'\<rbrakk> \<Longrightarrow> workers_reachable env cs s'"

text \<open>The client the next operation of a worker uses or gives up.\<close>

fun next_client :: "('o, 'w) code \<Rightarrow> (pool_name \<times> pointer) option" where
  "next_client (C_use k p g) = Some (k, p)"
| "next_client (C_put k p usable x) = Some (k, p)"
| "next_client x = None"

section \<open>What a step does to the pools\<close>

definition held_in :: "holding \<Rightarrow> pool_name \<Rightarrow> pointer option" where
  "held_in h k = map_option fst (h k)"

text \<open>The objects a worker owns are in the pools as it left them.\<close>

definition owns :: "holding \<Rightarrow> 'w proxy_state \<Rightarrow> bool" where
  "owns h st \<longleftrightarrow> (\<forall>k p c. h k = Some (p, c) \<longrightarrow> heap (pool_of k st) p = Some c)"

definition pools_kept ::
  "('w, 'j) environment \<Rightarrow> holding \<Rightarrow> holding \<Rightarrow> 'w proxy_state \<Rightarrow> 'w proxy_state \<Rightarrow> bool" where
  "pools_kept env h h' st st' \<longleftrightarrow> (\<forall>k. pool_act (env_flags env) (env_malloc env) (new_of env k)
     (held_in h k) (held_in h' k) (pool_of k st) (pool_of k st'))"

lemma new_of_good: "new_of env k w = (c, w') \<Longrightarrow> good_client (env_flags env) c"
  by (cases k) (auto simp: new_of_def dest: new_clients_good)

lemma pools_kept_one:
  assumes "pool_act (env_flags env) (env_malloc env) (new_of env k) (held_in h k) (held_in h' k) (pool_of k st) pool"
    and "\<And>l. l \<noteq> k \<Longrightarrow> h' l = h l \<and> pool_of l st' = pool_of l st" and "pool_of k st' = pool"
  shows "pools_kept env h h' st st'"
  unfolding pools_kept_def
proof
  fix l
  show "pool_act (env_flags env) (env_malloc env) (new_of env l) (held_in h l) (held_in h' l) (pool_of l st) (pool_of l st')"
    by (cases "l = k") (use assms in \<open>auto simp: held_in_def intro: pool_act.idle\<close>)
qed

lemma owns_update:
  assumes "owns h st" and "\<And>l. l \<noteq> k \<Longrightarrow> pool_of l st' = pool_of l st" and "heap (pool_of k st') p = Some c"
  shows "owns (h(k \<mapsto> (p, c))) st'"
  using assms by (auto simp: owns_def split: if_splits)

lemma within_step:
  assumes "within env n h x" and "\<forall>out. x \<noteq> C_done out" and "owns h st" and "env_ok env"
    and "\<And>k. finite (dom (heap (pool_of k st))) \<and> m_client_set (pool_of k st) \<subseteq> dom (heap (pool_of k st)) \<and>
      all_good (env_flags env) (pool_of k st)"
  shows "\<exists>x' st' h' m. code_step env x st = Some (x', st') \<and> within env m h' x' \<and> n = Suc m \<and>
    pools_kept env h h' st st' \<and> owns h' st'"
  using assms(1)
proof (cases rule: within.cases)
  case (within_done out)
  then show ?thesis using assms(2) by blast
next
  case (within_get k m f)
  obtain p pool w where get: "GetClientPtr (env_malloc env) (new_of env k) (pool_of k st) (outside st) = (p, pool, w)"
    by (cases "GetClientPtr (env_malloc env) (new_of env k) (pool_of k st) (outside st)") auto
  have "p \<in> dom (heap pool)" using GetClientPtr_acquires[OF get] assms(4,5) by (simp add: env_ok_def)
  then obtain c where c: "heap pool p = Some c" by blast
  have good: "good_client (env_flags env) c"
    using GetClientPtr_good[OF get, of "env_flags env"] new_of_good assms(5) c unfolding all_good_def by metis
  define st' where "st' = (set_pool k pool st)\<lparr>outside := w\<rparr>"
  have "code_step env x st = Some (f p c, st')" using within_get(2) get c by (simp add: code_step_def st'_def)
  moreover have "pools_kept env h (h(k \<mapsto> (p, c))) st st'"
    by (rule pools_kept_one[where k = k and pool = pool])
      (use within_get(3) get in \<open>auto simp: held_in_def st'_def pool_of_other intro: pool_act.borrows\<close>)
  moreover have "owns (h(k \<mapsto> (p, c))) st'"
    by (rule owns_update[OF assms(3)]) (simp_all add: st'_def pool_of_other c)
  ultimately show ?thesis using within_get(1) within_get(4)[OF good] by blast
next
  case (within_use k p c g m)
  then have c: "heap (pool_of k st) p = Some c" using assms(3) by (simp add: owns_def)
  obtain c' w' x' where g: "g c (outside st) = Some (c', w', x')" "good_client (env_flags env) c'"
    "within env m (h(k \<mapsto> (p, c'))) x'" using within_use(4) by blast
  have "code_step env x st = Some (x', put_client k p c' w' st)" using within_use(2) g c by (simp add: code_step_def)
  moreover have "pools_kept env h (h(k \<mapsto> (p, c'))) st (put_client k p c' w' st)"
    by (rule pools_kept_one[where k = k])
      (use within_use(3) g(2) c in \<open>auto simp: held_in_def pool_of_put_other intro: pool_act.uses\<close>)
  moreover have "owns (h(k \<mapsto> (p, c'))) (put_client k p c' w' st)"
    by (rule owns_update[OF assms(3)]) (simp_all add: pool_of_put_other)
  ultimately show ?thesis using within_use(1) g(3) by blast
next
  case (within_put k p c m x' usable)
  define st' where "st' = set_pool k (release_client p usable (pool_of k st)) st"
  have "code_step env x st = Some (x', st')" using within_put(2) by (simp add: code_step_def st'_def)
  moreover have "pools_kept env h (h(k := None)) st st'"
    by (rule pools_kept_one[where k = k])
      (use within_put(3) in \<open>auto simp: held_in_def st'_def pool_of_other intro: pool_act.returns\<close>)
  moreover have "owns (h(k := None)) st'"
    using assms(3) by (auto simp: owns_def st'_def pool_of_other)
  ultimately show ?thesis using within_put(1,4) by blast
next
  case (within_world m g)
  obtain x' w' where g: "g (outside st) = (x', w')" by fastforce
  have "code_step env x st = Some (x', st\<lparr>outside := w'\<rparr>)" using within_world(2) g by (simp add: code_step_def)
  moreover have "pools_kept env h h st (st\<lparr>outside := w'\<rparr>)" by (simp add: pools_kept_def pool_act.idle)
  moreover have "owns h (st\<lparr>outside := w'\<rparr>)" using assms(3) by (simp add: owns_def)
  moreover have "within env m h x'" using within_world(3)[of "outside st"] g by simp
  ultimately show ?thesis using within_world(1) by blast
qed

section \<open>The invariant\<close>

definition worker_ok :: "('w, 'j) environment \<Rightarrow> 'w workers \<Rightarrow> nat \<Rightarrow> holding \<Rightarrow> bool" where
  "worker_ok env s t h \<longleftrightarrow> owns h (in_common s) \<and>
     (case at_work s t of
        None \<Rightarrow> h = Map.empty
      | Some x \<Rightarrow> \<exists>n. within env n h x \<and> taken s t + n \<le> worker_bound env)"

definition all_owned :: "('w, 'j) environment \<Rightarrow> (nat \<Rightarrow> holding) \<Rightarrow> 'w proxy_state \<Rightarrow> bool" where
  "all_owned env h st \<longleftrightarrow> (\<forall>k. pool_inv (env_flags env) (\<lambda>t. held_in (h t) k) {} (pool_of k st))"

definition workers_inv :: "('w, 'j) environment \<Rightarrow> 'w workers \<Rightarrow> (nat \<Rightarrow> holding) \<Rightarrow> bool" where
  "workers_inv env s h \<longleftrightarrow> all_owned env h (in_common s) \<and> (\<forall>t. worker_ok env s t (h t))"

lemma all_owned_pools:
  assumes "all_owned env h st"
  shows "finite (dom (heap (pool_of k st))) \<and> m_client_set (pool_of k st) \<subseteq> dom (heap (pool_of k st)) \<and>
    all_good (env_flags env) (pool_of k st)"
  using assms unfolding all_owned_def pool_inv_def owned_def by blast

lemma all_owned_step:
  assumes "all_owned env h st" and "pools_kept env (h t) h' st st'" and "env_ok env"
  shows "all_owned env (h(t := h')) st'" and "u \<noteq> t \<Longrightarrow> owns (h u) st \<Longrightarrow> owns (h u) st'"
proof -
  have act: "pool_act (env_flags env) (env_malloc env) (new_of env k) (held_in (h t) k) (held_in h' k)
      (pool_of k st) (pool_of k st')" for k using assms(2) by (simp add: pools_kept_def)
  have inv: "pool_inv (env_flags env) (\<lambda>t. held_in (h t) k) {} (pool_of k st)" for k
    using assms(1) by (simp add: all_owned_def)
  have alloc: "allocates (env_malloc env)" using assms(3) by (simp add: env_ok_def)
  have "(\<lambda>u. held_in ((h(t := h')) u) k) = (\<lambda>u. held_in (h u) k)(t := held_in h' k)" for k by auto
  then show "all_owned env (h(t := h')) st'"
    using pool_act_inv[OF act inv alloc new_of_good] by (simp add: all_owned_def)
  show "owns (h u) st'" if "u \<noteq> t" "owns (h u) st"
    unfolding owns_def
  proof (intro allI impI)
    fix k p c
    assume p: "h u k = Some (p, c)"
    then have "held_in (h u) k = Some p" by (simp add: held_in_def)
    from pool_act_frame[OF act inv alloc that(1), of k p] this have "heap (pool_of k st') p = heap (pool_of k st) p" by simp
    with p that(2) show "heap (pool_of k st') p = Some c" by (simp add: owns_def)
  qed
qed

lemma workers_step_inv:
  assumes "workers_step env cs s s'" and "workers_inv env s h" and "env_ok env" and "tame env cs"
  shows "\<exists>h. workers_inv env s' h"
proof -
  have old: "worker_ok env s u (h u)" for u using assms(2) by (simp add: workers_inv_def)
  show ?thesis using assms(1)
  proof (cases rule: workers_step.cases)
    case (takes t path f body)
    have idle: "h t = Map.empty" using old[of t] takes(2) by (simp add: worker_ok_def)
    have "worker_ok env s' u (h u)" for u
    proof (cases "u = t")
      case True
      have "within env (worker_bound env) (h t) (f body)" unfolding idle by (rule code_table_within[OF assms(3,4) takes(3)])
      then show ?thesis using old[of t] takes(1) True by (auto simp: worker_ok_def)
    next
      case False
      then show ?thesis using old[of u] takes(1) by (auto simp: worker_ok_def split: option.splits)
    qed
    moreover have "all_owned env h (in_common s')" using assms(2) takes(1) by (simp add: workers_inv_def)
    ultimately have "workers_inv env s' h" by (simp add: workers_inv_def)
    then show ?thesis by blast
  next
    case (works t x x' st')
    obtain n where n: "within env n (h t) x" "taken s t + n \<le> worker_bound env" and own: "owns (h t) (in_common s)"
      using old[of t] works(2) by (auto simp: worker_ok_def)
    have pools: "all_owned env h (in_common s)" using assms(2) by (simp add: workers_inv_def)
    obtain h' m where h': "within env m h' x'" "n = Suc m" "pools_kept env (h t) h' (in_common s) st'" "owns h' st'"
      using within_step[OF n(1) works(3) own assms(3) all_owned_pools[OF pools]] works(4) by auto
    note kept = all_owned_step[OF pools h'(3) assms(3)]
    have "worker_ok env s' u ((h(t := h')) u)" for u
    proof (cases "u = t")
      case True
      then show ?thesis using h' n works(1) by (auto simp: worker_ok_def)
    next
      case False
      then show ?thesis using old[of u] kept(2)[OF False] works(1) by (auto simp: worker_ok_def split: option.splits)
    qed
    with kept(1) works(1) have "workers_inv env s' (h(t := h'))" by (simp add: workers_inv_def)
    then show ?thesis by blast
  next
    case (hands_over t out)
    have "h t = Map.empty" using old[of t] hands_over(2) by (auto simp: worker_ok_def within_simps)
    then have "worker_ok env s' u (h u)" for u using old[of u] hands_over(1)
      by (cases "u = t") (auto simp: worker_ok_def split: option.splits)
    then have "workers_inv env s' h" using assms(2) hands_over(1) by (simp add: workers_inv_def)
    then show ?thesis by blast
  next
    case (outside_changes w)
    have "worker_ok env s' u (h u)" for u
      using old[of u] outside_changes by (auto simp: worker_ok_def owns_def split: option.splits)
    then have "workers_inv env s' h" using assms(2) outside_changes by (simp add: workers_inv_def all_owned_def)
    then show ?thesis by blast
  qed
qed

lemma workers_start_inv:
  assumes "state_ok env st"
  shows "workers_inv env (workers_start st) (\<lambda>t. Map.empty)"
proof -
  have "pool_ok (env_flags env) (pool_of k st)" for k
    using assms by (cases k) (simp_all add: state_ok_def pool_of_def)
  then have "finite (dom (heap (pool_of k st))) \<and> m_client_set (pool_of k st) = dom (heap (pool_of k st)) \<and>
      all_good (env_flags env) (pool_of k st)" for k
    unfolding pool_ok_def all_good_def by metis
  then show ?thesis
    by (simp add: workers_inv_def worker_ok_def workers_start_def owns_def all_owned_def pool_inv_def held_in_def
        holders_def owned_def)
qed

lemma workers_reachable_inv:
  assumes "workers_reachable env cs s" and "env_ok env" and "tame env cs"
  shows "\<exists>h. workers_inv env s h"
  using assms(1)
proof (induction rule: workers_reachable.induct)
  case (start st)
  show ?case using workers_start_inv[OF start] by blast
next
  case (step s s')
  then show ?case using workers_step_inv[OF step(2) _ assms(2,3)] by blast
qed

section \<open>Two workers with a client each\<close>

lemma sample_borrows:
  assumes "m_client_set (authen_clients st) = {}"
  shows "\<exists>p g st'. code_step sample_env (ValidateSession_code sample_env session ret) st = Some (C_use Authen_pool p g, st') \<and>
    m_client_set (authen_clients st') = {}"
proof -
  obtain c w where new: "new_authen sample_env (outside st) = (c, w)" by fastforce
  from new_clients_good(2)[OF this] have "m_retry_time c = 3" by (simp add: good_client_def sample_env_def)
  with assms new show ?thesis
    by (simp add: ValidateSession_code_def code_step_def pool_of_def set_pool_def new_of_def GetClientPtr_def
        retry_code.simps[of _ _ _ _ 3] Let_def)
qed

lemma sample_codes:
  "\<exists>f session ret. map_of (code_table sample_env sample_codecs) (unslashed ''/FuturesTrade'') = Some f \<and>
    f ''order'' = ValidateSession_code sample_env session ret"
  "\<exists>f session ret. map_of (code_table sample_env sample_codecs) (unslashed ''/CancelPendingOrder'') = Some f \<and>
    f ''order'' = ValidateSession_code sample_env session ret"
proof -
  have "parse_message (codec_FuturesTrade sample_codecs) ''order'' = sample_trade sample_signature"
    "parse_message (codec_CancelPendingOrder sample_codecs) ''order'' = sample_cancellation"
    by (simp_all add: sample_codecs_def stub_codec_def)
  moreover have "trade_session (sample_trade s) = Some \<lparr> session_str = Some ''good'', uid = Some 1 \<rparr>"
    "cancel_session sample_cancellation = Some \<lparr> session_str = Some ''good'', uid = Some 1 \<rparr>"
    "str_field (trade_signature (sample_trade s)) = s" for s
    by (simp_all add: sample_trade_def sample_cancellation_def)
  ultimately show
    "\<exists>f session ret. map_of (code_table sample_env sample_codecs) (unslashed ''/FuturesTrade'') = Some f \<and>
      f ''order'' = ValidateSession_code sample_env session ret"
    "\<exists>f session ret. map_of (code_table sample_env sample_codecs) (unslashed ''/CancelPendingOrder'') = Some f \<and>
      f ''order'' = ValidateSession_code sample_env session ret"
    by (auto simp: code_table_def unslashed_def base_code_def FuturesTrade_code_def CancelPendingOrder_code_def
        session_code_def sample_signature_expected Let_def)
qed

lemma two_workers:
  "\<exists>s x y p q. workers_reachable sample_env sample_codecs s \<and> at_work s 0 = Some x \<and> at_work s 1 = Some y \<and>
    next_client x = Some (Authen_pool, p) \<and> next_client y = Some (Authen_pool, q)"
proof -
  obtain f s1 r1 where f: "map_of (code_table sample_env sample_codecs) (unslashed ''/FuturesTrade'') = Some f"
    "f ''order'' = ValidateSession_code sample_env s1 r1" using sample_codes(1) by blast
  obtain g s2 r2 where g: "map_of (code_table sample_env sample_codecs) (unslashed ''/CancelPendingOrder'') = Some g"
    "g ''order'' = ValidateSession_code sample_env s2 r2" using sample_codes(2) by blast
  have "m_client_set (authen_clients sample_state) = {}" by (simp add: sample_state_def empty_pool_def)
  from sample_borrows[OF this] obtain p a st1 where
    one: "code_step sample_env (f ''order'') sample_state = Some (C_use Authen_pool p a, st1)"
      "m_client_set (authen_clients st1) = {}" using f(2) by metis
  from sample_borrows[OF one(2)] obtain q b st2 where
    two: "code_step sample_env (g ''order'') st1 = Some (C_use Authen_pool q b, st2)" using g(2) by metis
  let ?s0 = "workers_start sample_state"
  let ?s1 = "?s0\<lparr>at_work := (at_work ?s0)(0 \<mapsto> f ''order''), taken := (taken ?s0)(0 := 0)\<rparr>"
  let ?s2 = "?s1\<lparr>at_work := (at_work ?s1)(1 \<mapsto> g ''order''), taken := (taken ?s1)(1 := 0)\<rparr>"
  let ?s3 = "?s2\<lparr>at_work := (at_work ?s2)(0 \<mapsto> C_use Authen_pool p a), in_common := st1,
    taken := (taken ?s2)(0 := Suc (taken ?s2 0))\<rparr>"
  let ?s4 = "?s3\<lparr>at_work := (at_work ?s3)(1 \<mapsto> C_use Authen_pool q b), in_common := st2,
    taken := (taken ?s3)(1 := Suc (taken ?s3 1))\<rparr>"
  have busy: "\<forall>out. ValidateSession_code sample_env s r \<noteq> C_done out" for s r
    by (simp add: ValidateSession_code_def Let_def)
  have "workers_reachable sample_env sample_codecs ?s1"
    using workers_reachable.start[OF sample_state_ok] workers_step.takes[OF _ f(1), of ?s0 0]
    by (rule workers_reachable.step) (simp add: workers_start_def)
  then have "workers_reachable sample_env sample_codecs ?s2"
    using workers_step.takes[OF _ g(1), of ?s1 1] by (rule workers_reachable.step) (simp add: workers_start_def)
  then have "workers_reachable sample_env sample_codecs ?s3"
    by (rule workers_reachable.step) (rule workers_step.works[of _ _ "f ''order''"],
      use busy f(2) one(1) in \<open>simp_all add: workers_start_def\<close>)
  then have "workers_reachable sample_env sample_codecs ?s4"
    by (rule workers_reachable.step) (rule workers_step.works[of _ _ "g ''order''"],
      use busy g(2) two in \<open>simp_all add: workers_start_def\<close>)
  then show ?thesis by (intro exI[of _ ?s4]) simp
qed

section \<open>No worker gets in the way of another\<close>

lemma next_client_held:
  assumes "within env n h x" and "next_client x = Some (k, p)"
  shows "held_in h k = Some p"
  using assms by (cases rule: within.cases) (auto simp: held_in_def)

lemma workers_step_defined:
  assumes "workers_reachable env cs s" and "env_ok env" and "tame env cs" and "at_work s t = Some x"
  shows "code_step env x (in_common s) \<noteq> None"
proof (cases "\<exists>out. x = C_done out")
  case True
  then show ?thesis by (auto simp: code_step_def)
next
  case False
  obtain h where inv: "workers_inv env s h" using workers_reachable_inv[OF assms(1-3)] by blast
  then have pools: "all_owned env h (in_common s)" and "worker_ok env s t (h t)" by (simp_all add: workers_inv_def)
  then obtain n where "within env n (h t) x" "owns (h t) (in_common s)" using assms(4) by (auto simp: worker_ok_def)
  then show ?thesis using within_step[OF _ _ _ assms(2) all_owned_pools[OF pools]] False by fastforce
qed



section \<open>Every request comes to its answer\<close>

lemma worker_at_work:
  assumes "workers_reachable env cs s" and "env_ok env" and "tame env cs" and "at_work s t = Some x"
  shows "taken s t \<le> worker_bound env" and "\<forall>out. x \<noteq> C_done out \<Longrightarrow> taken s t < worker_bound env"
proof -
  obtain h where "workers_inv env s h" using workers_reachable_inv[OF assms(1-3)] by blast
  then have "worker_ok env s t (h t)" by (simp add: workers_inv_def)
  then obtain n where n: "within env n (h t) x" "taken s t + n \<le> worker_bound env"
    using assms(4) by (auto simp: worker_ok_def)
  then show "taken s t \<le> worker_bound env" by simp
  assume "\<forall>out. x \<noteq> C_done out"
  with n(1) have "0 < n" by (cases rule: within.cases) auto
  with n(2) show "taken s t < worker_bound env" by simp
qed



end
