(* ===== verification/Shutdown.thy ===== *)
theory Shutdown imports Program Connection_Props
begin

text \<open>
  The end of the program: the thread of \<^verbatim>\<open>ConnectionManager::MonitorThread\<close> with the
  constructor and the destructor of its class, the wait for a stop signal, and how
  \<^verbatim>\<open>run\<close> and \<^verbatim>\<open>main\<close> come back. The process is the server of \<open>Connection\<close>
  together with the place its monitor thread and its main thread are at; both are interleaved with the
  handlers.
\<close>

section \<open>The process\<close>

text \<open>The loop of \<^verbatim>\<open>MonitorThread\<close>: its test, the sleep, the pass under the mutex, and its end.\<close>

datatype monitor_pc = M_test | M_sleep | M_pass | M_ended

text \<open>
  The main thread runs the I/O service, then waits in the destructor of the manager for the monitor
  thread, then has returned.
\<close>

datatype main_pc = Main_runs | Main_joins | Main_returned int

record 'w process =
  served :: "'w server"
  signal_wait :: bool
  m_is_stopping :: bool
  monitor_at :: monitor_pc
  main_at :: main_pc

text \<open>After the constructors: the monitor thread has been started and the wait for a signal, too.\<close>

definition new_process :: "'w server \<Rightarrow> 'w process" where
  "new_process s = \<lparr> served = s, signal_wait = True, m_is_stopping = False, monitor_at = M_test, main_at = Main_runs \<rparr>"

text \<open>One step of the monitor thread, at the time \<open>now\<close>; None when it has ended.\<close>

definition MonitorThread_step :: "int \<Rightarrow> 'w process \<Rightarrow> 'w process option" where
  "MonitorThread_step now p =
     (case monitor_at p of
        M_test \<Rightarrow> Some (p\<lparr>monitor_at := if \<not> m_is_stopping p then M_sleep else M_ended\<rparr>)
      | M_sleep \<Rightarrow> Some (p\<lparr>monitor_at := M_pass\<rparr>)
      | M_pass \<Rightarrow> Some (p\<lparr>served := Monitor_pass now (served p), monitor_at := M_test\<rparr>)
      | M_ended \<Rightarrow> None)"

text \<open>
  One step of the main thread; None where it waits. The I/O service runs until it has no work: no
  operation in flight and no wait for a signal. Then the server is destroyed, which sets
  \<^verbatim>\<open>m_is_stopping\<close> and joins the monitor thread, and \<^verbatim>\<open>main\<close> returns 0.
\<close>

definition main_thread_step :: "'w process \<Rightarrow> 'w process option" where
  "main_thread_step p =
     (case main_at p of
        Main_runs \<Rightarrow>
          if pending (served p) = {#} \<and> \<not> signal_wait p
          then Some (p\<lparr>m_is_stopping := True, main_at := Main_joins\<rparr>) else None
      | Main_joins \<Rightarrow> if monitor_at p = M_ended then Some (p\<lparr>main_at := Main_returned 0\<rparr>) else None
      | Main_returned n \<Rightarrow> None)"

text \<open>The completion of the wait for a signal, which is not started again.\<close>

definition signal_step :: "'w process \<Rightarrow> 'w process option" where
  "signal_step p = (if signal_wait p then Some (p\<lparr>served := ServerStop (served p), signal_wait := False\<rparr>) else None)"

text \<open>
  The completion of one operation in flight: the steps of \<open>Connection\<close> other than the monitor and
  the signal. \<open>failed\<close> tells whether a read or a write completes with an error, as every one that is
  started on a closed socket does.
\<close>

inductive completes :: "boost \<Rightarrow> 'w handler \<Rightarrow> bool \<Rightarrow> 'w server \<Rightarrow> 'w server \<Rightarrow> bool" for B H where
  accepted: "Op_accept \<in># pending s \<Longrightarrow> conn_memory mem \<Longrightarrow>
    completes B H failed s (HandleNewConnection e remote mem now (finish_op Op_accept s))"
| closed: "Op_close c \<in># pending s \<Longrightarrow> completes B H failed s (DoClose c (finish_op (Op_close c) s))"
| read_error: "Op_read c \<in># pending s \<Longrightarrow>
    completes B H failed s (HandleRead_error c err (finish_op (Op_read c) s))"
| write_error: "Op_write c bytes \<in># pending s \<Longrightarrow>
    HandleWrite c (Some err) (finish_op (Op_write c bytes) s) = Some s' \<Longrightarrow> completes B H failed s s'"
| read: "Op_read c \<in># pending s \<Longrightarrow> dat \<noteq> [] \<Longrightarrow> length dat \<le> s_http_recv_buf \<Longrightarrow>
    HandleRead B H now c dat (finish_op (Op_read c) s) = Some s' \<Longrightarrow> completes B H False s s'"
| written: "Op_write c bytes \<in># pending s \<Longrightarrow>
    HandleWrite c None (finish_op (Op_write c bytes) s) = Some s' \<Longrightarrow> completes B H False s s'"

inductive process_step :: "boost \<Rightarrow> 'w handler \<Rightarrow> bool \<Rightarrow> 'w process \<Rightarrow> 'w process \<Rightarrow> bool" for B H failed where
  handler: "completes B H failed (served p) s' \<Longrightarrow> process_step B H failed p (p\<lparr>served := s'\<rparr>)"
| signal: "signal_step p = Some p' \<Longrightarrow> process_step B H failed p p'"
| monitor: "MonitorThread_step now p = Some p' \<Longrightarrow> process_step B H failed p p'"
| main: "main_thread_step p = Some p' \<Longrightarrow> process_step B H failed p p'"

inductive process_reachable :: "boost \<Rightarrow> 'w handler \<Rightarrow> 'w process \<Rightarrow> bool" for B H where
  start: "conn_memory mem \<Longrightarrow> process_reachable B H (new_process (new_server mem now w))"
| step: "process_reachable B H p \<Longrightarrow> process_step B H failed p p' \<Longrightarrow> process_reachable B H p'"

section \<open>The process and the server\<close>

lemma completes_step: "completes B H failed s s' \<Longrightarrow> step B H s s'"
  by (induction rule: completes.induct) (blast intro: step.intros)+

lemma process_step_server:
  assumes "process_step B H failed p p'"
  shows "served p' = served p \<or> step B H (served p) (served p')"
  using assms
proof (cases rule: process_step.cases)
  case (monitor now)
  then show ?thesis by (auto simp: MonitorThread_step_def step.monitor split: monitor_pc.splits)
qed (auto simp: signal_step_def main_thread_step_def step.stop_signal completes_step
    split: if_splits main_pc.splits)

definition process_inv :: "'w process \<Rightarrow> bool" where
  "process_inv p \<longleftrightarrow>
     (\<not> signal_wait p \<longrightarrow> m_connections (served p) = {} \<and> \<not> acceptor_open (served p)) \<and>
     (m_is_stopping p \<longleftrightarrow> main_at p \<noteq> Main_runs) \<and>
     (m_is_stopping p \<longrightarrow> pending (served p) = {#} \<and> \<not> signal_wait p) \<and>
     (monitor_at p = M_ended \<longrightarrow> m_is_stopping p) \<and>
     (case main_at p of Main_returned n \<Rightarrow> n = 0 \<and> monitor_at p = M_ended | _ \<Rightarrow> True)"

lemma completes_pending: "completes B H failed s s' \<Longrightarrow> pending s \<noteq> {#}"
  by (induction rule: completes.induct) auto

lemma Monitor_pass_empty: "m_connections s = {} \<Longrightarrow> Monitor_pass now s = s"
  by (simp add: Monitor_pass_def timed_out_def)

lemma process_step_inv:
  assumes "process_step B H failed p p'" and "process_inv p" and "server_inv (served p)"
  shows "process_inv p'"
  using assms(1)
proof (cases rule: process_step.cases)
  case (handler s')
  have "step B H (served p) s'" and "pending (served p) \<noteq> {#}"
    using completes_step completes_pending handler(2) by blast+
  with stopped_step[OF _ assms(3)] assms(2) handler(1) show ?thesis
    by (auto simp: process_inv_def split: main_pc.splits)
next
  case signal
  then show ?thesis using assms(2)
    by (auto simp: signal_step_def process_inv_def ServerStop_def Manager_StopAll_def split: if_splits main_pc.splits)
next
  case (monitor now)
  then show ?thesis using assms(2)
    by (auto simp: MonitorThread_step_def process_inv_def Monitor_pass_empty Monitor_pass_def timed_out_def
        split: if_splits main_pc.splits monitor_pc.splits)
next
  case main
  then show ?thesis using assms(2)
    by (auto simp: main_thread_step_def process_inv_def split: if_splits main_pc.splits)
qed

lemma process_reachable_inv:
  "process_reachable B H p \<Longrightarrow> reachable B H (served p) \<and> process_inv p"
proof (induction rule: process_reachable.induct)
  case (start mem now w)
  then show ?case by (simp add: new_process_def process_inv_def reachable.start)
next
  case (step p failed p')
  then have "reachable B H (served p')" using process_step_server[OF step(2)] reachable.step by metis
  with process_step_inv[OF step(2)] step.IH show ?case using reachable_inv by blast
qed

section \<open>What is left to do\<close>

text \<open>
  Once the signal has been handled: the operations in flight, what the main thread still has to do,
  and, once the monitor thread is told to stop, what is left of its loop.
\<close>

primrec monitor_left :: "monitor_pc \<Rightarrow> nat" where
  "monitor_left M_sleep = 3" | "monitor_left M_pass = 2" | "monitor_left M_test = 1" | "monitor_left M_ended = 0"

definition end_left :: "'w process \<Rightarrow> nat" where
  "end_left p =
     (case main_at p of
        Main_runs \<Rightarrow> size (pending (served p)) + 5
      | Main_joins \<Rightarrow> monitor_left (monitor_at p) + 1
      | Main_returned n \<Rightarrow> 0)"

lemma size_finish: "op \<in># pending s \<Longrightarrow> size (pending s) = Suc (size (pending (finish_op op s)))"
  by (simp add: finish_op_def size_Diff_singleton) (metis Suc_pred size_eq_0_iff_empty empty_iff set_mset_empty not_gr0)

lemma Manager_Stop_absent: "m_connections s = {} \<Longrightarrow> Manager_Stop c s = s"
  by (simp add: Manager_Stop_def)

lemma failed_completion:
  assumes "completes B H True s s'" and "m_connections s = {}" and "\<not> acceptor_open s"
  shows "size (pending s) = Suc (size (pending s'))"
proof -
  have none: "m_connections (finish_op op s) = {}" "\<not> acceptor_open (finish_op op s)" for op
    using assms(2,3) by (simp_all add: finish_op_def)
  show ?thesis using assms(1)
    by (cases rule: completes.cases)
      (auto simp: size_finish HandleNewConnection_def HandleRead_error_def HandleWrite_def none
        Manager_Stop_absent DoClose_def split: if_splits)
qed

lemma completion_possible:
  assumes "pending s \<noteq> {#}"
  shows "\<exists>s'. completes B H True s s'"
proof -
  obtain op where op: "op \<in># pending s" using assms by auto
  show ?thesis
  proof (cases op)
    case Op_accept
    then show ?thesis using op completes.accepted[OF _ sample_memory_ok] by blast
  next
    case (Op_write c bytes)
    then show ?thesis using op completes.write_error[of c bytes s other_error] by (simp add: HandleWrite_def) blast
  qed (use op completes.read_error completes.closed in blast)+
qed

lemma monitor_possible: "monitor_at p \<noteq> M_ended \<Longrightarrow> MonitorThread_step now p \<noteq> None"
  by (auto simp: MonitorThread_step_def split: monitor_pc.splits)

lemma failed_step_left:
  assumes "process_step B H True p p'" and "process_inv p" and "\<not> signal_wait p"
  shows "end_left p' < end_left p \<or>
    (main_at p = Main_runs \<and> p' = p\<lparr>monitor_at := monitor_at p'\<rparr> \<and> end_left p' = end_left p)"
  using assms(1)
proof (cases rule: process_step.cases)
  case (handler s')
  have "main_at p = Main_runs"
    using assms(2) completes_pending[OF handler(2)] by (auto simp: process_inv_def)
  with failed_completion[OF handler(2)] assms(2,3) handler(1) show ?thesis
    by (simp add: end_left_def process_inv_def)
next
  case signal
  then show ?thesis using assms(3) by (simp add: signal_step_def)
next
  case (monitor now)
  then show ?thesis using assms(2,3)
    by (auto simp: MonitorThread_step_def end_left_def process_inv_def Monitor_pass_empty
        split: monitor_pc.splits main_pc.splits if_splits)
next
  case main
  have "monitor_left m \<le> 3" for m by (cases m) simp_all
  from this[of "monitor_at p"] main show ?thesis
    by (auto simp: main_thread_step_def end_left_def split: main_pc.splits if_splits)
qed

lemma failed_step_possible:
  assumes "process_inv p" and "\<not> signal_wait p" and "main_at p \<noteq> Main_returned 0"
  shows "\<exists>p'. process_step B H True p p' \<and> end_left p' < end_left p"
proof (cases "main_at p")
  case Main_runs
  show ?thesis
  proof (cases "pending (served p) = {#}")
    case True
    have "monitor_left m \<le> 3" for m by (cases m) simp_all
    from this[of "monitor_at p"] have "monitor_left (monitor_at p) < 4" by simp
    moreover have "main_thread_step p = Some (p\<lparr>m_is_stopping := True, main_at := Main_joins\<rparr>)"
      using True Main_runs assms(2) by (simp add: main_thread_step_def)
    ultimately show ?thesis using process_step.main Main_runs True by (fastforce simp: end_left_def)
  next
    case False
    then obtain s' where s': "completes B H True (served p) s'" using completion_possible by blast
    then have "size (pending (served p)) = Suc (size (pending s'))"
      using failed_completion assms(1,2) by (auto simp: process_inv_def)
    with process_step.handler[OF s'] Main_runs show ?thesis by (fastforce simp: end_left_def)
  qed
next
  case Main_joins
  show ?thesis
  proof (cases "monitor_at p = M_ended")
    case True
    then have "main_thread_step p = Some (p\<lparr>main_at := Main_returned 0\<rparr>)" using Main_joins by (simp add: main_thread_step_def)
    then show ?thesis using process_step.main Main_joins by (fastforce simp: end_left_def)
  next
    case False
    then obtain p' where p': "MonitorThread_step 0 p = Some p'" using monitor_possible by blast
    from process_step.monitor[OF this] have "process_step B H True p p'" .
    from failed_step_left[OF this assms(1,2)] this Main_joins show ?thesis by auto
  qed
next
  case (Main_returned n)
  then show ?thesis using assms by (auto simp: process_inv_def)
qed

section \<open>Properties\<close>


text \<open>A process with one connection that is told to stop, and after the failures of what was in flight.\<close>

definition sample_stopped :: "nat process" where
  "sample_stopped = (new_process sample_accepted)\<lparr>served := ServerStop sample_accepted, signal_wait := False\<rparr>"

definition sample_drained :: "nat server" where
  "sample_drained = DoClose 1 (finish_op (Op_close 1) (HandleRead_error 1 operation_aborted (finish_op (Op_read 1)
     (HandleNewConnection True True sample_memory 9 (finish_op Op_accept (ServerStop sample_accepted))))))"

definition sample_returned :: "nat process" where
  "sample_returned = \<lparr> served = sample_drained, signal_wait = False, m_is_stopping = True, monitor_at = M_ended,
     main_at = Main_returned 0 \<rparr>"

lemma new_process_accepted: "process_reachable B H (new_process sample_accepted)"
proof -
  have "completes B H True (started_with 0) sample_accepted"
    unfolding sample_accepted_def accepted_with_def
    by (rule completes.accepted) (simp_all add: started_with_pending sample_memory_ok)
  from process_step.handler[of B H True "new_process (started_with 0)", simplified new_process_def process.simps, OF this]
  have "process_step B H True (new_process (started_with 0)) (new_process sample_accepted)" by (simp add: new_process_def)
  moreover have "process_reachable B H (new_process (started_with (0::nat)))"
    unfolding started_with_def by (rule process_reachable.start[OF sample_memory_ok])
  ultimately show ?thesis using process_reachable.step by blast
qed

lemma sample_stopped_reachable: "process_reachable B H sample_stopped"
  using new_process_accepted
  by (rule process_reachable.step, intro process_step.signal) (simp add: signal_step_def sample_stopped_def new_process_def)

lemma stopped_pending: "pending (ServerStop sample_accepted) = {#Op_accept, Op_read 1, Op_close 1#}"
  "m_connections (ServerStop sample_accepted) = {}" "acceptor_open (ServerStop sample_accepted) = False"
  by (simp_all add: ServerStop_def Manager_StopAll_def sample_accepted_state)

lemma process_run_reachable:
  "(process_step B H failed)\<^sup>*\<^sup>* p q \<Longrightarrow> process_reachable B H p \<Longrightarrow> process_reachable B H q"
  by (induction rule: rtranclp_induct) (auto intro: process_reachable.step)

lemma sample_returned_reachable: "process_reachable B H sample_returned"
proof -
  let ?s0 = "ServerStop sample_accepted"
  let ?s1 = "HandleNewConnection True True sample_memory 9 (finish_op Op_accept ?s0)"
  let ?s2 = "HandleRead_error 1 operation_aborted (finish_op (Op_read 1) ?s1)"
  have p1: "pending ?s1 = {#Op_read 1, Op_close 1#}" "m_connections ?s1 = {}"
    and p2: "pending ?s2 = {#Op_close 1#}"
    and p3: "pending sample_drained = {#}"
    by (simp_all add: HandleNewConnection_def finish_op_def stopped_pending HandleRead_error_def Manager_Stop_absent
        DoClose_def sample_drained_def)
  have c: "completes B H True ?s0 ?s1" "completes B H True ?s1 ?s2" "completes B H True ?s2 sample_drained"
    using completes.accepted[OF _ sample_memory_ok, of ?s0 B H True True True 9]
      completes.read_error[of 1 ?s1 B H True operation_aborted]
      completes.closed[of 1 ?s2 B H True, folded sample_drained_def]
    unfolding p1 p2 stopped_pending by simp_all
  define at where "at s stop mon mn = \<lparr> served = s, signal_wait = False, m_is_stopping = stop, monitor_at = mon, main_at = mn \<rparr>"
    for s :: "nat server" and stop mon mn
  note h = process_step.handler[where p = "at s False M_test Main_runs" for s, simplified at_def process.simps]
  have "process_step B H True (at s False M_test Main_runs) (at s' False M_test Main_runs)" if "completes B H True s s'" for s s'
    using h[OF that] by (simp add: at_def)
  from this[OF c(1)] this[OF c(2)] this[OF c(3)]
  have "(process_step B H True)\<^sup>*\<^sup>* (at ?s0 False M_test Main_runs) (at sample_drained False M_test Main_runs)" by simp
  also have "process_step B H True (at sample_drained False M_test Main_runs) (at sample_drained True M_test Main_joins)"
    by (rule process_step.main) (simp add: main_thread_step_def at_def p3)
  also have "process_step B H True (at sample_drained True M_test Main_joins) (at sample_drained True M_ended Main_joins)"
    by (rule process_step.monitor[where now = 0]) (simp add: MonitorThread_step_def at_def)
  also have "process_step B H True (at sample_drained True M_ended Main_joins) sample_returned"
    by (rule process_step.main) (simp add: main_thread_step_def at_def sample_returned_def)
  finally have "(process_step B H True)\<^sup>*\<^sup>* sample_stopped sample_returned"
    by (simp add: sample_stopped_def new_process_def at_def)
  from process_run_reachable[OF this sample_stopped_reachable] show ?thesis .
qed


text \<open>C17:
  After a stop signal the program ends. From every state it can reach in which the signal has been handled,
  once reads and writes in flight fail, as they do on sockets that are being closed: at every moment of every run
  from there, either \<^verbatim>\<open>main\<close> has returned or a step is possible that leaves less to do; no step
  leaves more, and the only steps that leave as much are those of the monitor thread while the main
  thread still runs handlers. At the start there is one step to do per operation in flight and at most five
  more, so that handlers, destructor and monitor thread never wait for each other in a circle.
\<close>

theorem stopped_process_returns:
  assumes "process_reachable B H p" and "\<not> signal_wait p" and "(process_step B H True)\<^sup>*\<^sup>* p q"
  shows "end_left q \<le> end_left p \<and> end_left p \<le> size (pending (served p)) + 5 \<and>
    (main_at q = Main_returned 0 \<or> (\<exists>r. process_step B H True q r \<and> end_left r < end_left q)) \<and>
    (\<forall>r. process_step B H True q r \<longrightarrow> end_left r < end_left q \<or>
      (main_at q = Main_runs \<and> r = q\<lparr>monitor_at := monitor_at r\<rparr> \<and> end_left r = end_left q))"
proof -
  have run: "process_reachable B H q \<and> \<not> signal_wait q \<and> end_left q \<le> end_left p"
    using assms(3)
  proof (induction rule: rtranclp_induct)
    case (step q r)
    have inv: "process_inv q" using process_reachable_inv step.IH by blast
    have "\<not> signal_wait r" using step(2) step.IH
      by (cases rule: process_step.cases)
        (auto simp: signal_step_def MonitorThread_step_def main_thread_step_def split: if_splits main_pc.splits monitor_pc.splits)
    moreover have "end_left r \<le> end_left q" using failed_step_left[OF step(2) inv] step.IH by auto
    ultimately show ?case using step process_reachable.step[of B H q] by fastforce
  qed (simp add: assms)
  then have inv: "process_inv q" and wait: "\<not> signal_wait q" using process_reachable_inv by blast+
  have "monitor_left m \<le> 3" for m by (cases m) simp_all
  from this[of "monitor_at p"] have "end_left p \<le> size (pending (served p)) + 5"
    by (simp add: end_left_def split: main_pc.splits)
  with run failed_step_possible[OF inv wait] failed_step_left[OF _ inv wait] show ?thesis by blast
qed

lemma stopped_process_returns_witness:
  "end_left sample_stopped = 8 \<and>
    (\<exists>r. process_step plain_boost sample_handler True sample_stopped r \<and> end_left r < 8)"
proof -
  have "\<not> signal_wait sample_stopped" "end_left sample_stopped = 8" "main_at sample_stopped \<noteq> Main_returned 0"
    by (simp_all add: sample_stopped_def new_process_def end_left_def stopped_pending)
  with stopped_process_returns[OF sample_stopped_reachable[of plain_boost sample_handler] _ rtranclp.rtrancl_refl]
  show ?thesis by metis
qed

end
