(* ===== verification/Ssl_Connection.thy ===== *)
theory Ssl_Connection imports Serving
begin

text \<open>
  The connection over TLS of \<^verbatim>\<open>server_base/ssl_connection.h\<close> and \<^verbatim>\<open>ssl_connection.cc\<close>,
  which the build leaves out. It was written for an older request, parser, reply and request handler,
  whose files are not in the repository: they are parameters. As the file stands it does not compile
  (\<^verbatim>\<open>HandleHandShak\<close> is defined but not declared, and \<^verbatim>\<open>boost::Asio\<close> is misspelt); the
  model follows its bodies. One handler runs at a time.
\<close>

section \<open>State\<close>

record ('p, 'q, 'r, 'w) ssl_parts =
  ssl_parse :: "'p \<Rightarrow> 'q \<Rightarrow> string \<Rightarrow> tribool \<times> 'p \<times> 'q"
  ssl_handle :: "'q \<Rightarrow> 'r \<Rightarrow> 'w \<Rightarrow> 'r \<times> 'w"
  ssl_bad_request :: 'r
  ssl_to_buffers :: "'r \<Rightarrow> string"

text \<open>
  The asynchronous operations a connection has started: the handshake, a read, a write of bytes, and
  the wait of a timer. \<open>deleted\<close> tells whether \<^verbatim>\<open>delete this\<close> was reached, \<open>stopped\<close> whether the
  manager was told to stop the connection.
\<close>

datatype ssl_op = Ssl_handshake | Ssl_read | Ssl_write string | Ssl_wait

record ('p, 'q, 'r, 'w) ssl_connection =
  ssl_request :: 'q
  ssl_request_parser :: 'p
  ssl_reply :: 'r
  ssl_open :: bool
  deleted :: bool
  stopped :: bool
  in_flight :: "ssl_op multiset"
  ssl_world :: 'w

definition ssl_start :: "ssl_op \<Rightarrow> ('p, 'q, 'r, 'w) ssl_connection \<Rightarrow> ('p, 'q, 'r, 'w) ssl_connection" where
  "ssl_start op s = s\<lparr>in_flight := add_mset op (in_flight s)\<rparr>"

definition ssl_finish :: "ssl_op \<Rightarrow> ('p, 'q, 'r, 'w) ssl_connection \<Rightarrow> ('p, 'q, 'r, 'w) ssl_connection" where
  "ssl_finish op s = s\<lparr>in_flight := in_flight s - {#op#}\<rparr>"

section \<open>The functions of the class\<close>

definition new_ssl_connection :: "'q \<Rightarrow> 'p \<Rightarrow> 'r \<Rightarrow> 'w \<Rightarrow> ('p, 'q, 'r, 'w) ssl_connection" where
  "new_ssl_connection q p r w =
     \<lparr> ssl_request = q, ssl_request_parser = p, ssl_reply = r, ssl_open = True, deleted = False, stopped = False,
       in_flight = {#}, ssl_world = w \<rparr>"

definition Ssl_Start :: "('p, 'q, 'r, 'w) ssl_connection \<Rightarrow> ('p, 'q, 'r, 'w) ssl_connection" where
  "Ssl_Start s = ssl_start Ssl_handshake s"

definition Ssl_HandleHandShak :: "bool \<Rightarrow> ('p, 'q, 'r, 'w) ssl_connection \<Rightarrow> ('p, 'q, 'r, 'w) ssl_connection" where
  "Ssl_HandleHandShak error s = (if \<not> error then ssl_start Ssl_read s else s\<lparr>deleted := True\<rparr>)"

definition Ssl_Stop :: "('p, 'q, 'r, 'w) ssl_connection \<Rightarrow> ('p, 'q, 'r, 'w) ssl_connection" where
  "Ssl_Stop s = s\<lparr>ssl_open := False\<rparr>"

text \<open>The manager's \<^verbatim>\<open>Stop\<close> takes the connection out of its set and stops it.\<close>

definition Ssl_Manager_Stop :: "('p, 'q, 'r, 'w) ssl_connection \<Rightarrow> ('p, 'q, 'r, 'w) ssl_connection" where
  "Ssl_Manager_Stop s = Ssl_Stop (s\<lparr>stopped := True\<rparr>)"

definition Ssl_Reply ::
  "('p, 'q, 'r, 'w) ssl_parts \<Rightarrow> ('p, 'q, 'r, 'w) ssl_connection \<Rightarrow> ('p, 'q, 'r, 'w) ssl_connection" where
  "Ssl_Reply P s = ssl_start (Ssl_write (ssl_to_buffers P (ssl_reply s))) s"

text \<open>
  A read that gave \<open>dat\<close>. After a request the answer is written and the next read starts at once;
  neither the parser nor the request is reset.
\<close>

definition Ssl_HandleRead ::
  "('p, 'q, 'r, 'w) ssl_parts \<Rightarrow> string \<Rightarrow> ('p, 'q, 'r, 'w) ssl_connection \<Rightarrow> ('p, 'q, 'r, 'w) ssl_connection" where
  "Ssl_HandleRead P dat s =
     (case ssl_parse P (ssl_request_parser s) (ssl_request s) dat of
        (Tri_true, p, q) \<Rightarrow>
          (case ssl_handle P q (ssl_reply s) (ssl_world s) of (rep, w) \<Rightarrow>
             ssl_start Ssl_read (Ssl_Reply P
               (s\<lparr>ssl_request_parser := p, ssl_request := q, ssl_reply := rep, ssl_world := w\<rparr>)))
      | (Tri_false, p, q) \<Rightarrow>
          Ssl_Reply P (s\<lparr>ssl_request_parser := p, ssl_request := q, ssl_reply := ssl_bad_request P\<rparr>)
      | (Indeterminate, p, q) \<Rightarrow>
          ssl_start Ssl_read (s\<lparr>ssl_request_parser := p, ssl_request := q\<rparr>))"

definition Ssl_HandleRead_error ::
  "io_error \<Rightarrow> ('p, 'q, 'r, 'w) ssl_connection \<Rightarrow> ('p, 'q, 'r, 'w) ssl_connection" where
  "Ssl_HandleRead_error e s = (if e \<noteq> operation_aborted then Ssl_Manager_Stop s else Ssl_Manager_Stop s)"

text \<open>
  After a write a timer is started; a timer it replaces is cancelled, which completes its wait, and
  \<^verbatim>\<open>Reply\<close> is called for a wait however it ends. \<open>remote\<close> says whether \<^verbatim>\<open>remote_endpoint()\<close>,
  which is only logged, returned; an exception there leaves the handler (None).
\<close>

definition Ssl_HandleWrite ::
  "io_error option \<Rightarrow> bool \<Rightarrow> ('p, 'q, 'r, 'w) ssl_connection \<Rightarrow> ('p, 'q, 'r, 'w) ssl_connection option" where
  "Ssl_HandleWrite e remote s =
     (case e of
        None \<Rightarrow> if remote then Some (ssl_start Ssl_wait s) else None
      | Some err \<Rightarrow> if err \<noteq> operation_aborted then Some (Ssl_Manager_Stop s) else Some (Ssl_Manager_Stop s))"

section \<open>Steps\<close>

text \<open>
  The completions, labelled with whether they began an answer, or were a write that failed.
\<close>

datatype ssl_event = Ssl_answered | Ssl_write_failed | Ssl_silent

inductive ssl_step ::
  "('p, 'q, 'r, 'w) ssl_parts \<Rightarrow> ('p, 'q, 'r, 'w) ssl_connection \<Rightarrow> ssl_event \<Rightarrow>
   ('p, 'q, 'r, 'w) ssl_connection \<Rightarrow> bool" for P where
  handshake: "\<lbrakk>Ssl_handshake \<in># in_flight s; \<not> deleted s\<rbrakk> \<Longrightarrow>
    ssl_step P s Ssl_silent (Ssl_HandleHandShak error (ssl_finish Ssl_handshake s))"
| read: "\<lbrakk>Ssl_read \<in># in_flight s; \<not> deleted s\<rbrakk> \<Longrightarrow>
    ssl_step P s (if fst (ssl_parse P (ssl_request_parser s) (ssl_request s) dat) = Indeterminate
        then Ssl_silent else Ssl_answered)
      (Ssl_HandleRead P dat (ssl_finish Ssl_read s))"
| read_error: "\<lbrakk>Ssl_read \<in># in_flight s; \<not> deleted s\<rbrakk> \<Longrightarrow>
    ssl_step P s Ssl_silent (Ssl_HandleRead_error e (ssl_finish Ssl_read s))"
| written: "\<lbrakk>Ssl_write bytes \<in># in_flight s; \<not> deleted s;
      Ssl_HandleWrite e remote (ssl_finish (Ssl_write bytes) s) = Some s'\<rbrakk> \<Longrightarrow>
    ssl_step P s (if e = None then Ssl_silent else Ssl_write_failed) s'"
| waited: "\<lbrakk>Ssl_wait \<in># in_flight s; \<not> deleted s\<rbrakk> \<Longrightarrow>
    ssl_step P s Ssl_silent (Ssl_Reply P (ssl_finish Ssl_wait s))"

inductive ssl_run ::
  "('p, 'q, 'r, 'w) ssl_parts \<Rightarrow> ('p, 'q, 'r, 'w) ssl_connection \<Rightarrow> ssl_event list \<Rightarrow>
   ('p, 'q, 'r, 'w) ssl_connection \<Rightarrow> bool" for P where
  started: "ssl_run P (Ssl_Start (new_ssl_connection q p r w)) [] (Ssl_Start (new_ssl_connection q p r w))"
| more: "\<lbrakk>ssl_run P s0 es s; ssl_step P s e s'\<rbrakk> \<Longrightarrow> ssl_run P s0 (es @ [e]) s'"

section \<open>What is in flight\<close>

definition waits_for_input :: "ssl_op \<Rightarrow> bool" where
  "waits_for_input op \<longleftrightarrow> op \<in> {Ssl_handshake, Ssl_read}"

definition inputs :: "('p, 'q, 'r, 'w) ssl_connection \<Rightarrow> nat" where
  "inputs s = size (filter_mset waits_for_input (in_flight s))"

definition outputs :: "('p, 'q, 'r, 'w) ssl_connection \<Rightarrow> nat" where
  "outputs s = size (filter_mset (\<lambda>op. \<not> waits_for_input op) (in_flight s))"

definition count_events :: "ssl_event \<Rightarrow> ssl_event list \<Rightarrow> nat" where
  "count_events e es = length (filter ((=) e) es)"

lemma ssl_counts [simp]:
  "inputs (ssl_start op s) = inputs s + (if waits_for_input op then 1 else 0)"
  "outputs (ssl_start op s) = outputs s + (if waits_for_input op then 0 else 1)"
  by (simp_all add: inputs_def outputs_def ssl_start_def)

lemma ssl_finish_counts:
  assumes "op \<in># in_flight s"
  shows "inputs s = inputs (ssl_finish op s) + (if waits_for_input op then 1 else 0)"
    "outputs s = outputs (ssl_finish op s) + (if waits_for_input op then 0 else 1)"
proof -
  obtain M where M: "in_flight s = add_mset op M" using assms by (metis mset_add)
  then show "inputs s = inputs (ssl_finish op s) + (if waits_for_input op then 1 else 0)"
    "outputs s = outputs (ssl_finish op s) + (if waits_for_input op then 0 else 1)"
    by (simp_all add: inputs_def outputs_def ssl_finish_def)
qed

lemma ssl_finish_simps [simp]:
  "ssl_request_parser (ssl_finish op s) = ssl_request_parser s" "ssl_request (ssl_finish op s) = ssl_request s"
  by (simp_all add: ssl_finish_def)

lemma waits_simps [simp]:
  "waits_for_input Ssl_handshake" "waits_for_input Ssl_read" "\<not> waits_for_input (Ssl_write b)" "\<not> waits_for_input Ssl_wait"
  by (simp_all add: waits_for_input_def)

lemma ssl_updates [simp]:
  "inputs (s\<lparr>ssl_request_parser := p\<rparr>) = inputs s" "inputs (s\<lparr>ssl_request := q\<rparr>) = inputs s"
  "inputs (s\<lparr>ssl_reply := r\<rparr>) = inputs s" "inputs (s\<lparr>ssl_world := w\<rparr>) = inputs s"
  "inputs (s\<lparr>deleted := b\<rparr>) = inputs s" "inputs (s\<lparr>stopped := b\<rparr>) = inputs s" "inputs (s\<lparr>ssl_open := b\<rparr>) = inputs s"
  "outputs (s\<lparr>ssl_request_parser := p\<rparr>) = outputs s" "outputs (s\<lparr>ssl_request := q\<rparr>) = outputs s"
  "outputs (s\<lparr>ssl_reply := r\<rparr>) = outputs s" "outputs (s\<lparr>ssl_world := w\<rparr>) = outputs s"
  "outputs (s\<lparr>deleted := b\<rparr>) = outputs s" "outputs (s\<lparr>stopped := b\<rparr>) = outputs s" "outputs (s\<lparr>ssl_open := b\<rparr>) = outputs s"
  by (simp_all add: inputs_def outputs_def)

lemmas ssl_defs = Ssl_HandleHandShak_def Ssl_HandleRead_def Ssl_HandleRead_error_def Ssl_HandleWrite_def
  Ssl_Reply_def Ssl_Manager_Stop_def Ssl_Stop_def

lemma ssl_step_counts:
  assumes "ssl_step P s e s'"
  shows "inputs s' \<le> inputs s \<and>
    outputs s' + (if e = Ssl_write_failed then 1 else 0) = outputs s + (if e = Ssl_answered then 1 else 0)"
  using assms
proof (cases rule: ssl_step.cases)
  case (handshake error)
  then show ?thesis using ssl_finish_counts[OF handshake(3)] by (simp add: ssl_defs)
next
  case (read dat)
  then show ?thesis using ssl_finish_counts[OF read(3)]
    by (auto simp: ssl_defs split: prod.splits tribool.splits)
next
  case (read_error e)
  then show ?thesis using ssl_finish_counts[OF read_error(3)] by (simp add: ssl_defs)
next
  case (written bytes e remote)
  then show ?thesis using ssl_finish_counts[OF written(2)]
    by (auto simp: ssl_defs split: option.splits if_splits)
next
  case waited
  then show ?thesis using ssl_finish_counts[OF waited(3)] by (simp add: ssl_defs)
qed

text \<open>
  A TLS connection never stops answering: each request it answered is a chain of its own that waits
  five seconds and writes the latest answer again, for as long as no write fails. So the writes and
  waits in flight are as many as the requests answered less the writes that failed, without bound,
  and several writes may be under way on one stream, which asio does not allow; while at most one
  read or handshake is.
\<close>

lemma ssl_answers_repeat:
  assumes "ssl_run P s0 es s"
  shows "inputs s \<le> 1 \<and> outputs s + count_events Ssl_write_failed es = count_events Ssl_answered es"
  using assms
proof (induction rule: ssl_run.induct)
  case (started q p r w)
  show ?case
    by (simp add: Ssl_Start_def count_events_def) (simp add: new_ssl_connection_def inputs_def outputs_def)
next
  case (more s0 es s e s')
  from ssl_step_counts[OF more.hyps(2)] more.IH show ?case
    by (auto simp: count_events_def split: if_splits)
qed

end
