(* ===== verification/Spec2Isabelle.thy ===== *)
theory Spec2Isabelle imports Md5_Props Connection_Props Http_Consume Mime_Types Test_Api Order_Logs Workers_System Shutdown Ssl_Connection
begin

text \<open>
  A verification library for \<^verbatim>\<open>futures_cell_proxy\<close>, an HTTP server (C++, boost::asio) that
  answers the requests of a futures-trading app by calls of two Thrift services, one that
  authenticates users and one that trades.

  The program, and where its parts are modelled. Paths are relative to \<^verbatim>\<open>src/\<close>.

    \<^item> Bytes arrive on a connection (\<^verbatim>\<open>server_base/connection\<close>, \<^verbatim>\<open>connection_manager\<close>,
      \<^verbatim>\<open>server_base\<close>): theory \<open>Connection\<close>. The state \<open>server\<close> holds the connections, the
      manager's set and the multiset of asynchronous operations that are in flight; \<open>step\<close>
      completes one of them and runs its handler, \<open>reachable\<close> is what any order of completions
      can lead to. \<open>Connection_Inv\<close> states the interface of the manager as a locale and proves the
      invariant of the server by rule induction; \<open>Connection_Props\<close> holds its properties.
    \<^item> The bytes are parsed by a stackless coroutine (\<^verbatim>\<open>server_base/request_parser\<close>,
      \<^verbatim>\<open>request\<close>, \<^verbatim>\<open>header\<close>): \<open>Http_Parser\<close>, whose \<open>pc\<close> is the point the coroutine
      continues at. \<open>Http_Requests\<close> relates it to the requests a client may send;
      \<open>Http_Parser_Props\<close> holds its properties. \<open>Http_Consume\<close> models \<^verbatim>\<open>consume\<close>,
      the character-by-character parser the class keeps beside it, and relates the two. \<open>Http_Message\<close> has the messages, the replies
      (\<^verbatim>\<open>reply\<close>) and a reader of replies, written for the specification.
    \<^item> The request is dispatched by its path (\<^verbatim>\<open>server_base/handler\<close>): \<open>Http_Handler\<close> and
      \<open>Http_Handler_Props\<close>; the map of functions is an interface, the locale
      \<open>handle_registry\<close>.
    \<^item> The program registers nineteen functions (\<^verbatim>\<open>src/request_handler\<close>,
      \<^verbatim>\<open>common/define.h\<close>): \<open>Request_Handler\<close>.
    \<^item> Each runs the business logic (\<^verbatim>\<open>src/futures_proxy\<close>): \<open>Futures_Proxy\<close>, with the
      invariant of its state in \<open>Futures_Proxy_Inv\<close> and its properties in
      \<open>Futures_Proxy_Props\<close>. It translates answers (\<^verbatim>\<open>src/futures_convert\<close>:
      \<open>Futures_Convert\<close>) and uses helpers (\<^verbatim>\<open>common/common\<close>: \<open>Common_Util\<close>) and
      MD5 (\<^verbatim>\<open>common/md5\<close>: \<open>Md5\<close>, against the standard in \<open>Md5_Spec\<close>, properties in
      \<open>Md5_Props\<close>).
    \<^item> It borrows clients of the two services from pools (\<^verbatim>\<open>src/rpc/client_tmplate.h\<close> and the
      two \<^verbatim>\<open>_pool\<close> files: \<open>Client_Pool\<close>, locale \<open>exclusive_pool\<close>); a client
      connects lazily and retries (\<^verbatim>\<open>src/rpc/*_wrapper\<close>: \<open>Rpc_Client\<close> and
      \<open>Rpc_Client_Props\<close>, locale \<open>retried_call\<close>).
    \<^item> Many threads do so at once: \<open>Order_Threads\<close> takes \<^verbatim>\<open>FuturesTrade\<close> apart into the
      operations on what threads share (pools, network, services), one \<open>order_step\<close> each, and
      \<open>threads_step\<close> interleaves any number of them with the pool operations of the other functions.
      \<open>Order_Threads_Props\<close> holds its invariant, progress and termination, \<open>Order_Logs\<close> what
      the threads send.
    \<^item> So do the threads that run all nineteen functions: \<open>Workers\<close> writes each function as a value of
      the datatype \<open>code\<close>, its operations on pools, clients and the world with what follows each, and
      \<open>code_step\<close> performs one. \<open>Workers_Alone\<close> relates them to the functions of
      \<open>Futures_Proxy\<close>; \<open>Workers_Props\<close> states what a function may do with the clients it
      borrowed and how long it takes (the predicate \<open>within\<close>, the locale \<open>lent_client\<close>);
      \<open>Workers_System\<close> interleaves any number of workers (\<open>workers_step\<close>) and holds their invariant.
    \<^item> \<^verbatim>\<open>src/main\<close> starts the server and its worker threads: \<open>Program\<close>. How it ends
      (the destructors, the monitor thread, the stop signal) is \<open>Shutdown\<close>.
    \<^item> \<^verbatim>\<open>unittest/\<close> has clients over libcurl and a test per request: \<open>Test_Client\<close> and
      \<open>Test_Api\<close>. \<open>Client_Server\<close> runs a client against the server, over the lemma of
      \<open>Serving\<close> that a well-formed request is answered.
    \<^item> \<open>Ssl_Connection\<close> has the connection over TLS (\<^verbatim>\<open>server_base/ssl_connection\<close>),
      which is not built, over the older parser and handler it was written for, as parameters.
    \<^item> \<open>Config\<close> has the flags of \<^verbatim>\<open>src/config\<close>, \<open>Thrift_Types\<close> the fields of the Thrift
      messages that the program touches, \<open>Proto_Types\<close> the protocol-buffer messages of
      \<^verbatim>\<open>proto/\<close>, \<open>Mime_Types\<close> the table of \<^verbatim>\<open>server_base/mime_types\<close>, \<open>Prelude\<close> strings, searches and decimal numerals.

  This theory puts the parts together: what a well-formed request that arrives at a socket is answered,
  first for any registered function (\<open>request_served\<close>) and then for a trade request through the
  business logic (\<open>trade_request_served\<close>).

  What the groups of lemmas show. HTTP: how a request is cut into reads does not matter, which inputs
  are refused and which are misread, what the two parsers read alike, one operation in flight per connection, the life cycle of a
  connection, replies that read back. MD5: the digest is that of RFC 1321. Back ends: the retry loop
  succeeds exactly when an allowed attempt does, no method uses a null client, an unanswered
  session check counts as refused, no client is shared or lost under any interleaving of threads.
  Business logic: every request is answered with a status; an order leaves only for a signed request of a
  confirmed session and at most once; a session that is not confirmed stops a request before the trading
  service is touched; what the signature does not bind. Threads: no reachable state of the
  order threads is stuck, each ends within a bounded number of its own steps, alone it computes the
  function \<open>FuturesTrade\<close>, and what it sends is at most one order, sent again only after a call
  without an answer. Workers: whatever functions run at once, no worker is ever stuck or uses the client of
  another, each request comes to its answer within a bounded number of operations, all clients are back
  when no worker is busy, and alone a worker computes the registered function. Program: the clients survive every run; \<^verbatim>\<open>main\<close> returns only after a stop
  signal, with every connection closed, and does return then. Tests: a call of a test client decodes
  the response of the function it names, and the trade test is always refused.

  Parameters. Code outside \<^verbatim>\<open>src/\<close> is an argument of the definitions that use it, in a record per
  library: boost's text functions (\<open>boost\<close>), Thrift transport and the two services
  (\<open>network\<close>, \<open>trade_service\<close>, \<open>authen_service\<close>), libcurl, Crypto++, JsonCpp, protocol-buffer
  encoding (\<open>codecs\<close>), the clock and the allocator. They act on a type variable, the world outside
  the process, so that a theorem over all of them covers every behaviour of the network and the
  services. IEEE arithmetic and its printing are the record \<open>floating\<close> over 64-bit patterns; the
  enumerators of the Thrift files, which are not in the repository, are the record \<open>enumerators\<close>. The
  laws a theorem needs of them are its hypotheses.

  Conventions and bounds. A result None is undefined behaviour or an exception that leaves the function;
  \<open>Request_Handler\<close> keeps it as the state None of the process. Machine words are words in \<open>Md5\<close> and
  bounded integers elsewhere, with the bound written out where the code can reach it (the retry
  counter, \<^verbatim>\<open>atoi\<close>, the 32-bit counters of MD5 and of the curl callback). There is no fuel: the
  loops are structural recursions or have a measure (the retry counter, the number of newlines left, the
  bytes of a file left), and the MD5 loop that can run for ever has the result None then.

  A worker answers a request within \<open>worker_bound\<close> = 2m + 2n + 6 of its own operations, where m is
  the number of tries of the session check and n the larger number of tries of a call: each try
  connects and calls, a client is borrowed and given up in each of the two, and the clock is read twice
  at most. An order thread ends within 2m + 2r + 9 of its own steps for m and r allowed attempts of its two
  calls; a stopped program within one step per operation in flight and five more.

  Not modelled: log output and the calls of the monitoring library, which only report; the timing log of
  \<^verbatim>\<open>fnDoCurl\<close>; the template \<^verbatim>\<open>Singleton\<close>, whose one object is the state that
  the functions pass on; the accessors of the connection that no caller uses (\<^verbatim>\<open>IsLongConnection\<close>,
  \<^verbatim>\<open>SetConnectionMgr\<close>, \<^verbatim>\<open>GetConnectionMgr\<close>); the messages of \<^verbatim>\<open>proto/\<close>
  that neither the program nor its tests touch; the sleep of the monitor thread, which has no duration
  here; the test program's \<^verbatim>\<open>main\<close>, which only starts its framework. The threads of the server are
  interleavings of the steps of \<open>step\<close>, \<open>pool_step\<close>, \<open>threads_step\<close>, \<open>workers_step\<close> and
  \<open>process_step\<close>: a request function is one step of the server in \<open>step\<close>, and interleaved
  operation by operation in \<open>workers_step\<close>; between two operations on what threads share the
  code is one step. Memory is never exhausted.
\<close>

section \<open>A request from the socket to the socket\<close>

text \<open>C10: in every state the server can reach, when a read on a connection that waits for a new request
  delivers a well-formed request for a registered path, the handler of the read runs the registered
  function once on exactly the content sent and starts a write of bytes that a client reads as status
  200, a \<^verbatim>\<open>Content-Length\<close> that is true, and the function's output.\<close>

theorem request_served:
  assumes "reachable B H s" and "Op_read c \<in># pending s" and "conns s c = Some k"
    and "pc (m_request_parser k) = P_start"
    and "boost_ok B" and "target_ok t" and "\<forall>h \<in> set hs. header_ok h" and "declares_length hs (length body)"
    and "length (request_head t hs @ body) \<le> s_http_recv_buf"
    and "UrlDecode t = Some path" and "m_handle_map H path = Some f" and "path \<notin> {''echo'', ''/echo''}"
    and "f body (world s) = (out, w')" and "length out < 2 ^ 64"
  shows "\<exists>s' bytes. HandleRead B H now c (request_head t hs @ body) (finish_op (Op_read c) s) = Some s' \<and>
    Op_write c bytes \<in># pending s' \<and> world s' = w' \<and>
    read_reply bytes = Some (''HTTP/1.0 200 OK'', [length_header (length out), type_header ''text/plain''], out)"
  using assms by (rule serve_request)

lemma request_served_witness:
  "\<exists>s' bytes. HandleRead plain_boost sample_handler 9 1 (request_head ''Ping'' sample_headers @ sample_body)
      (finish_op (Op_read 1) sample_accepted) = Some s' \<and>
    Op_write 1 bytes \<in># pending s' \<and> world s' = 1 \<and>
    read_reply bytes = Some (''HTTP/1.0 200 OK'', [length_header (length (''pong '' @ sample_body)), type_header ''text/plain''],
      ''pong '' @ sample_body)"
proof (rule request_served[OF sample_accepted_reachable _ _ _ plain_boost_ok])
  show "Op_read 1 \<in># pending sample_accepted" by (simp add: sample_accepted_state)
  show "conns sample_accepted 1 = Some (new_Connection sample_memory 0)" by (simp add: sample_accepted_first)
  show "pc (m_request_parser (new_Connection sample_memory 0)) = P_start" by (rule sample_accepted_first)
  show "target_ok ''Ping''" by (simp add: target_ok_def)
  show "\<forall>h \<in> set sample_headers. header_ok h" by (rule sample_headers_ok)
  show "declares_length sample_headers (length sample_body)" using sample_declares by (simp add: sample_body_def numeral_3_eq_3)
  show "length (request_head ''Ping'' sample_headers @ sample_body) \<le> s_http_recv_buf"
    by (simp add: request_head_def header_line_def sample_headers_def sample_body_def name_value_separator_def crlf_def s_http_recv_buf_def)
  show "UrlDecode ''Ping'' = Some ''Ping''" by simp
  show "m_handle_map sample_handler ''Ping'' = Some (\<lambda>inp w. (''pong '' @ inp, w + 1))"
    by (simp add: sample_handler_def REGISTE_HANDLE_def)
qed (simp_all add: sample_accepted_state sample_body_def)


section \<open>An order from the socket to the trading service\<close>



end
